(* ===== verification/Prelude.thy ===== *)
theory Prelude
  imports Main "HOL-Library.Word" "HOL-Library.Multiset"
begin

text \<open>
  Shared base of the development.  It fixes how Go values are represented and
  collects the generic lemmas that the component theories use.

  \<^item> A Go \<open>string\<close> or \<open>[]byte\<close> is a \<^typ>\<open>string\<close>; one \<^typ>\<open>char\<close> is one byte.
  \<^item> A \<open>time.Time\<close> is the number of nanoseconds since Go's zero time, so
    \<open>IsZero\<close> is \<open>t = 0\<close>; a \<open>time.Duration\<close> is a number of nanoseconds.
  \<^item> A function that returns \<open>(T, error)\<close> returns a sum: \<open>Inl\<close> the error,
    \<open>Inr\<close> the value.
  \<^item> A Go map whose iteration order matters is an association list with
    distinct keys: the list order stands for the order of that iteration.
\<close>

named_theorems go_simps \<open>rewrite rules for the Go library layer\<close>
named_theorems assoc_simps \<open>rewrite rules for association lists\<close>

type_synonym time = int
type_synonym duration = int

abbreviation second :: duration where "second \<equiv> 1000000000"
abbreviation millisecond :: duration where "millisecond \<equiv> 1000000"
abbreviation minute :: duration where "minute \<equiv> 60 * second"

subsection \<open>Time\<close>

text \<open>\<open>time.Time.Sub\<close> saturates at the bounds of \<open>int64\<close>.\<close>

definition time_sub :: "time \<Rightarrow> time \<Rightarrow> duration" where
  "time_sub t u = max (- (2 ^ 63)) (min (2 ^ 63 - 1) (t - u))"

text \<open>\<open>time.Time.Unix\<close>: the offset is the Unix time of Go's zero time.\<close>

definition unix_offset :: int where
  "unix_offset = 62135596800"

definition time_unix :: "time \<Rightarrow> int" where
  "time_unix t = t div second - unix_offset"

text \<open>\<open>int64\<close> and \<open>int32\<close> wrap-around on mathematical integers.\<close>

definition wrap64 :: "int \<Rightarrow> int" where
  "wrap64 x = (x + 2 ^ 63) mod 2 ^ 64 - 2 ^ 63"

definition wrap32 :: "int \<Rightarrow> int" where
  "wrap32 x = (x + 2 ^ 31) mod 2 ^ 32 - 2 ^ 31"

subsection \<open>Association lists with distinct keys\<close>

definition keys :: "('k \<times> 'v) list \<Rightarrow> 'k list" where
  "keys m = map fst m"

definition wf_assoc :: "('k \<times> 'v) list \<Rightarrow> bool" where
  "wf_assoc m = distinct (map fst m)"

definition assoc_del :: "'k \<Rightarrow> ('k \<times> 'v) list \<Rightarrow> ('k \<times> 'v) list" where
  "assoc_del k m = filter (\<lambda>p. fst p \<noteq> k) m"

text \<open>Storing keeps the position of an existing key and appends a new one.\<close>

fun assoc_put :: "'k \<Rightarrow> 'v \<Rightarrow> ('k \<times> 'v) list \<Rightarrow> ('k \<times> 'v) list" where
  "assoc_put k v [] = [(k, v)]"
| "assoc_put k v (p # m) = (if fst p = k then (k, v) # m else p # assoc_put k v m)"

text \<open>A counter vector: incrementing the series of some labels.\<close>

definition counter_inc :: "'k \<Rightarrow> ('k \<times> int) list \<Rightarrow> ('k \<times> int) list" where
  "counter_inc k m = assoc_put k (case map_of m k of None \<Rightarrow> 1 | Some n \<Rightarrow> n + 1) m"

lemma fst_image_member [intro]: "(k, v) \<in> set m \<Longrightarrow> k \<in> fst ` set m"
  by force

lemma map_of_assoc_del [simp, assoc_simps]:
  "map_of (assoc_del k m) = (map_of m)(k := None)"
  by (induction m) (auto simp: assoc_del_def fun_eq_iff)

lemma map_of_assoc_put [simp, assoc_simps]:
  "map_of (assoc_put k v m) = (map_of m)(k \<mapsto> v)"
  by (induction m) (auto simp: fun_eq_iff)

lemma set_fst_assoc_put [simp, assoc_simps]:
  "fst ` set (assoc_put k v m) = insert k (fst ` set m)"
  by (induction m) auto

lemma set_fst_assoc_del [simp, assoc_simps]:
  "fst ` set (assoc_del k m) = fst ` set m - {k}"
  by (auto simp: assoc_del_def)

lemma wf_assoc_Nil [simp, intro]: "wf_assoc []"
  by (simp add: wf_assoc_def)

lemma wf_assoc_put [simp, intro]: "wf_assoc m \<Longrightarrow> wf_assoc (assoc_put k v m)"
  by (induction m) (auto simp: wf_assoc_def image_iff dest: sym)

lemma wf_assoc_filter [simp, intro]: "wf_assoc m \<Longrightarrow> wf_assoc (filter P m)"
  by (induction m) (auto simp: wf_assoc_def)

lemma wf_assoc_del [simp, intro]: "wf_assoc m \<Longrightarrow> wf_assoc (assoc_del k m)"
  by (simp add: assoc_del_def)

lemma length_assoc_del_le: "length (assoc_del k m) \<le> length m"
  by (simp add: assoc_del_def)

lemma length_assoc_del_less:
  "k \<in> fst ` set m \<Longrightarrow> length (assoc_del k m) < length m"
  by (auto simp: assoc_del_def intro: length_filter_less)

lemma length_assoc_put:
  "length (assoc_put k v m) = (if k \<in> fst ` set m then length m else Suc (length m))"
  by (induction m) auto

lemma map_of_None_iff: "map_of m k = None \<longleftrightarrow> k \<notin> fst ` set m"
  by (simp add: map_of_eq_None_iff)

lemma wf_assoc_map_of_iff:
  "wf_assoc m \<Longrightarrow> map_of m k = Some v \<longleftrightarrow> (k, v) \<in> set m"
  by (simp add: wf_assoc_def)

lemma map_of_filter_wf:
  "wf_assoc m \<Longrightarrow>
   map_of (filter P m) k = (case map_of m k of None \<Rightarrow> None | Some v \<Rightarrow> if P (k, v) then Some v else None)"
  by (induction m) (auto simp: wf_assoc_def map_of_None_iff split: option.splits)

subsection \<open>Lists\<close>

lemma take_drop_split: "i \<le> j \<Longrightarrow> take i xs @ take (j - i) (drop i xs) = take j xs"
  by (metis le_add_diff_inverse take_add)

lemma drop_eq_Cons_nth: "drop i xs = y # ys \<Longrightarrow> i < length xs \<and> xs ! i = y \<and> ys = drop (Suc i) xs"
  by (metis drop_eq_Nil2 Cons_nth_drop_Suc leI list.distinct(1) list.inject)

lemma filter_pos_imp_sublist: "x \<in> set (filter P xs) \<Longrightarrow> x \<in> set xs \<and> P x"
  by simp

lemma time_sub_bounds: "- (2 ^ 63) \<le> time_sub t u" "time_sub t u \<le> 2 ^ 63 - 1"
  by (simp_all add: time_sub_def)

lemma time_sub_less_iff:
  "\<lbrakk> - (2 ^ 63) < d; d \<le> 2 ^ 63 - 1 \<rbrakk> \<Longrightarrow> time_sub t u < d \<longleftrightarrow> t - u < d"
  by (auto simp: time_sub_def)

lemma wrap64_id: "\<lbrakk> - (2 ^ 63) \<le> x; x < 2 ^ 63 \<rbrakk> \<Longrightarrow> wrap64 x = x"
  by (simp add: wrap64_def)

lemma wrap64_bounds: "- (2 ^ 63) \<le> wrap64 x" "wrap64 x < 2 ^ 63"
proof -
  have "0 \<le> (x + 2 ^ 63) mod 2 ^ 64" "(x + 2 ^ 63) mod 2 ^ 64 < 2 ^ 64"
    by simp_all
  then show "- (2 ^ 63) \<le> wrap64 x" "wrap64 x < 2 ^ 63"
    by (simp_all add: wrap64_def)
qed

lemma wrap32_id: "\<lbrakk> - (2 ^ 31) \<le> x; x < 2 ^ 31 \<rbrakk> \<Longrightarrow> wrap32 x = x"
  by (simp add: wrap32_def)

end
