(* ===== verification/GoStrings.thy ===== *)
theory GoStrings
  imports Prelude
begin

text \<open>
  The parts of Go's \<open>strings\<close>, \<open>strconv\<close>, \<open>path\<close>, \<open>unicode/utf8\<close>,
  \<open>net\<close> (\<open>SplitHostPort\<close>), \<open>net/http\<close> (\<open>CanonicalHeaderKey\<close>) and \<open>mime\<close>
  (\<open>ParseMediaType\<close>) packages that the program calls.  Case mapping and white
  space are those of ASCII: the definitions agree with Go on strings of ASCII
  bytes, and leave other bytes alone.
\<close>

subsection \<open>Prefixes, suffixes, searching\<close>

definition has_prefix :: "string \<Rightarrow> string \<Rightarrow> bool" where
  "has_prefix s p = (take (length p) s = p)"

definition has_suffix :: "string \<Rightarrow> string \<Rightarrow> bool" where
  "has_suffix s p = (length p \<le> length s \<and> drop (length s - length p) s = p)"

definition trim_prefix :: "string \<Rightarrow> string \<Rightarrow> string" where
  "trim_prefix s p = (if has_prefix s p then drop (length p) s else s)"

definition trim_suffix :: "string \<Rightarrow> string \<Rightarrow> string" where
  "trim_suffix s p = (if has_suffix s p then take (length s - length p) s else s)"

definition cut_prefix :: "string \<Rightarrow> string \<Rightarrow> string option" where
  "cut_prefix s p = (if has_prefix s p then Some (drop (length p) s) else None)"

fun str_index :: "string \<Rightarrow> string \<Rightarrow> nat option" where
  "str_index [] p = (if p = [] then Some 0 else None)"
| "str_index (c # s) p = (if has_prefix (c # s) p then Some 0 else map_option Suc (str_index s p))"

definition str_contains :: "string \<Rightarrow> string \<Rightarrow> bool" where
  "str_contains s p = (str_index s p \<noteq> None)"

fun index_byte :: "string \<Rightarrow> char \<Rightarrow> nat option" where
  "index_byte [] c = None"
| "index_byte (d # s) c = (if d = c then Some 0 else map_option Suc (index_byte s c))"

definition last_index_byte :: "string \<Rightarrow> char \<Rightarrow> nat option" where
  "last_index_byte s c = map_option (\<lambda>i. length s - Suc i) (index_byte (rev s) c)"

text \<open>\<open>strings.Split\<close> with a one-byte separator.\<close>

fun str_split :: "char \<Rightarrow> string \<Rightarrow> string list" where
  "str_split c [] = [[]]"
| "str_split c (d # s) =
     (if d = c then [] # str_split c s
      else (case str_split c s of [] \<Rightarrow> [[d]] | w # ws \<Rightarrow> (d # w) # ws))"

fun str_join :: "string list \<Rightarrow> string \<Rightarrow> string" where
  "str_join [] sep = []"
| "str_join [w] sep = w"
| "str_join (w # v # ws) sep = w @ sep @ str_join (v # ws) sep"

text \<open>\<open>strings.ReplaceAll\<close> for a non-empty pattern: left to right, no overlap.\<close>

function replace_all :: "string \<Rightarrow> string \<Rightarrow> string \<Rightarrow> string" where
  "replace_all s old new =
     (if s = [] \<or> old = [] then s
      else if has_prefix s old then new @ replace_all (drop (length old) s) old new
      else hd s # replace_all (tl s) old new)"
  by pat_completeness auto
termination
  by (relation "measure (\<lambda>(s, old, new). length s)") auto

declare replace_all.simps [simp del]

subsection \<open>Case and white space\<close>

definition byte_val :: "char \<Rightarrow> int" where
  "byte_val c = of_char c"

definition is_upper_byte :: "char \<Rightarrow> bool" where
  "is_upper_byte c = (65 \<le> byte_val c \<and> byte_val c \<le> 90)"

definition is_lower_byte :: "char \<Rightarrow> bool" where
  "is_lower_byte c = (97 \<le> byte_val c \<and> byte_val c \<le> 122)"

definition is_digit_byte :: "char \<Rightarrow> bool" where
  "is_digit_byte c = (48 \<le> byte_val c \<and> byte_val c \<le> 57)"

definition lower_byte :: "char \<Rightarrow> char" where
  "lower_byte c = (if is_upper_byte c then char_of (byte_val c + 32) else c)"

definition upper_byte :: "char \<Rightarrow> char" where
  "upper_byte c = (if is_lower_byte c then char_of (byte_val c - 32) else c)"

definition to_lower :: "string \<Rightarrow> string" where
  "to_lower s = map lower_byte s"

definition to_upper :: "string \<Rightarrow> string" where
  "to_upper s = map upper_byte s"

definition equal_fold :: "string \<Rightarrow> string \<Rightarrow> bool" where
  "equal_fold s t = (to_lower s = to_lower t)"

definition is_space_byte :: "char \<Rightarrow> bool" where
  "is_space_byte c = (byte_val c = 32 \<or> (9 \<le> byte_val c \<and> byte_val c \<le> 13))"

definition trim_space :: "string \<Rightarrow> string" where
  "trim_space s = rev (dropWhile is_space_byte (rev (dropWhile is_space_byte s)))"

subsection \<open>Numbers\<close>

function int_digits :: "int \<Rightarrow> string" where
  "int_digits n = (if n < 10 then [char_of (48 + n)] else int_digits (n div 10) @ [char_of (48 + n mod 10)])"
  by pat_completeness auto
termination
  by (relation "measure nat") auto

declare int_digits.simps [simp del]

definition itoa :: "int \<Rightarrow> string" where
  "itoa i = (if i < 0 then CHR ''-'' # int_digits (- i) else int_digits i)"

text \<open>\<open>strconv.Atoi\<close> and \<open>strconv.ParseInt\<close> in base 10 on 64 bits.\<close>

definition parse_digits :: "string \<Rightarrow> int option" where
  "parse_digits s = (if s \<noteq> [] \<and> list_all is_digit_byte s
     then Some (foldl (\<lambda>n c. 10 * n + (byte_val c - 48)) 0 s) else None)"

definition parse_int64 :: "string \<Rightarrow> int option" where
  "parse_int64 s =
     (let (neg, d) = (case s of [] \<Rightarrow> (False, s)
                       | c # t \<Rightarrow> if c = CHR ''-'' then (True, t) else if c = CHR ''+'' then (False, t) else (False, s))
      in case parse_digits d of
           None \<Rightarrow> None
         | Some n \<Rightarrow> (let v = (if neg then - n else n)
                      in if - (2 ^ 63) \<le> v \<and> v < 2 ^ 63 then Some v else None))"

subsection \<open>UTF-8\<close>

text \<open>\<open>utf8.RuneStart\<close>: the byte is not a continuation byte.\<close>

definition rune_start :: "char \<Rightarrow> bool" where
  "rune_start c = (byte_val c < 128 \<or> 192 \<le> byte_val c)"

subsection \<open>Rooted path.Clean\<close>

text \<open>
  \<open>path.Clean\<close> on a path that starts with a slash: empty and \<open>.\<close> segments
  vanish, \<open>..\<close> removes the previous segment and is dropped at the root.
\<close>

fun clean_segments :: "string list \<Rightarrow> string list \<Rightarrow> string list" where
  "clean_segments acc [] = rev acc"
| "clean_segments acc (w # ws) =
     (if w = [] \<or> w = ''.'' then clean_segments acc ws
      else if w = ''..'' then clean_segments (tl acc) ws
      else clean_segments (w # acc) ws)"

definition path_clean_rooted :: "string \<Rightarrow> string" where
  "path_clean_rooted p = CHR ''/'' # str_join (clean_segments [] (str_split (CHR ''/'') p)) ''/''"

subsection \<open>File paths\<close>

text \<open>\<open>filepath.Clean\<close>, \<open>Dir\<close>, \<open>Join\<close> of two elements and \<open>Base\<close>.\<close>

fun clean_path_segments :: "bool \<Rightarrow> string list \<Rightarrow> string list \<Rightarrow> string list" where
  "clean_path_segments rooted acc [] = rev acc"
| "clean_path_segments rooted acc (w # ws) =
     (if w = [] \<or> w = ''.'' then clean_path_segments rooted acc ws
      else if w \<noteq> ''..'' then clean_path_segments rooted (w # acc) ws
      else if acc \<noteq> [] \<and> List.hd acc \<noteq> ''..'' then clean_path_segments rooted (tl acc) ws
      else if rooted then clean_path_segments rooted acc ws
      else clean_path_segments rooted (w # acc) ws)"

definition filepath_clean :: "string \<Rightarrow> string" where
  "filepath_clean p =
     (let rooted = has_prefix p ''/'';
          q = (if rooted then ''/'' else []) @ str_join (clean_path_segments rooted [] (str_split (CHR ''/'') p)) ''/''
      in if q = [] then ''.'' else q)"

definition filepath_dir :: "string \<Rightarrow> string" where
  "filepath_dir p = filepath_clean (case last_index_byte p (CHR ''/'') of None \<Rightarrow> [] | Some i \<Rightarrow> take (Suc i) p)"

definition filepath_join :: "string \<Rightarrow> string \<Rightarrow> string" where
  "filepath_join a b = (if a = [] \<and> b = [] then [] else filepath_clean (if a = [] then b else if b = [] then a else a @ ''/'' @ b))"

definition filepath_base :: "string \<Rightarrow> string" where
  "filepath_base p =
     (if p = [] then ''.''
      else let q = rev (dropWhile (\<lambda>c. c = CHR ''/'') (rev p))
           in if q = [] then ''/'' else rev (takeWhile (\<lambda>c. c \<noteq> CHR ''/'') (rev q)))"

subsection \<open>net.SplitHostPort\<close>

definition split_host_port :: "string \<Rightarrow> (string \<times> string) option" where
  "split_host_port hp =
     (case last_index_byte hp (CHR '':'') of
        None \<Rightarrow> None
      | Some i \<Rightarrow>
          if hd hp = CHR ''['' then
            (case index_byte hp (CHR '']'') of
               None \<Rightarrow> None
             | Some e \<Rightarrow>
                 if e + 1 \<noteq> i then None
                 else if CHR ''['' \<in> set (drop 1 hp) \<or> CHR '']'' \<in> set (drop (e + 1) hp) then None
                 else Some (take (e - 1) (drop 1 hp), drop (i + 1) hp))
          else if CHR '':'' \<in> set (take i hp) then None
          else if CHR ''['' \<in> set hp \<or> CHR '']'' \<in> set hp then None
          else Some (take i hp, drop (i + 1) hp))"

subsection \<open>http.CanonicalHeaderKey\<close>

definition is_token_byte :: "char \<Rightarrow> bool" where
  "is_token_byte c = (is_upper_byte c \<or> is_lower_byte c \<or> is_digit_byte c \<or> c \<in> set ''!#$%&*+-.^_`|~'' \<or> byte_val c = 39)"

fun canonical_from :: "bool \<Rightarrow> string \<Rightarrow> string" where
  "canonical_from up [] = []"
| "canonical_from up (c # s) =
     (if up then upper_byte c else lower_byte c) # canonical_from (c = CHR ''-'') s"

definition canonical_header_key :: "string \<Rightarrow> string" where
  "canonical_header_key s = (if list_all is_token_byte s then canonical_from True s else s)"

subsection \<open>mime.ParseMediaType\<close>

text \<open>
  Only the media type and the presence of an error are used by the program, so
  the parameters are parsed but not decoded.  A parameter name that occurs twice
  with different values is an error; a trailing semicolon is not.
\<close>

definition consume_token :: "string \<Rightarrow> string \<times> string" where
  "consume_token s = (takeWhile is_token_byte s, dropWhile is_token_byte s)"

definition check_media_type :: "string \<Rightarrow> bool" where
  "check_media_type s =
     (let (t, r) = consume_token s in
      t \<noteq> [] \<and> (r = [] \<or> (hd r = CHR ''/'' \<and>
        (let (u, r') = consume_token (tl r) in u \<noteq> [] \<and> r' = []))))"

definition is_tspecial :: "char \<Rightarrow> bool" where
  "is_tspecial c = (c \<in> set ''()<>@,;:/[]?='' \<or> byte_val c = 34 \<or> byte_val c = 92)"

fun consume_quoted :: "string \<Rightarrow> string \<Rightarrow> (string \<times> string) option" where
  "consume_quoted acc [] = None"
| "consume_quoted acc (c # s) =
     (if c = CHR 0x22 then Some (rev acc, s)
      else if byte_val c = 92 \<and> s \<noteq> [] \<and> is_tspecial (hd s)
        then consume_quoted (hd s # acc) (tl s)
      else if byte_val c = 13 \<or> byte_val c = 10 then None
      else consume_quoted (c # acc) s)"

definition consume_value :: "string \<Rightarrow> string \<times> string" where
  "consume_value v =
     (case v of [] \<Rightarrow> ([], [])
      | c # s \<Rightarrow>
          if c \<noteq> CHR 0x22 then consume_token v
          else (case consume_quoted [] s of None \<Rightarrow> ([], v) | Some r \<Rightarrow> r))"

definition consume_media_param :: "string \<Rightarrow> string \<times> string \<times> string" where
  "consume_media_param v =
     (let rest = dropWhile is_space_byte v in
      if \<not> has_prefix rest '';'' then ([], [], v)
      else
        (let (p, r1) = consume_token (dropWhile is_space_byte (drop 1 rest));
             p = to_lower p;
             r2 = dropWhile is_space_byte r1 in
         if p = [] then ([], [], v)
         else if \<not> has_prefix r2 ''='' then ([], [], v)
         else
           (let r3 = dropWhile is_space_byte (drop 1 r2);
                (value, r4) = consume_value r3 in
            if value = [] \<and> r4 = r3 then ([], [], v) else (p, value, r4))))"

fun media_params_ok :: "nat \<Rightarrow> (string \<times> string) list \<Rightarrow> string \<Rightarrow> bool" where
  "media_params_ok 0 seen v = False"
| "media_params_ok (Suc n) seen v =
     (let v = dropWhile is_space_byte v in
      if v = [] then True
      else
        (let (key, value, rest) = consume_media_param v in
         if key = [] then trim_space rest = '';''
         else if map_of seen key \<noteq> None \<and> map_of seen key \<noteq> Some value then False
         else media_params_ok n ((key, value) # seen) rest))"

definition parse_media_type :: "string \<Rightarrow> string option" where
  "parse_media_type v =
     (let base = takeWhile (\<lambda>c. c \<noteq> CHR '';'') v;
          mt = trim_space (to_lower base) in
      if check_media_type mt \<and> media_params_ok (Suc (length v)) [] (drop (length base) v)
      then Some mt else None)"

subsection \<open>Lemmas\<close>

lemma has_prefix_iff: "has_prefix s p \<longleftrightarrow> (\<exists>r. s = p @ r)"
  by (auto simp: has_prefix_def intro: exI [of _ "drop (length p) s"] dest: sym)
     (metis append_take_drop_id)

lemma has_suffix_iff: "has_suffix s p \<longleftrightarrow> (\<exists>r. s = r @ p)"
  by (auto simp: has_suffix_def) (metis append_take_drop_id)

lemma has_prefix_self [simp]: "has_prefix (p @ s) p"
  by (simp add: has_prefix_def)

lemma has_suffix_self [simp]: "has_suffix (s @ p) p"
  by (simp add: has_suffix_def)

lemma has_prefix_Nil [simp]: "has_prefix s []"
  by (simp add: has_prefix_def)

lemma cut_prefix_append [simp]: "cut_prefix (p @ s) p = Some s"
  by (simp add: cut_prefix_def)

lemma cut_prefix_Some: "cut_prefix s p = Some r \<longleftrightarrow> s = p @ r"
  by (auto simp: cut_prefix_def has_prefix_iff split: if_splits)

lemma length_trim_suffix: "length (trim_suffix s p) \<le> length s"
  by (simp add: trim_suffix_def)

lemma str_split_not_Nil [simp]: "str_split c s \<noteq> []"
  by (induction s) (auto split: list.splits)

lemma str_split_no_sep: "w \<in> set (str_split c s) \<Longrightarrow> c \<notin> set w"
proof (induction s arbitrary: w)
  case (Cons d s)
  then show ?case
    by (cases "str_split c s") (auto split: if_splits)
qed simp

lemma str_join_split: "str_join (str_split c s) [c] = s"
proof (induction s)
  case (Cons d s)
  obtain w ws where "str_split c s = w # ws"
    by (metis neq_Nil_conv str_split_not_Nil)
  with Cons show ?case
    by (cases ws) auto
qed simp

lemma byte_val_char_of [simp]: "0 \<le> n \<Longrightarrow> n < 256 \<Longrightarrow> byte_val (char_of n) = n"
  by (simp add: byte_val_def)

lemma byte_val_bounds: "0 \<le> byte_val c" "byte_val c < 256"
proof -
  have "int (of_char c) < 256"
    using range_nat_of_char [of] by (metis atLeastLessThan_iff of_nat_less_numeral_iff rangeI)
  then show "0 \<le> byte_val c" "byte_val c < 256"
    by (simp_all add: byte_val_def of_nat_of_char [symmetric, where 'a = int])
qed

lemma lower_byte_idem [simp]: "lower_byte (lower_byte c) = lower_byte c"
  by (auto simp: lower_byte_def is_upper_byte_def)

lemma to_lower_idem [simp]: "to_lower (to_lower s) = to_lower s"
  by (simp add: to_lower_def)

lemma to_lower_append [simp]: "to_lower (s @ t) = to_lower s @ to_lower t"
  by (simp add: to_lower_def)

lemma length_to_lower [simp]: "length (to_lower s) = length s"
  by (simp add: to_lower_def)

lemma length_trim_space: "length (trim_space s) \<le> length s"
  using length_dropWhile_le [of is_space_byte s]
    length_dropWhile_le [of is_space_byte "rev (dropWhile is_space_byte s)"]
  by (simp add: trim_space_def)

lemma trim_space_all_space: "trim_space s = [] \<longleftrightarrow> list_all is_space_byte s"
proof
  assume "trim_space s = []"
  then have "\<forall>x \<in> set (dropWhile is_space_byte s). is_space_byte x"
    by (simp add: trim_space_def dropWhile_eq_Nil_conv)
  moreover have "dropWhile is_space_byte s = [] \<or> \<not> is_space_byte (hd (dropWhile is_space_byte s))"
    using hd_dropWhile by blast
  ultimately have "dropWhile is_space_byte s = []"
    by (metis hd_in_set)
  then show "list_all is_space_byte s"
    by (simp add: dropWhile_eq_Nil_conv list_all_iff)
next
  assume "list_all is_space_byte s"
  then show "trim_space s = []"
    by (auto simp: trim_space_def list_all_iff dest: set_dropWhileD)
qed

subsection \<open>Printing and parsing of numbers\<close>

lemma byte_val_digit: "0 \<le> d \<Longrightarrow> d < 10 \<Longrightarrow> byte_val (char_of (48 + d :: int)) = 48 + d"
  by (simp add: byte_val_def)

lemma is_digit_digit: "0 \<le> d \<Longrightarrow> d < 10 \<Longrightarrow> is_digit_byte (char_of (48 + d :: int))"
  using byte_val_digit [of d] by (simp add: is_digit_byte_def)

lemma int_digits_nonempty: "int_digits n \<noteq> []"
  by (simp add: int_digits.simps [of n])

lemma int_digits_digits: "0 \<le> n \<Longrightarrow> list_all is_digit_byte (int_digits n)"
proof (induction n rule: int_digits.induct)
  case (1 n)
  then show ?case by (subst int_digits.simps) (auto simp: is_digit_digit)
qed

lemma int_digits_value: "0 \<le> n \<Longrightarrow> foldl (\<lambda>n c. 10 * n + (byte_val c - 48)) 0 (int_digits n) = n"
proof (induction n rule: int_digits.induct)
  case (1 n)
  then show ?case by (subst int_digits.simps) (auto simp: byte_val_digit)
qed

text \<open>Printing a number and reading it again.\<close>

lemma parse_digits_itoa: "0 \<le> n \<Longrightarrow> parse_digits (itoa n) = Some n"
  by (simp add: parse_digits_def itoa_def int_digits_nonempty int_digits_digits int_digits_value)

lemma itoa_inject: "\<lbrakk> itoa m = itoa n; 0 \<le> m; 0 \<le> n \<rbrakk> \<Longrightarrow> m = n"
  by (metis option.inject parse_digits_itoa)

lemma itoa_no_byte:
  assumes "\<not> is_digit_byte c" "0 \<le> n"
  shows "c \<notin> set (itoa n)"
  using int_digits_digits [OF assms(2)] assms by (auto simp: itoa_def list_all_iff)

subsection \<open>Runes\<close>

definition cont_in :: "int \<Rightarrow> int \<Rightarrow> string \<Rightarrow> nat \<Rightarrow> bool" where
  "cont_in lo hi s i = (i < length s \<and> lo \<le> byte_val (s ! i) \<and> byte_val (s ! i) \<le> hi)"

definition low_bits :: "string \<Rightarrow> nat \<Rightarrow> int" where
  "low_bits s i = byte_val (s ! i) - 128"

text \<open>
  \<open>utf8.DecodeRuneInString\<close> on a first byte and what follows it: the rune and the
  number of continuation bytes it takes.  Invalid encodings give U+FFFD and take
  one byte.
\<close>

definition decode_rune :: "char \<Rightarrow> string \<Rightarrow> int \<times> nat" where
  "decode_rune a s =
     (let x = byte_val a in
      if x < 128 then (x, 0)
      else if 194 \<le> x \<and> x \<le> 223 \<and> cont_in 128 191 s 0 then ((x - 192) * 64 + low_bits s 0, 1)
      else if 224 \<le> x \<and> x \<le> 239 \<and> cont_in (if x = 224 then 160 else 128) (if x = 237 then 159 else 191) s 0 \<and>
              cont_in 128 191 s 1
        then ((x - 224) * 4096 + low_bits s 0 * 64 + low_bits s 1, 2)
      else if 240 \<le> x \<and> x \<le> 244 \<and> cont_in (if x = 240 then 144 else 128) (if x = 244 then 143 else 191) s 0 \<and>
              cont_in 128 191 s 1 \<and> cont_in 128 191 s 2
        then ((x - 240) * 262144 + low_bits s 0 * 4096 + low_bits s 1 * 64 + low_bits s 2, 3)
      else (65533, 0))"

function runes :: "string \<Rightarrow> int list" where
  "runes [] = []"
| "runes (a # s) = fst (decode_rune a s) # runes (drop (snd (decode_rune a s)) s)"
  by pat_completeness auto
termination
  by (relation "measure length") auto

definition is_space_rune :: "int \<Rightarrow> bool" where
  "is_space_rune r = (r = 32 \<or> (9 \<le> r \<and> r \<le> 13) \<or> r \<in> {133, 160, 5760, 8232, 8233, 8239, 8287, 12288} \<or>
     (8192 \<le> r \<and> r \<le> 8202))"

definition is_control_rune :: "int \<Rightarrow> bool" where
  "is_control_rune r = (0 \<le> r \<and> r \<le> 31 \<or> 127 \<le> r \<and> r \<le> 159)"

lemma decode_rune_takes_high:
  assumes "c \<in> set (take (snd (decode_rune a s)) s)"
  shows "128 \<le> byte_val c"
proof -
  obtain i where i: "i < snd (decode_rune a s)" "i < length s" "c = s ! i"
    using assms by (auto simp: in_set_conv_nth)
  then have "i \<in> {0, 1, 2}" by (auto simp: decode_rune_def Let_def split: if_splits)
  then show ?thesis using i by (auto simp: decode_rune_def cont_in_def Let_def split: if_splits)
qed

lemma ascii_rune: "\<lbrakk> c \<in> set p; byte_val c < 128 \<rbrakk> \<Longrightarrow> byte_val c \<in> set (runes p)"
proof (induction p rule: runes.induct)
  case 1
  then show ?case by simp
next
  case (2 a s)
  let ?n = "snd (decode_rune a s)"
  show ?case
  proof (cases "c = a")
    case True
    then show ?thesis using 2(3) by (simp add: decode_rune_def Let_def)
  next
    case False
    then have "c \<in> set (take ?n s @ drop ?n s)" using 2(2) by (simp only: append_take_drop_id) simp
    then have "c \<in> set (take ?n s) \<or> c \<in> set (drop ?n s)" unfolding set_append by blast
    then have "c \<in> set (drop ?n s)" using decode_rune_takes_high [of c a s] 2(3) by linarith
    then show ?thesis using 2 by simp
  qed
qed

subsection \<open>Joined paths\<close>

text \<open>A plain file name, and the path of a directory with the slash behind it.\<close>

definition plain_name :: "string \<Rightarrow> bool" where
  "plain_name w \<longleftrightarrow> w \<noteq> [] \<and> CHR ''/'' \<notin> set w \<and> w \<noteq> ''.'' \<and> w \<noteq> ''..''"

definition dir_prefix :: "string \<Rightarrow> string" where
  "dir_prefix d =
     (if has_prefix d ''/'' then ''/'' else []) @
     concat (map (\<lambda>w. w @ ''/'') (clean_path_segments (has_prefix d ''/'') [] (str_split (CHR ''/'') d)))"

lemma str_split_snoc: "c \<notin> set w \<Longrightarrow> str_split c (p @ c # w) = str_split c p @ [w]"
proof (induction p)
  case Nil
  then have "str_split c w = [w]" by (induction w) auto
  then show ?case by simp
next
  case (Cons a p)
  then show ?case by (cases "str_split c p") (auto split: list.splits)
qed

lemma clean_path_segments_snoc:
  "plain_name w \<Longrightarrow> clean_path_segments rooted acc (ws @ [w]) = clean_path_segments rooted acc ws @ [w]"
  by (induction rooted acc ws rule: clean_path_segments.induct) (auto simp: plain_name_def)

lemma str_join_snoc_slash: "str_join (ws @ [w]) ''/'' = concat (map (\<lambda>w. w @ ''/'') ws) @ w"
  by (induction ws "''/''" rule: str_join.induct) auto

lemma has_prefix_append_slash: "d \<noteq> [] \<Longrightarrow> has_prefix (d @ s) ''/'' = has_prefix d ''/''"
  by (cases d) (auto simp: has_prefix_iff)

lemma filepath_join_name: "\<lbrakk> d \<noteq> []; plain_name w \<rbrakk> \<Longrightarrow> filepath_join d w = dir_prefix d @ w"
  by (auto simp: filepath_join_def filepath_clean_def dir_prefix_def Let_def plain_name_def has_prefix_append_slash
      str_split_snoc clean_path_segments_snoc str_join_snoc_slash)

lemma notin_set_tl: "x \<notin> set xs \<Longrightarrow> x \<notin> set (tl xs)"
  by (cases xs) auto

lemma clean_path_segments_nonempty: "[] \<notin> set acc \<Longrightarrow> [] \<notin> set (clean_path_segments rooted acc ws)"
  by (induction rooted acc ws rule: clean_path_segments.induct) (auto simp: notin_set_tl)

lemma filepath_clean_prefix:
  "dir_prefix d = filepath_clean d @ ''/'' \<or> filepath_clean d = ''/'' \<and> dir_prefix d = ''/'' \<or> filepath_clean d = ''.'' \<and> dir_prefix d = []"
proof (cases "clean_path_segments (has_prefix d ''/'') [] (str_split (CHR ''/'') d)" rule: rev_cases)
  case Nil
  then show ?thesis by (cases "has_prefix d ''/''") (simp_all add: filepath_clean_def dir_prefix_def)
next
  case (snoc ws w)
  have "w \<noteq> []" using clean_path_segments_nonempty [of "[]" "has_prefix d ''/''" "str_split (CHR ''/'') d"] snoc by auto
  with snoc show ?thesis by (auto simp: filepath_clean_def dir_prefix_def str_join_snoc_slash Let_def)
qed

lemma filepath_join_inside: "\<lbrakk> d \<noteq> []; plain_name w \<rbrakk> \<Longrightarrow> filepath_join d w \<noteq> filepath_clean d"
  using filepath_clean_prefix [of d] by (auto simp: filepath_join_name) (auto simp: plain_name_def)

end
