(* ===== verification/GoNetip.thy ===== *)
theory GoNetip
  imports GoStrings
begin

text \<open>
  Go's \<open>net/netip\<close>: addresses, their text form, and prefixes.  An IPv4 address
  is a 32-bit word, an IPv6 address a 128-bit word with a zone (empty for no
  zone); \<open>AddrZero\<close> is the zero value \<open>netip.Addr{}\<close>.
\<close>

unbundle bit_operations_syntax

datatype addr = AddrZero | Addr4 "32 word" | Addr6 "128 word" string

record ip_prefix =
  pfx_addr :: addr
  pfx_bits :: nat

subsection \<open>Parsing\<close>

definition parse_octet :: "string \<Rightarrow> int option" where
  "parse_octet s =
     (if s = [] \<or> \<not> list_all is_digit_byte s \<or> (length s > 1 \<and> hd s = CHR ''0'') then None
      else (case parse_digits s of None \<Rightarrow> None | Some n \<Rightarrow> if n \<le> 255 then Some n else None))"

definition parse_ipv4_fields :: "string \<Rightarrow> int list option" where
  "parse_ipv4_fields s =
     (case map parse_octet (str_split (CHR ''.'') s) of
        [Some a, Some b, Some c, Some d] \<Rightarrow> Some [a, b, c, d]
      | _ \<Rightarrow> None)"

definition octets_word :: "int list \<Rightarrow> 32 word" where
  "octets_word os = word_of_int (foldl (\<lambda>n b. 256 * n + b) 0 os)"

definition hex_val :: "char \<Rightarrow> int option" where
  "hex_val c =
     (if is_digit_byte c then Some (byte_val c - 48)
      else if 97 \<le> byte_val c \<and> byte_val c \<le> 102 then Some (byte_val c - 87)
      else if 65 \<le> byte_val c \<and> byte_val c \<le> 70 then Some (byte_val c - 55)
      else None)"

definition is_hex_byte :: "char \<Rightarrow> bool" where
  "is_hex_byte c = (hex_val c \<noteq> None)"

definition hex_number :: "string \<Rightarrow> int" where
  "hex_number s = foldl (\<lambda>n c. 16 * n + the (hex_val c)) 0 s"

text \<open>
  The main loop of \<open>parseIPv6\<close>.  The first argument is the number of 16-bit
  groups that still fit, \<open>gs\<close> the groups read so far (in order), \<open>ell\<close> the
  number of groups read when the ellipsis was met.  The result is the groups,
  the ellipsis and the unread rest of the string.
\<close>

fun parse_v6_loop ::
  "nat \<Rightarrow> int list \<Rightarrow> nat option \<Rightarrow> string \<Rightarrow> (int list \<times> nat option \<times> string) option" where
  "parse_v6_loop 0 gs ell s = Some (gs, ell, s)"
| "parse_v6_loop (Suc n) gs ell s =
     (let h = takeWhile is_hex_byte s; r = dropWhile is_hex_byte s in
      if h = [] \<or> length h > 4 then None
      else if r \<noteq> [] \<and> hd r = CHR ''.'' then
        (if ell = None \<and> length gs \<noteq> 6 then None
         else if length gs + 2 > 8 then None
         else (case parse_ipv4_fields s of
                 Some [a, b, c, d] \<Rightarrow> Some (gs @ [256 * a + b, 256 * c + d], ell, [])
               | _ \<Rightarrow> None))
      else
        (let gs' = gs @ [hex_number h] in
         if r = [] then Some (gs', ell, [])
         else if hd r \<noteq> CHR '':'' \<or> tl r = [] then None
         else if hd (tl r) = CHR '':'' then
           (if ell \<noteq> None then None
            else if tl (tl r) = [] then Some (gs', Some (length gs'), [])
            else parse_v6_loop n gs' (Some (length gs')) (tl (tl r)))
         else parse_v6_loop n gs' ell (tl r)))"

definition groups_word :: "int list \<Rightarrow> 128 word" where
  "groups_word gs = word_of_int (foldl (\<lambda>n g. 65536 * n + g) 0 gs)"

definition parse_ipv6 :: "string \<Rightarrow> addr option" where
  "parse_ipv6 s0 =
     (let (s, zone, zone_ok) =
        (case index_byte s0 (CHR ''%'') of
           None \<Rightarrow> (s0, [], True)
         | Some i \<Rightarrow> (take i s0, drop (i + 1) s0, drop (i + 1) s0 \<noteq> []))
      in if \<not> zone_ok then None
      else
        (let (ell0, s1) = (if has_prefix s ''::'' then (Some 0, drop 2 s) else (None, s)) in
         if ell0 = Some 0 \<and> s1 = [] then Some (Addr6 0 zone)
         else (case parse_v6_loop 8 [] ell0 s1 of
             None \<Rightarrow> None
           | Some (gs, ell, rest) \<Rightarrow>
               if rest \<noteq> [] then None
               else if length gs < 8 then
                 (case ell of
                    None \<Rightarrow> None
                  | Some e \<Rightarrow> Some (Addr6 (groups_word (take e gs @ replicate (8 - length gs) 0 @ drop e gs)) zone))
               else if ell \<noteq> None then None
               else Some (Addr6 (groups_word gs) zone))))"

definition parse_addr :: "string \<Rightarrow> addr option" where
  "parse_addr s =
     (case filter (\<lambda>c. c = CHR ''.'' \<or> c = CHR '':'' \<or> c = CHR ''%'') s of
        [] \<Rightarrow> None
      | c # _ \<Rightarrow>
          if c = CHR ''.'' then map_option (\<lambda>os. Addr4 (octets_word os)) (parse_ipv4_fields s)
          else if c = CHR '':'' then parse_ipv6 s
          else None)"

subsection \<open>Address operations\<close>

text \<open>An IPv4-mapped address \<open>::ffff:a.b.c.d\<close>.\<close>

fun is_4in6 :: "addr \<Rightarrow> bool" where
  "is_4in6 (Addr6 w z) = (drop_bit 32 w = 0xffff)"
| "is_4in6 _ = False"

fun unmap :: "addr \<Rightarrow> addr" where
  "unmap (Addr6 w z) = (if drop_bit 32 w = 0xffff then Addr4 (ucast w) else Addr6 w z)"
| "unmap a = a"

fun is_4 :: "addr \<Rightarrow> bool" where
  "is_4 (Addr4 _) = True"
| "is_4 _ = False"

fun bit_len :: "addr \<Rightarrow> nat" where
  "bit_len AddrZero = 0"
| "bit_len (Addr4 _) = 32"
| "bit_len (Addr6 _ _) = 128"

fun has_zone :: "addr \<Rightarrow> bool" where
  "has_zone (Addr6 _ z) = (z \<noteq> [])"
| "has_zone _ = False"

fun without_zone :: "addr \<Rightarrow> addr" where
  "without_zone (Addr6 w z) = Addr6 w []"
| "without_zone a = a"

fun is_loopback :: "addr \<Rightarrow> bool" where
  "is_loopback AddrZero = False"
| "is_loopback (Addr4 w) = (drop_bit 24 w = 127)"
| "is_loopback (Addr6 w z) = (if drop_bit 32 w = 0xffff then drop_bit 24 (ucast w :: 32 word) = 127 else w = 1)"

fun prefix_contains :: "ip_prefix \<Rightarrow> addr \<Rightarrow> bool" where
  "prefix_contains p a =
     (case (pfx_addr p, a) of
        (Addr4 x, Addr4 y) \<Rightarrow> drop_bit (32 - pfx_bits p) (x XOR y) = 0
      | (Addr6 x _, Addr6 y z) \<Rightarrow> z = [] \<and> drop_bit (128 - pfx_bits p) (x XOR y) = 0
      | _ \<Rightarrow> False)"

text \<open>\<open>netip.ParsePrefix\<close>: no zone, no sign, no leading zero, at most three digits.\<close>

definition parse_prefix :: "string \<Rightarrow> ip_prefix option" where
  "parse_prefix s =
     (case last_index_byte s (CHR ''/'') of
        None \<Rightarrow> None
      | Some i \<Rightarrow>
          (case parse_addr (take i s) of
             None \<Rightarrow> None
           | Some a \<Rightarrow>
               let b = drop (i + 1) s in
               if has_zone a then None
               else if length b > 1 \<and> (hd b = CHR ''0'' \<or> \<not> is_digit_byte (hd b)) then None
               else (case parse_digits b of
                   None \<Rightarrow> None
                 | Some n \<Rightarrow> if n \<le> int (bit_len a) then Some \<lparr>pfx_addr = a, pfx_bits = nat n\<rparr> else None)))"

text \<open>\<open>netip.PrefixFrom\<close> for a bit length that fits, and \<open>Addr.Prefix\<close>.\<close>

definition prefix_from :: "addr \<Rightarrow> nat \<Rightarrow> ip_prefix" where
  "prefix_from a b = \<lparr>pfx_addr = without_zone a, pfx_bits = b\<rparr>"

fun addr_prefix :: "addr \<Rightarrow> nat \<Rightarrow> ip_prefix option" where
  "addr_prefix AddrZero b = Some \<lparr>pfx_addr = AddrZero, pfx_bits = 0\<rparr>"
| "addr_prefix (Addr4 w) b =
     (if b > 32 then None else Some (prefix_from (Addr4 (w AND NOT (mask (32 - b)))) b))"
| "addr_prefix (Addr6 w z) b =
     (if b > 128 then None else Some (prefix_from (Addr6 (w AND NOT (mask (128 - b))) z) b))"

subsection \<open>Printing\<close>

definition hex_digit :: "int \<Rightarrow> char" where
  "hex_digit n = char_of (if n < 10 then 48 + n else 87 + n)"

function hex_string :: "int \<Rightarrow> string" where
  "hex_string n = (if n < 16 then [hex_digit n] else hex_string (n div 16) @ [hex_digit (n mod 16)])"
  by pat_completeness auto
termination
  by (relation "measure nat") auto

declare hex_string.simps [simp del]

definition string4 :: "32 word \<Rightarrow> string" where
  "string4 w = str_join (map (\<lambda>k. int_digits (uint (drop_bit k w AND 255))) [24, 16, 8, 0]) ''.''"

definition groups_of :: "128 word \<Rightarrow> int list" where
  "groups_of w = map (\<lambda>k. uint (drop_bit (16 * k) w AND 65535)) [7, 6, 5, 4, 3, 2, 1, 0]"

text \<open>The first longest run of at least two zero groups: its start and length.\<close>

fun zero_run :: "int list \<Rightarrow> nat" where
  "zero_run [] = 0"
| "zero_run (g # gs) = (if g = 0 then Suc (zero_run gs) else 0)"

fun best_run :: "nat \<Rightarrow> nat \<times> nat \<Rightarrow> int list \<Rightarrow> nat \<times> nat" where
  "best_run i best [] = best"
| "best_run i best (g # gs) =
     (let l = zero_run (g # gs) in
      best_run (Suc i) (if l \<ge> 2 \<and> l > snd best then (i, l) else best) gs)"

definition string6 :: "128 word \<Rightarrow> string" where
  "string6 w =
     (let gs = groups_of w; (i, l) = best_run 0 (0, 0) gs in
      if l = 0 then str_join (map hex_string gs) '':''
      else str_join (map hex_string (take i gs)) '':'' @ ''::'' @ str_join (map hex_string (drop (i + l) gs)) '':'')"

fun addr_string :: "addr \<Rightarrow> string" where
  "addr_string AddrZero = ''invalid IP''"
| "addr_string (Addr4 w) = string4 w"
| "addr_string (Addr6 w z) =
     (if drop_bit 32 w = 0xffff then ''::ffff:'' @ string4 (ucast w) else string6 w)
     @ (if z = [] then [] else CHR ''%'' # z)"

definition prefix_string :: "ip_prefix \<Rightarrow> string" where
  "prefix_string p =
     (if pfx_addr p = AddrZero then ''invalid Prefix'' else addr_string (pfx_addr p) @ ''/'' @ int_digits (int (pfx_bits p)))"

text \<open>\<open>netip.ParseAddrPort\<close>: the address part must match its brackets.\<close>

definition parse_addr_port :: "string \<Rightarrow> (addr \<times> int) option" where
  "parse_addr_port s =
     (case last_index_byte s (CHR '':'') of
        None \<Rightarrow> None
      | Some i \<Rightarrow>
          let ip = take i s; port = drop (i + 1) s in
          if ip = [] \<or> port = [] then None
          else
            (let bracketed = (hd ip = CHR ''['') in
             if bracketed \<and> (length ip < 2 \<or> last ip \<noteq> CHR '']'') then None
             else
               (let inner = (if bracketed then butlast (tl ip) else ip) in
                case (parse_addr inner, parse_digits port) of
                  (Some a, Some n) \<Rightarrow>
                    if n > 65535 then None
                    else if bracketed \<and> is_4 a then None
                    else if \<not> bracketed \<and> \<not> is_4 a then None
                    else Some (a, n)
                | _ \<Rightarrow> None)))"

subsection \<open>Lemmas\<close>

lemma unmap_idem [simp]: "unmap (unmap a) = unmap a"
  by (cases a) auto

lemma unmap_not_4in6 [simp]: "\<not> is_4in6 (unmap a)"
  by (cases a) auto

lemma prefix_contains_bit_len:
  "prefix_contains p a \<Longrightarrow> bit_len (pfx_addr p) = bit_len a"
  by (auto split: addr.splits)

lemma prefix_contains_self:
  "pfx_bits p = bit_len a \<Longrightarrow> pfx_addr p = a \<Longrightarrow> a \<noteq> AddrZero \<Longrightarrow> \<not> has_zone a \<Longrightarrow> prefix_contains p a"
  by (cases a) auto

lemma prefix_contains_zero [simp]: "\<not> prefix_contains p AddrZero"
  by (auto split: addr.splits)

end
