(* ===== verification/Http.thy ===== *)
theory Http
  imports GoNetip
begin

text \<open>
  The HTTP objects the program works on: header maps, request bodies and the
  response writer with the wrapper \<open>loggingResponseWriter\<close> of
  \<open>internal/waf/middleware.go\<close>.  A request body is the bytes that can be read
  from it and whether reading fails after them.
\<close>

type_synonym header = "(string \<times> string list) list"

definition header_get :: "header \<Rightarrow> string \<Rightarrow> string" where
  "header_get h k = (case map_of h (canonical_header_key k) of Some (v # _) \<Rightarrow> v | _ \<Rightarrow> [])"

definition header_set :: "header \<Rightarrow> string \<Rightarrow> string \<Rightarrow> header" where
  "header_set h k v = assoc_put (canonical_header_key k) [v] h"

definition header_del :: "header \<Rightarrow> string \<Rightarrow> header" where
  "header_del h k = assoc_del (canonical_header_key k) h"

text \<open>\<open>url.Values.Get\<close>: the first value of a query parameter.\<close>

definition query_get :: "(string \<times> string list) list \<Rightarrow> string \<Rightarrow> string" where
  "query_get q k = (case map_of q k of Some (v # _) \<Rightarrow> v | _ \<Rightarrow> [])"

text \<open>\<open>NilBody\<close> is a nil \<open>Body\<close>, \<open>NoBody\<close> is \<open>http.NoBody\<close>.\<close>

datatype body = NilBody | NoBody | Stream string bool

text \<open>
  \<open>io.ReadAll (io.LimitReader b n)\<close>: at most \<open>n\<close> bytes; a read error shows up
  only when the limit was not reached before it.
\<close>

fun read_all_limited :: "body \<Rightarrow> int \<Rightarrow> string option" where
  "read_all_limited (Stream bs fails) n =
     (if n \<le> 0 then Some []
      else if int (length bs) \<ge> n then Some (take (nat n) bs)
      else if fails then None else Some bs)"
| "read_all_limited _ n = Some []"

subsection \<open>Response writers\<close>

record writer =
  w_header :: header
  w_code :: "int option"
  w_body :: string

definition fresh_writer :: writer where
  "fresh_writer = \<lparr>w_header = [], w_code = None, w_body = []\<rparr>"

text \<open>The wrapped \<open>net/http\<close> writer: the first final status wins, writing a body implies 200.\<close>

definition inner_write_header :: "int \<Rightarrow> writer \<Rightarrow> writer" where
  "inner_write_header c w =
     (if w_code w = None \<and> (c \<ge> 200 \<or> c = 101) then w\<lparr>w_code := Some c\<rparr> else w)"

definition inner_write :: "string \<Rightarrow> writer \<Rightarrow> writer" where
  "inner_write b w =
     (let w = (if w_code w = None then w\<lparr>w_code := Some 200\<rparr> else w) in w\<lparr>w_body := w_body w @ b\<rparr>)"

(* src: internal/waf/middleware.go:92-97 loggingResponseWriter *)
record log_writer =
  lw_inner :: writer
  lw_status :: int
  lw_size :: int
  lw_wrote_header :: bool

definition new_log_writer :: "writer \<Rightarrow> log_writer" where
  "new_log_writer w = \<lparr>lw_inner = w, lw_status = 200, lw_size = 0, lw_wrote_header = False\<rparr>"

(* src: internal/waf/middleware.go:99-106 loggingResponseWriter.WriteHeader *)
definition lw_write_header :: "int \<Rightarrow> log_writer \<Rightarrow> log_writer" where
  "lw_write_header code w =
     (let w = (if code \<ge> 200 \<or> code = 101 then w\<lparr>lw_wrote_header := True, lw_status := code\<rparr> else w)
      in w\<lparr>lw_inner := inner_write_header code (lw_inner w)\<rparr>)"

(* src: internal/waf/middleware.go:108-113 loggingResponseWriter.Write *)
definition lw_write :: "string \<Rightarrow> log_writer \<Rightarrow> log_writer" where
  "lw_write b w =
     w\<lparr>lw_wrote_header := True, lw_inner := inner_write b (lw_inner w), lw_size := lw_size w + int (length b)\<rparr>"

definition lw_set_header :: "string \<Rightarrow> string \<Rightarrow> log_writer \<Rightarrow> log_writer" where
  "lw_set_header k v w =
     w\<lparr>lw_inner := (lw_inner w)\<lparr>w_header := header_set (w_header (lw_inner w)) k v\<rparr>\<rparr>"

text \<open>\<open>http.Error\<close>: plain text, the message and a newline.\<close>

definition http_error :: "string \<Rightarrow> int \<Rightarrow> log_writer \<Rightarrow> log_writer" where
  "http_error msg code w =
     (let w = w\<lparr>lw_inner := (lw_inner w)\<lparr>w_header := header_del (w_header (lw_inner w)) ''Content-Length''\<rparr>\<rparr>;
          w = lw_set_header ''Content-Type'' ''text/plain; charset=utf-8'' w;
          w = lw_set_header ''X-Content-Type-Options'' ''nosniff'' w
      in lw_write (msg @ [CHR 0x0A]) (lw_write_header code w))"

text \<open>A JSON answer: content type, status, body.\<close>

definition json_answer :: "string \<Rightarrow> int \<Rightarrow> log_writer \<Rightarrow> log_writer" where
  "json_answer b code w = lw_write b (lw_write_header code (lw_set_header ''Content-Type'' ''application/json'' w))"

text \<open>\<open>http.Redirect\<close> to an absolute URL.\<close>

definition http_redirect :: "string \<Rightarrow> int \<Rightarrow> log_writer \<Rightarrow> log_writer" where
  "http_redirect url code w = lw_write_header code (lw_set_header ''Location'' url w)"

subsection \<open>Lemmas\<close>

lemma header_get_set [simp]:
  "header_get (header_set h k v) l = (if canonical_header_key k = canonical_header_key l then v else header_get h l)"
  by (simp add: header_get_def header_set_def)

lemma header_get_del [simp]:
  "header_get (header_del h k) l = (if canonical_header_key k = canonical_header_key l then [] else header_get h l)"
  by (simp add: header_get_def header_del_def)

lemma read_all_limited_length:
  "read_all_limited b n = Some d \<Longrightarrow> int (length d) \<le> max 0 n"
  by (cases b) (auto split: if_splits)

lemma read_all_limited_below:
  "read_all_limited (Stream bs fails) n = Some d \<Longrightarrow> int (length d) < n \<Longrightarrow> d = bs \<and> \<not> fails"
  by (auto split: if_splits)

lemmas writer_defs = lw_write_header_def lw_write_def lw_set_header_def
  inner_write_header_def inner_write_def Let_def

lemma lw_set_header_status [simp]:
  "lw_status (lw_set_header k v w) = lw_status w"
  "lw_wrote_header (lw_set_header k v w) = lw_wrote_header w"
  "lw_size (lw_set_header k v w) = lw_size w"
  "w_code (lw_inner (lw_set_header k v w)) = w_code (lw_inner w)"
  by (simp_all add: lw_set_header_def)

lemma http_error_status [simp]:
  "code \<ge> 200 \<Longrightarrow> lw_status (http_error msg code w) = code"
  "lw_wrote_header (http_error msg code w)"
  by (simp_all add: http_error_def writer_defs)

lemma json_answer_status [simp]:
  "code \<ge> 200 \<Longrightarrow> lw_status (json_answer b code w) = code"
  "lw_wrote_header (json_answer b code w)"
  by (simp_all add: json_answer_def writer_defs)

lemma http_redirect_status [simp]:
  "code \<ge> 200 \<Longrightarrow> lw_status (http_redirect u code w) = code"
  "code \<ge> 200 \<Longrightarrow> lw_wrote_header (http_redirect u code w)"
  by (simp_all add: http_redirect_def writer_defs)

text \<open>On a writer that has not answered yet the status seen by the client is the logged one.\<close>

definition unanswered :: "log_writer \<Rightarrow> bool" where
  "unanswered w = (\<not> lw_wrote_header w \<and> w_code (lw_inner w) = None)"

lemma unanswered_new [simp]: "unanswered (new_log_writer fresh_writer)"
  by (simp add: unanswered_def new_log_writer_def fresh_writer_def)

lemma unanswered_set_header [simp]: "unanswered (lw_set_header k v w) = unanswered w"
  by (simp add: unanswered_def)

lemma http_error_client_status:
  "\<lbrakk> unanswered w; code \<ge> 200 \<rbrakk> \<Longrightarrow> w_code (lw_inner (http_error msg code w)) = Some code"
  by (simp add: http_error_def writer_defs unanswered_def)

lemma json_answer_client_status:
  "\<lbrakk> unanswered w; code \<ge> 200 \<rbrakk> \<Longrightarrow> w_code (lw_inner (json_answer b code w)) = Some code"
  by (simp add: json_answer_def writer_defs unanswered_def)

end
