(* ===== verification/Config.thy ===== *)
theory Config
  imports Http Complex_Main
begin

text \<open>
  The configuration structures of \<open>internal/waf/config.go\<close>.  Regular
  expressions and Coraza engines are values of code outside the repository: a
  compiled pattern is its match and replace functions, a Coraza engine the
  functions from the calls made on a transaction to what it answers.
\<close>

record regexp =
  re_match :: "string \<Rightarrow> bool"
  re_replace :: "string \<Rightarrow> string \<Rightarrow> string"

text \<open>A matched rule of Coraza as the program reads it.\<close>

record matched_rule =
  mr_id :: int
  mr_disruptive :: bool
  mr_raw :: string

datatype tx_event =
    TxConnection string
  | TxUri string string string
  | TxHeader string string
  | TxRequestHeaders
  | TxWriteBody string
  | TxRequestBody

record coraza_waf =
  waf_interrupted :: "tx_event list \<Rightarrow> bool"
  waf_matched :: "tx_event list \<Rightarrow> matched_rule list"
  waf_interruption :: "tx_event list \<Rightarrow> int option"
  waf_write_error :: "tx_event list \<Rightarrow> bool"
  waf_body_error :: "tx_event list \<Rightarrow> bool"

(* src: internal/waf/config.go:59-62 BasicAuthCredentials *)
record basic_auth_credentials =
  ba_user :: string
  ba_password :: string

(* src: internal/waf/config.go:65-68 RateLimitPolicy *)
record rate_limit_policy =
  rl_requests_per_minute :: int
  rl_burst :: int

(* src: internal/waf/config.go:71-75 ResponseMaskingRule *)
record response_masking_rule =
  rm_pattern :: string
  rm_replacement :: string
  rm_compiled :: "regexp option"

(* src: internal/waf/config.go:78-85 GraphQLProtection *)
record graphql_protection =
  gq_enabled :: bool
  gq_paths :: "string list"
  gq_block_introspection :: bool
  gq_max_query_depth :: int
  gq_max_batched_queries :: int
  gq_max_query_bytes :: int

(* src: internal/waf/config.go:88-93 JWTValidationConfig *)
record jwt_validation_config =
  jwt_enabled :: bool
  jwks_endpoint :: string
  jwt_issuer :: string
  jwt_audience :: string

(* src: internal/waf/config.go:97-101 HealthCheckConfig *)
record health_check_config =
  hc_interval :: duration
  hc_timeout :: duration
  hc_path :: string

(* src: internal/waf/config.go:104-119 LLMProtectionConfig *)
record llm_protection_config =
  llm_enabled :: bool
  llm_mode :: string
  llm_action :: string
  llm_threshold :: real
  llm_fail_mode :: string
  llm_timeout :: duration
  llm_max_body_bytes :: int
  llm_max_text_bytes :: int
  llm_sidecar_max_batch :: int
  llm_sidecar_url :: string
  llm_sidecar_token :: string
  llm_sidecar_token_env :: string
  llm_inspect_paths :: "string list"
  llm_inspect_json_fields :: "string list"

(* src: internal/waf/config.go:140-145 SecurityPolicy.CircuitBreaker *)
record circuit_breaker_config =
  cb_enabled :: bool
  cb_threshold :: int
  cb_cooldown :: duration
  cb_failure_status_codes :: "int list"

(* src: internal/waf/config.go:122-146 SecurityPolicy *)
record security_policy =
  sp_waf_enabled :: "bool option"
  sp_audit_mode :: bool
  sp_paranoia_level :: int
  sp_crowdsec_enabled :: "bool option"
  sp_geoip_enabled :: "bool option"
  sp_blocked_countries :: "string list"
  sp_include_rule_sets :: "string list"
  sp_custom_rules :: string
  sp_block_page_url :: string
  sp_block_page_path :: string
  sp_jwt :: jwt_validation_config
  sp_dev_bypass_secret :: string
  sp_basic_auth :: "basic_auth_credentials list"
  sp_rate_limit :: rate_limit_policy
  sp_response_masking :: "response_masking_rule list"
  sp_graphql :: graphql_protection
  sp_llm :: llm_protection_config
  sp_circuit_breaker :: circuit_breaker_config

(* src: internal/waf/config.go:149-152 Upstream *)
record upstream_config =
  uc_url :: string
  uc_response_header_timeout :: duration

(* src: internal/waf/config.go:155-160 HeaderTransform *)
record header_transform =
  ht_inject_request :: "(string \<times> string) list"
  ht_strip_request :: "string list"
  ht_inject_response :: "(string \<times> string) list"
  ht_strip_response :: "string list"

(* src: internal/waf/config.go:163-169 Tenant *)
record tenant =
  tn_upstreams :: "upstream_config list"
  tn_upstream_insecure :: "bool option"
  tn_health_check :: health_check_config
  tn_header_transform :: header_transform
  tn_security :: security_policy

(* src: internal/waf/config.go:263-267 Entry *)
record entry =
  en_waf :: "coraza_waf option"
  en_tenant :: tenant
  en_block_page :: string

subsection \<open>Zero values\<close>

definition zero_rate_limit :: rate_limit_policy where
  "zero_rate_limit = \<lparr>rl_requests_per_minute = 0, rl_burst = 0\<rparr>"

definition zero_graphql :: graphql_protection where
  "zero_graphql = \<lparr>gq_enabled = False, gq_paths = [], gq_block_introspection = False,
     gq_max_query_depth = 0, gq_max_batched_queries = 0, gq_max_query_bytes = 0\<rparr>"

definition zero_jwt :: jwt_validation_config where
  "zero_jwt = \<lparr>jwt_enabled = False, jwks_endpoint = [], jwt_issuer = [], jwt_audience = []\<rparr>"

definition zero_llm :: llm_protection_config where
  "zero_llm = \<lparr>llm_enabled = False, llm_mode = [], llm_action = [], llm_threshold = 0,
     llm_fail_mode = [], llm_timeout = 0, llm_max_body_bytes = 0, llm_max_text_bytes = 0,
     llm_sidecar_max_batch = 0, llm_sidecar_url = [], llm_sidecar_token = [],
     llm_sidecar_token_env = [], llm_inspect_paths = [], llm_inspect_json_fields = []\<rparr>"

definition zero_circuit_breaker :: circuit_breaker_config where
  "zero_circuit_breaker = \<lparr>cb_enabled = False, cb_threshold = 0, cb_cooldown = 0, cb_failure_status_codes = []\<rparr>"

definition zero_security :: security_policy where
  "zero_security = \<lparr>sp_waf_enabled = None, sp_audit_mode = False, sp_paranoia_level = 0,
     sp_crowdsec_enabled = None, sp_geoip_enabled = None, sp_blocked_countries = [],
     sp_include_rule_sets = [], sp_custom_rules = [], sp_block_page_url = [],
     sp_block_page_path = [], sp_jwt = zero_jwt, sp_dev_bypass_secret = [], sp_basic_auth = [],
     sp_rate_limit = zero_rate_limit, sp_response_masking = [], sp_graphql = zero_graphql,
     sp_llm = zero_llm, sp_circuit_breaker = zero_circuit_breaker\<rparr>"

definition zero_tenant :: tenant where
  "zero_tenant = \<lparr>tn_upstreams = [], tn_upstream_insecure = None,
     tn_health_check = \<lparr>hc_interval = 0, hc_timeout = 0, hc_path = []\<rparr>,
     tn_header_transform = \<lparr>ht_inject_request = [], ht_strip_request = [],
       ht_inject_response = [], ht_strip_response = []\<rparr>,
     tn_security = zero_security\<rparr>"

definition zero_entry :: entry where
  "zero_entry = \<lparr>en_waf = None, en_tenant = zero_tenant, en_block_page = []\<rparr>"

subsection \<open>Constants of the package\<close>

(* src: internal/waf/config.go:39 defaultRequestBodyCap *)
definition default_request_body_cap :: int where
  "default_request_body_cap = 1048576"

(* src: internal/waf/config.go:42 defaultUpstreamMaxIdleConnsPerHost *)
definition default_upstream_max_idle_conns_per_host :: int where
  "default_upstream_max_idle_conns_per_host = 64"

(* src: internal/waf/config.go:43 defaultCrowdSecCacheTTL *)
definition default_crowdsec_cache_ttl :: duration where
  "default_crowdsec_cache_ttl = 30 * second"

(* src: internal/waf/config.go:44 defaultHealthCheckInterval *)
definition default_health_check_interval :: duration where
  "default_health_check_interval = 10 * second"

(* src: internal/waf/config.go:45 defaultHealthCheckTimeout *)
definition default_health_check_timeout :: duration where
  "default_health_check_timeout = 5 * second"

(* src: internal/waf/config.go:46 minDevBypassSecretBytes *)
definition min_dev_bypass_secret_bytes :: int where
  "min_dev_bypass_secret_bytes = 32"

text \<open>A pointer-to-bool option that is set and true.\<close>

definition opt_true :: "bool option \<Rightarrow> bool" where
  "opt_true b = (b = Some True)"

end
