(* ===== verification/Registry.thy ===== *)
theory Registry
  imports Config "HOL-Library.List_Lexorder" "HOL-Library.Char_ord" "HOL-Library.Product_Lexorder"
begin

text \<open>
  The tenant registry of \<open>internal/waf/config.go\<close>: host normalisation, the
  lookup of a tenant by exact or wildcard host (with the prepared wildcard
  index and with the fallback scan), and the IP sets.  The Go map \<open>mapping\<close> is
  an association list; its order is the order in which one \<open>range\<close> loop visits
  it.
\<close>

(* src: internal/waf/config.go:269-272 wildcardDomain *)
record wildcard_domain =
  wd_domain :: string
  wd_suffix :: string

(* src: internal/waf/config.go:278-288 SafeWAFRegistry *)
record registry =
  rg_mapping :: "(string \<times> entry) list"
  rg_wildcards :: "wildcard_domain list option"
  rg_waf_cache :: "(string \<times> coraza_waf) list"
  rg_domain_manager :: bool
  rg_acme_enabled :: "bool option"

(* src: internal/waf/config.go:291-295 NewWAFRegistry *)
definition new_waf_registry :: registry where
  "new_waf_registry = \<lparr>rg_mapping = [], rg_wildcards = None, rg_waf_cache = [],
     rg_domain_manager = False, rg_acme_enabled = None\<rparr>"

(* src: internal/waf/config.go:299-303 SafeWAFRegistry.SetDomainManager *)
definition set_domain_manager :: "registry \<Rightarrow> registry" where
  "set_domain_manager r = r\<lparr>rg_domain_manager := True\<rparr>"

(* src: internal/waf/config.go:722-730 normalizeHost *)
definition normalize_host :: "string \<Rightarrow> string" where
  "normalize_host host =
     (let n = trim_space (to_lower host);
          n = (case split_host_port n of
                 Some (h, _) \<Rightarrow> h
               | None \<Rightarrow> if has_prefix n ''['' \<and> has_suffix n '']'' then take (length n - 2) (drop 1 n) else n)
      in trim_suffix n ''.'')"

(* src: internal/waf/config.go:678-693 SafeWAFRegistry.Get (fallback scan) *)
fun scan_wildcards :: "string \<Rightarrow> (entry \<times> string \<times> nat) \<Rightarrow> (string \<times> entry) list \<Rightarrow> entry \<times> string \<times> nat" where
  "scan_wildcards host best [] = best"
| "scan_wildcards host best ((domain, e) # m) =
     (if has_prefix domain ''*.'' \<and> has_suffix host (drop 1 domain) \<and> length (drop 1 domain) > snd (snd best)
      then scan_wildcards host (e, domain, length (drop 1 domain)) m
      else scan_wildcards host best m)"

(* src: internal/waf/config.go:669-676 SafeWAFRegistry.Get (wildcard index) *)
fun first_wildcard :: "string \<Rightarrow> wildcard_domain list \<Rightarrow> string option" where
  "first_wildcard host [] = None"
| "first_wildcard host (w # ws) =
     (if has_suffix host (wd_suffix w) then Some (wd_domain w) else first_wildcard host ws)"

(* src: internal/waf/config.go:657-700 SafeWAFRegistry.Get *)
definition registry_get :: "registry \<Rightarrow> string \<Rightarrow> (entry \<times> string) option" where
  "registry_get r host0 =
     (let host = normalize_host host0 in
      case map_of (rg_mapping r) host of
        Some e \<Rightarrow> Some (e, host)
      | None \<Rightarrow>
          (case rg_wildcards r of
             Some ws \<Rightarrow>
               (case first_wildcard host ws of
                  None \<Rightarrow> None
                | Some d \<Rightarrow> Some (case map_of (rg_mapping r) d of Some e \<Rightarrow> e | None \<Rightarrow> zero_entry, d))
           | None \<Rightarrow>
               (let (e, d, n) = scan_wildcards host (zero_entry, [], 0) (rg_mapping r)
                in if d \<noteq> [] then Some (e, d) else None)))"

(* src: internal/waf/config.go:306-309 SafeWAFRegistry.HasTenant *)
definition has_tenant :: "registry \<Rightarrow> string \<Rightarrow> bool" where
  "has_tenant r host = (registry_get r host \<noteq> None)"

(* src: internal/waf/config.go:312-322 SafeWAFRegistry.GetDomains *)
definition get_domains :: "registry \<Rightarrow> string list" where
  "get_domains r = sort (map fst (rg_mapping r))"

(* src: internal/waf/config.go:704-718 buildWildcardIndex *)
definition build_wildcard_index :: "(string \<times> entry) list \<Rightarrow> wildcard_domain list" where
  "build_wildcard_index m =
     sort_key (\<lambda>w. (- int (length (wd_suffix w)), wd_domain w))
       (map (\<lambda>(d, e). \<lparr>wd_domain = d, wd_suffix = drop 1 d\<rparr>)
         (filter (\<lambda>(d, e). has_prefix d ''*.'') m))"

(* src: internal/waf/config.go:635-654 parseIPSets *)
definition parse_ip_sets :: "string list \<Rightarrow> ip_prefix list option" where
  "parse_ip_sets cidrs =
     (if cidrs = [] then None
      else Some (List.map_filter
        (\<lambda>c. case parse_prefix c of
               Some p \<Rightarrow> Some p
             | None \<Rightarrow> (case parse_addr c of
                          Some a \<Rightarrow> Some (prefix_from a (bit_len a))
                        | None \<Rightarrow> None)) cidrs))"

subsection \<open>What a lookup has to return\<close>

text \<open>
  The contract of a lookup: the exact host when it is configured, otherwise the
  configured wildcard with the longest suffix of the host.
\<close>

definition wildcard_match :: "string \<Rightarrow> string \<Rightarrow> bool" where
  "wildcard_match host d = (has_prefix d ''*.'' \<and> has_suffix host (drop 1 d))"

definition most_specific :: "(string \<times> entry) list \<Rightarrow> string \<Rightarrow> string \<Rightarrow> bool" where
  "most_specific m host d =
     (d \<in> fst ` set m \<and>
      (d = host \<or>
       (host \<notin> fst ` set m \<and> wildcard_match host d \<and>
        (\<forall>d' \<in> fst ` set m. wildcard_match host d' \<longrightarrow> length d' \<le> length d))))"

definition index_ok :: "registry \<Rightarrow> bool" where
  "index_ok r = (wf_assoc (rg_mapping r) \<and>
     (rg_wildcards r = None \<or> rg_wildcards r = Some (build_wildcard_index (rg_mapping r))))"

subsection \<open>Lemmas\<close>

lemma wildcard_match_length: "wildcard_match host d \<Longrightarrow> 2 \<le> length d"
  by (auto simp: wildcard_match_def has_prefix_iff)

lemma wildcard_match_unique:
  assumes "wildcard_match host d" "wildcard_match host d'" "length d = length d'"
  shows "d = d'"
proof -
  have "drop 1 d = drop 1 d'"
    using assms by (auto simp: wildcard_match_def has_suffix_def)
  moreover have "take 1 d = take 1 d'"
    using assms by (auto simp: wildcard_match_def has_prefix_iff)
  ultimately show ?thesis
    by (metis append_take_drop_id)
qed

text \<open>The scan keeps the longest match seen so far, whatever the order of the map.\<close>

lemma scan_wildcards_result:
  "scan_wildcards host (e0, d0, n0) m = (e, d, n) \<Longrightarrow>
   (d = d0 \<and> e = e0 \<and> n = n0 \<and> (\<forall>(d', e') \<in> set m. wildcard_match host d' \<longrightarrow> length d' - 1 \<le> n0)) \<or>
   ((d, e) \<in> set m \<and> wildcard_match host d \<and> n = length d - 1 \<and> n > n0 \<and>
    (\<forall>(d', e') \<in> set m. wildcard_match host d' \<longrightarrow> length d' \<le> length d))"
proof (induction m arbitrary: e0 d0 n0)
  case Nil
  then show ?case by simp
next
  case (Cons p m)
  obtain dom e1 where p: "p = (dom, e1)" by (cases p)
  show ?case
  proof (cases "wildcard_match host dom \<and> length dom - 1 > n0")
    case True
    then have "scan_wildcards host (e1, dom, length dom - 1) m = (e, d, n)"
      using Cons.prems by (simp add: p wildcard_match_def)
    from Cons.IH [OF this] True show ?thesis
      by (auto simp: p)
  next
    case False
    then have "scan_wildcards host (e0, d0, n0) m = (e, d, n)"
      using Cons.prems by (auto simp: p wildcard_match_def split: if_splits)
    from Cons.IH [OF this] False show ?thesis
      by (auto simp: p)
  qed
qed

lemma first_wildcard_Some:
  "first_wildcard host ws = Some d \<Longrightarrow>
   \<exists>ps w qs. ws = ps @ w # qs \<and> wd_domain w = d \<and> has_suffix host (wd_suffix w) \<and>
     (\<forall>w' \<in> set ps. \<not> has_suffix host (wd_suffix w'))"
proof (induction ws)
  case (Cons w ws)
  show ?case
  proof (cases "has_suffix host (wd_suffix w)")
    case True
    with Cons.prems show ?thesis by (intro exI [of _ "[]"]) auto
  next
    case False
    with Cons obtain ps w' qs where "ws = ps @ w' # qs" "wd_domain w' = d"
      "has_suffix host (wd_suffix w')" "\<forall>v \<in> set ps. \<not> has_suffix host (wd_suffix v)"
      by auto
    with False show ?thesis by (intro exI [of _ "w # ps"]) auto
  qed
qed simp

lemma first_wildcard_None:
  "first_wildcard host ws = None \<longleftrightarrow> (\<forall>w \<in> set ws. \<not> has_suffix host (wd_suffix w))"
  by (induction ws) auto

lemma set_build_wildcard_index:
  "set (build_wildcard_index m) =
   (\<lambda>d. \<lparr>wd_domain = d, wd_suffix = drop 1 d\<rparr>) ` {d \<in> fst ` set m. has_prefix d ''*.''}"
  by (force simp: build_wildcard_index_def image_iff)

lemma build_wildcard_index_length_sorted:
  "sorted_wrt (\<lambda>v w. length (wd_suffix w) \<le> length (wd_suffix v)) (build_wildcard_index m)"
proof -
  have "sorted (map (\<lambda>w. (- int (length (wd_suffix w)), wd_domain w)) (build_wildcard_index m))"
    by (simp add: build_wildcard_index_def)
  then show ?thesis
    unfolding sorted_map by (rule sorted_wrt_mono_rel [rotated]) (auto simp: less_eq_prod_def)
qed

lemma first_wildcard_index:
  assumes "first_wildcard host (build_wildcard_index m) = Some d"
  shows "d \<in> fst ` set m \<and> wildcard_match host d \<and>
    (\<forall>d' \<in> fst ` set m. wildcard_match host d' \<longrightarrow> length d' \<le> length d)"
proof -
  let ?ix = "build_wildcard_index m"
  obtain ps w qs where ix: "?ix = ps @ w # qs" and d: "wd_domain w = d"
    and m: "has_suffix host (wd_suffix w)" and ps: "\<forall>w' \<in> set ps. \<not> has_suffix host (wd_suffix w')"
    using first_wildcard_Some [OF assms] by blast
  have "w \<in> set ?ix" by (simp add: ix)
  then have w: "d \<in> fst ` set m" "has_prefix d ''*.''" "wd_suffix w = drop 1 d"
    unfolding set_build_wildcard_index using d by auto
  have "length d' \<le> length d" if d': "d' \<in> fst ` set m" "wildcard_match host d'" for d'
  proof -
    let ?v = "\<lparr>wd_domain = d', wd_suffix = drop 1 d'\<rparr>"
    have "?v \<in> set ?ix"
      using d' by (auto simp: set_build_wildcard_index wildcard_match_def)
    moreover have "?v \<notin> set ps"
      using ps d'(2) by (auto simp: wildcard_match_def)
    ultimately have "?v = w \<or> ?v \<in> set qs" by (auto simp: ix)
    then have "length (wd_suffix ?v) \<le> length (wd_suffix w)"
      using build_wildcard_index_length_sorted [of m] by (auto simp: ix sorted_wrt_append)
    then show ?thesis
      using w(3) wildcard_match_length [OF d'(2)] by auto
  qed
  then show ?thesis
    using w m by (auto simp: wildcard_match_def)
qed

lemma first_wildcard_index_None:
  "first_wildcard host (build_wildcard_index m) = None \<longleftrightarrow>
   (\<forall>d \<in> fst ` set m. \<not> wildcard_match host d)"
  by (auto simp: first_wildcard_None set_build_wildcard_index wildcard_match_def)

text \<open>Both ways of finding a wildcard satisfy the contract.\<close>

lemma scan_most_specific:
  assumes "host \<notin> fst ` set m" and "scan_wildcards host (zero_entry, [], 0) m = (e, d, n)"
  shows "if d \<noteq> [] then most_specific m host d \<and> (d, e) \<in> set m
         else \<forall>d' \<in> fst ` set m. \<not> wildcard_match host d'"
proof -
  consider (none) "d = []" "\<forall>(d', e') \<in> set m. wildcard_match host d' \<longrightarrow> length d' - 1 \<le> 0"
    | (hit) "(d, e) \<in> set m" "wildcard_match host d"
        "\<forall>(d', e') \<in> set m. wildcard_match host d' \<longrightarrow> length d' \<le> length d"
    using scan_wildcards_result [OF assms(2)] by blast
  then show ?thesis
  proof cases
    case none
    have "\<not> wildcard_match host d'" if "d' \<in> fst ` set m" for d'
      using none(2) that wildcard_match_length [of host d'] by auto
    with none(1) show ?thesis by simp
  next
    case hit
    then have "d \<noteq> []" using wildcard_match_length by fastforce
    moreover have "most_specific m host d"
      using hit assms(1) by (force simp: most_specific_def)
    ultimately show ?thesis using hit(1) by simp
  qed
qed

text \<open>The contract determines the domain, so the order of the map is not observable.\<close>

lemma most_specific_unique:
  assumes "most_specific m host d" "most_specific m host d'"
  shows "d = d'"
proof (cases "host \<in> fst ` set m")
  case True
  with assms show ?thesis by (simp add: most_specific_def)
next
  case False
  with assms have "wildcard_match host d" "wildcard_match host d'" "length d = length d'"
    unfolding most_specific_def by (blast, blast, blast intro: le_antisym)
  then show ?thesis by (rule wildcard_match_unique)
qed

lemma finite_longest:
  fixes W :: "string set"
  assumes "finite W" "W \<noteq> {}"
  shows "\<exists>d \<in> W. \<forall>d' \<in> W. length d' \<le> length d"
proof -
  from assms have "Max (length ` W) \<in> length ` W" by (simp add: Max_in)
  then obtain d where "d \<in> W" "length d = Max (length ` W)" by (metis imageE)
  moreover have "\<forall>d' \<in> W. length d' \<le> Max (length ` W)"
    using assms(1) by simp
  ultimately show ?thesis by metis
qed

lemma registry_get_sound:
  assumes ok: "index_ok r" and get: "registry_get r host = Some (e, d)"
  shows "most_specific (rg_mapping r) (normalize_host host) d \<and> map_of (rg_mapping r) d = Some e"
proof -
  let ?m = "rg_mapping r" and ?h = "normalize_host host"
  have wf: "wf_assoc ?m" using ok by (simp add: index_ok_def)
  show ?thesis
  proof (cases "map_of ?m ?h")
    case (Some e')
    with get have "e = e'" "d = ?h" by (auto simp: registry_get_def Let_def)
    moreover have "?h \<in> fst ` set ?m" using Some by (metis map_of_None_iff option.distinct(1))
    ultimately show ?thesis using Some by (simp add: most_specific_def)
  next
    case None
    then have nin: "?h \<notin> fst ` set ?m" by (simp add: map_of_None_iff)
    show ?thesis
    proof (cases "rg_wildcards r")
      case (Some ws)
      with ok have "ws = build_wildcard_index ?m" by (simp add: index_ok_def)
      with get None Some have fw: "first_wildcard ?h (build_wildcard_index ?m) = Some d"
        and e: "e = (case map_of ?m d of Some e \<Rightarrow> e | None \<Rightarrow> zero_entry)"
        by (auto simp: registry_get_def Let_def split: option.splits)
      from first_wildcard_index [OF fw] have "most_specific ?m ?h d"
        using nin by (simp add: most_specific_def)
      moreover have "map_of ?m d \<noteq> None"
        using first_wildcard_index [OF fw] by (simp add: map_of_None_iff)
      ultimately show ?thesis using e by auto
    next
      case N: None
      obtain e' d' n where sc: "scan_wildcards ?h (zero_entry, [], 0) ?m = (e', d', n)"
        by (metis prod_cases3)
      with get None N have "d' \<noteq> []" "e = e'" "d = d'"
        by (auto simp: registry_get_def Let_def split: if_splits)
      with scan_most_specific [OF nin sc] show ?thesis
        using wf by (simp add: wf_assoc_map_of_iff)
    qed
  qed
qed

lemma registry_get_None:
  assumes ok: "index_ok r"
  shows "registry_get r host = None \<longleftrightarrow> (\<forall>d. \<not> most_specific (rg_mapping r) (normalize_host host) d)"
proof -
  let ?m = "rg_mapping r" and ?h = "normalize_host host"
  have *: "(\<exists>d. most_specific ?m ?h d) \<longleftrightarrow> (\<exists>d \<in> fst ` set ?m. d = ?h \<or> wildcard_match ?h d)"
    (is "?l \<longleftrightarrow> ?r")
  proof
    show "?l \<Longrightarrow> ?r" unfolding most_specific_def by blast
    assume r: ?r
    show ?l
    proof (cases "?h \<in> fst ` set ?m")
      case True
      then show ?thesis unfolding most_specific_def by blast
    next
      case False
      let ?W = "{d \<in> fst ` set ?m. wildcard_match ?h d}"
      have "finite ?W" by simp
      moreover obtain d0 where "d0 \<in> fst ` set ?m" "d0 = ?h \<or> wildcard_match ?h d0"
        using r by (rule bexE)
      then have "d0 \<in> ?W" using False by auto
      then have "?W \<noteq> {}" by (rule ex_in_conv [THEN iffD1, OF exI])
      ultimately obtain d where "d \<in> ?W" "\<forall>d' \<in> ?W. length d' \<le> length d"
        using finite_longest by blast
      then show ?thesis using False by (auto simp: most_specific_def)
    qed
  qed
  show ?thesis
  proof (cases "map_of ?m ?h")
    case (Some e)
    then have "registry_get r host \<noteq> None" by (simp add: registry_get_def Let_def)
    moreover have "?h \<in> fst ` set ?m" using Some by (metis map_of_None_iff option.distinct(1))
    ultimately show ?thesis using * by blast
  next
    case None
    then have nin: "?h \<notin> fst ` set ?m" by (simp add: map_of_None_iff)
    show ?thesis
    proof (cases "rg_wildcards r")
      case (Some ws)
      with ok have "ws = build_wildcard_index ?m" by (simp add: index_ok_def)
      with None Some have "registry_get r host = None \<longleftrightarrow> first_wildcard ?h (build_wildcard_index ?m) = None"
        by (auto simp: registry_get_def Let_def split: option.splits)
      then show ?thesis using * nin unfolding first_wildcard_index_None by metis
    next
      case N: None
      obtain e' d' n where sc: "scan_wildcards ?h (zero_entry, [], 0) ?m = (e', d', n)"
        by (metis prod_cases3)
      with None N have "registry_get r host = None \<longleftrightarrow> d' = []"
        by (auto simp: registry_get_def Let_def)
      moreover have "d' = [] \<longleftrightarrow> \<not> (\<exists>d. most_specific ?m ?h d)"
      proof (cases "d' = []")
        case True
        then have "\<forall>d' \<in> fst ` set ?m. \<not> wildcard_match ?h d'"
          using scan_most_specific [OF nin sc] by simp
        then show ?thesis using True nin * by metis
      next
        case False
        then show ?thesis using scan_most_specific [OF nin sc] by auto
      qed
      ultimately show ?thesis by simp
    qed
  qed
qed


lemma most_specific_perm:
  "mset m' = mset m \<Longrightarrow> most_specific m' host d = most_specific m host d"
  unfolding most_specific_def by (metis set_mset_mset)

lemma map_of_perm:
  assumes "wf_assoc m" "mset m' = mset m"
  shows "map_of m' = map_of m"
proof -
  have "mset (map fst m') = mset (map fst m)" using assms(2) by (metis mset_map)
  then have "distinct (map fst m')" using assms(1) by (metis mset_eq_imp_distinct_iff wf_assoc_def)
  with assms show ?thesis
    by (metis map_of_inject_set mset_eq_setD wf_assoc_def)
qed

text \<open>A host that carries a port is looked up like the bare host.\<close>

lemma index_byte_None: "index_byte s c = None \<longleftrightarrow> c \<notin> set s"
  by (induction s) auto

lemma index_byte_append:
  "c \<notin> set s \<Longrightarrow> index_byte (s @ c # t) c = Some (length s)"
  by (induction s) auto

lemma last_index_byte_append:
  "c \<notin> set t \<Longrightarrow> last_index_byte (s @ c # t) c = Some (length s)"
  using index_byte_append [of c "rev t" "rev s"] by (simp add: last_index_byte_def)

lemma last_index_byte_None: "last_index_byte s c = None \<longleftrightarrow> c \<notin> set s"
  by (simp add: last_index_byte_def index_byte_None)

definition plain_host :: "string \<Rightarrow> bool" where
  "plain_host h = (h \<noteq> [] \<and> list_all (\<lambda>c. \<not> is_space_byte c \<and> c \<notin> set '':[]'') h)"

lemma lower_byte_special: "lower_byte c \<in> set '':[]'' \<longleftrightarrow> c \<in> set '':[]''"
proof (cases "is_upper_byte c")
  case True
  then have c: "byte_val (lower_byte c) = byte_val c + 32" "65 \<le> byte_val c" "byte_val c \<le> 90"
    by (auto simp: lower_byte_def is_upper_byte_def)
  have "d \<noteq> CHR '':'' \<and> d \<noteq> CHR ''['' \<and> d \<noteq> CHR '']''" if "97 \<le> byte_val d" for d
    using that by (auto simp: byte_val_def)
  moreover have "c \<noteq> CHR '':'' \<and> c \<noteq> CHR ''['' \<and> c \<noteq> CHR '']''"
    using c(2,3) by (auto simp: byte_val_def)
  ultimately show ?thesis using c by auto
next
  case False
  then show ?thesis by (simp add: lower_byte_def)
qed

lemma lower_byte_space: "is_space_byte (lower_byte c) \<longleftrightarrow> is_space_byte c"
proof (cases "is_upper_byte c")
  case True
  then have "byte_val (lower_byte c) = byte_val c + 32" "65 \<le> byte_val c"
    by (auto simp: lower_byte_def is_upper_byte_def)
  then show ?thesis by (simp add: is_space_byte_def)
qed (simp add: lower_byte_def)

lemma plain_host_to_lower: "plain_host h \<Longrightarrow> plain_host (to_lower h)"
  unfolding plain_host_def to_lower_def list_all_iff
  using lower_byte_special lower_byte_space by auto

lemma dropWhile_none: "\<forall>x \<in> set xs. \<not> P x \<Longrightarrow> dropWhile P xs = xs"
  by (cases xs) auto

lemma trim_space_none: "\<forall>c \<in> set s. \<not> is_space_byte c \<Longrightarrow> trim_space s = s"
  by (simp add: trim_space_def dropWhile_none)

lemma split_host_port_plain:
  assumes "plain_host h" "plain_host p"
  shows "split_host_port (h @ '':'' @ p) = Some (h, p)"
proof -
  have "last_index_byte (h @ CHR '':'' # p) (CHR '':'') = Some (length h)"
    using assms(2) by (intro last_index_byte_append) (auto simp: plain_host_def list_all_iff)
  moreover have "hd (h @ CHR '':'' # p) \<noteq> CHR ''[''"
    using assms(1) by (cases h) (auto simp: plain_host_def)
  ultimately show ?thesis
    using assms by (auto simp: split_host_port_def plain_host_def list_all_iff)
qed

lemma split_host_port_no_colon: "CHR '':'' \<notin> set h \<Longrightarrow> split_host_port h = None"
  by (simp add: split_host_port_def last_index_byte_None [THEN iffD2])

lemma has_prefix_member: "has_prefix s [c] \<Longrightarrow> c \<in> set s"
  by (cases s) (auto simp: has_prefix_def)

lemma normalize_plain_host:
  assumes "plain_host h"
  shows "normalize_host h = trim_suffix (to_lower h) ''.''"
proof -
  have l: "plain_host (to_lower h)" using assms by (rule plain_host_to_lower)
  then have "trim_space (to_lower h) = to_lower h"
    by (intro trim_space_none) (simp add: plain_host_def list_all_iff)
  moreover have "split_host_port (to_lower h) = None"
    using l by (intro split_host_port_no_colon) (auto simp: plain_host_def list_all_iff)
  moreover have "\<not> has_prefix (to_lower h) ''[''"
    using l has_prefix_member [of "to_lower h" "CHR ''[''"] unfolding plain_host_def list_all_iff by auto
  ultimately show ?thesis by (simp add: normalize_host_def Let_def)
qed

lemma normalize_host_with_port:
  assumes "plain_host h" "plain_host p"
  shows "normalize_host (h @ '':'' @ p) = trim_suffix (to_lower h) ''.''"
proof -
  have l: "plain_host (to_lower h)" "plain_host (to_lower p)"
    using assms by (auto intro: plain_host_to_lower)
  have "to_lower (h @ '':'' @ p) = to_lower h @ '':'' @ to_lower p"
    by (simp add: to_lower_def lower_byte_def is_upper_byte_def byte_val_def)
  moreover have "trim_space (to_lower h @ '':'' @ to_lower p) = to_lower h @ '':'' @ to_lower p"
    using l by (intro trim_space_none) (auto simp: plain_host_def list_all_iff is_space_byte_def byte_val_def)
  moreover have "split_host_port (to_lower h @ '':'' @ to_lower p) = Some (to_lower h, to_lower p)"
    using l by (rule split_host_port_plain)
  ultimately show ?thesis by (simp add: normalize_host_def Let_def)
qed

subsection \<open>Properties\<close>

text \<open>C4: a registry lookup returns exactly the most specific configured tenant: the
  normalised host itself when it is configured, otherwise the wildcard tenant with the
  longest suffix of the host, together with the entry stored for it; it fails exactly
  when no tenant applies.\<close>

theorem registry_get_most_specific:
  assumes "index_ok r"
  shows "(registry_get r host = Some (e, d) \<longleftrightarrow>
            most_specific (rg_mapping r) (normalize_host host) d \<and> map_of (rg_mapping r) d = Some e) \<and>
         (registry_get r host = None \<longleftrightarrow>
            (\<forall>d. \<not> most_specific (rg_mapping r) (normalize_host host) d))"
proof
  show "registry_get r host = Some (e, d) \<longleftrightarrow>
      most_specific (rg_mapping r) (normalize_host host) d \<and> map_of (rg_mapping r) d = Some e"
    (is "?l \<longleftrightarrow> ?r")
  proof
    show "?l \<Longrightarrow> ?r" using registry_get_sound [OF assms] by blast
    assume r: ?r
    then have "registry_get r host \<noteq> None" using registry_get_None [OF assms] by blast
    then obtain e' d' where g: "registry_get r host = Some (e', d')" by auto
    from registry_get_sound [OF assms g] r have "d' = d" "e' = e"
      by (auto dest: most_specific_unique)
    with g show ?l by simp
  qed
  show "registry_get r host = None \<longleftrightarrow> (\<forall>d. \<not> most_specific (rg_mapping r) (normalize_host host) d)"
    by (rule registry_get_None [OF assms])
qed

definition sample_registry :: registry where
  "sample_registry =
     (let m = [(''*.com'', zero_entry), (''a.com'', zero_entry), (''*.b.com'', zero_entry\<lparr>en_block_page := ''x''\<rparr>)]
      in \<lparr>rg_mapping = m, rg_wildcards = Some (build_wildcard_index m), rg_waf_cache = [],
          rg_domain_manager = False, rg_acme_enabled = None\<rparr>)"

lemma sample_registry_ok: "index_ok sample_registry"
  by (simp add: index_ok_def sample_registry_def Let_def wf_assoc_def)

theorem registry_get_most_specific_witness:
  "\<exists>e. registry_get sample_registry ''X.b.com:443'' = Some (e, ''*.b.com'') \<and>
       most_specific (rg_mapping sample_registry) (normalize_host ''X.b.com:443'') ''*.b.com''"
proof -
  have "map_option snd (registry_get sample_registry ''X.b.com:443'') = Some ''*.b.com''"
    by code_simp
  then obtain e where "registry_get sample_registry ''X.b.com:443'' = Some (e, ''*.b.com'')"
    by auto
  then show ?thesis
    using registry_get_most_specific [OF sample_registry_ok, of "''X.b.com:443''" e "''*.b.com''"]
    by blast
qed

text \<open>C5: the prepared wildcard index and the fallback scan give the same answer, and neither
  depends on the order in which the map of tenants is iterated.\<close>

theorem wildcard_index_equals_scan:
  assumes "wf_assoc m" and "mset m' = mset m"
  shows "registry_get (r\<lparr>rg_mapping := m', rg_wildcards := Some (build_wildcard_index m')\<rparr>) host =
         registry_get (r\<lparr>rg_mapping := m, rg_wildcards := None\<rparr>) host"
proof -
  let ?r1 = "r\<lparr>rg_mapping := m', rg_wildcards := Some (build_wildcard_index m')\<rparr>"
  let ?r2 = "r\<lparr>rg_mapping := m, rg_wildcards := None\<rparr>"
  have "wf_assoc m'"
    using assms by (metis mset_eq_imp_distinct_iff mset_map wf_assoc_def)
  then have ok: "index_ok ?r1" "index_ok ?r2"
    using assms(1) by (simp_all add: index_ok_def)
  show ?thesis
  proof (cases "registry_get ?r2 host")
    case None
    then have "registry_get ?r1 host = None"
      unfolding registry_get_None [OF ok(1)] registry_get_None [OF ok(2)]
      using most_specific_perm [OF assms(2)] by simp
    with None show ?thesis by simp
  next
    case (Some p)
    obtain e d where p: "p = (e, d)" by (cases p)
    have "registry_get ?r1 host \<noteq> None"
      using registry_get_sound [OF ok(2) Some [unfolded p]] registry_get_None [OF ok(1)]
        most_specific_perm [OF assms(2)] by auto
    then obtain e' d' where g: "registry_get ?r1 host = Some (e', d')" by auto
    have "d' = d" "e' = e"
      using registry_get_sound [OF ok(1) g] registry_get_sound [OF ok(2) Some [unfolded p]]
        map_of_perm [OF assms] most_specific_perm [OF assms(2)]
      by (auto dest: most_specific_unique)
    with g Some p show ?thesis by simp
  qed
qed

theorem wildcard_index_equals_scan_witness:
  "registry_get (new_waf_registry\<lparr>rg_mapping := rev (rg_mapping sample_registry),
      rg_wildcards := Some (build_wildcard_index (rev (rg_mapping sample_registry)))\<rparr>) ''X.b.com'' =
   registry_get (new_waf_registry\<lparr>rg_mapping := rg_mapping sample_registry, rg_wildcards := None\<rparr>) ''X.b.com''"
proof (rule wildcard_index_equals_scan)
  show "wf_assoc (rg_mapping sample_registry)"
    using sample_registry_ok unfolding index_ok_def by (rule conjunct1)
  show "mset (rev (rg_mapping sample_registry)) = mset (rg_mapping sample_registry)"
    by (rule mset_rev)
qed

text \<open>Letter case, an explicit port and the dot of the root zone do not change which tenant
  a host name selects.\<close>

theorem registry_get_host_variants:
  assumes "plain_host h" and "plain_host port" and "\<not> has_suffix (to_lower h) ''.''"
  shows "registry_get r (h @ '':'' @ port) = registry_get r h \<and>
         registry_get r (to_lower h) = registry_get r h \<and>
         registry_get r (h @ ''.'') = registry_get r h"
proof -
  have dot: "plain_host (h @ ''.'')"
    using assms(1) by (auto simp: plain_host_def is_space_byte_def byte_val_def)
  have l: "to_lower (h @ ''.'') = to_lower h @ ''.''"
    by (simp add: to_lower_def lower_byte_def is_upper_byte_def byte_val_def)
  have "normalize_host (h @ ''.'') = to_lower h"
    unfolding normalize_plain_host [OF dot] l by (simp add: trim_suffix_def)
  moreover have "normalize_host h = to_lower h"
    unfolding normalize_plain_host [OF assms(1)] using assms(3) by (simp add: trim_suffix_def)
  moreover have "normalize_host (to_lower h) = to_lower h"
    unfolding normalize_plain_host [OF plain_host_to_lower [OF assms(1)]]
    using assms(3) by (simp add: trim_suffix_def)
  moreover have "normalize_host (h @ '':'' @ port) = to_lower h"
    unfolding normalize_host_with_port [OF assms(1,2)] using assms(3) by (simp add: trim_suffix_def)
  ultimately show ?thesis by (simp add: registry_get_def)
qed

theorem registry_get_host_variants_witness:
  "registry_get sample_registry (''A.com'' @ '':'' @ ''80'') = registry_get sample_registry ''A.com'' \<and>
   registry_get sample_registry (''A.com'' @ ''.'') = registry_get sample_registry ''A.com''"
proof -
  have "plain_host ''A.com''" "plain_host ''80''" "\<not> has_suffix (to_lower ''A.com'') ''.''"
    by code_simp+
  from registry_get_host_variants [OF this, of sample_registry] show ?thesis by blast
qed

end
