(* ===== verification/RequestInfo.thy ===== *)
theory RequestInfo
  imports Registry
begin

text \<open>
  Per-request state of \<open>internal/waf/request_info.go\<close> and the client address
  logic of \<open>internal/waf/middleware_serve.go\<close>: who the client is when trusted
  proxies stand in front, which paths a control covers, how clients are grouped
  for rate limiting, and the one-time read of a request body.

  The value that \<open>withRequestInfo\<close> stores in the request context is the field
  \<open>rq_info\<close> of the request.
\<close>

(* src: internal/waf/request_info.go:20-32 requestInfo *)
record request_info =
  ri_client_ip :: string
  ri_tenant :: string
  ri_entry :: entry
  ri_matched :: bool
  ri_trusted_peer :: bool
  ri_forwarded_host :: string
  ri_forwarded_prot :: string
  ri_user :: string
  ri_body_read :: bool
  ri_body :: string

record request =
  rq_method :: string
  rq_host :: string
  rq_path :: string
  rq_url :: string
  rq_query :: "(string \<times> string list) list"
  rq_proto :: string
  rq_remote_addr :: string
  rq_tls :: bool
  rq_header :: header
  rq_content_length :: int
  rq_body :: body
  rq_info :: "request_info option"

(* src: internal/waf/request_info.go:34-36 withRequestInfo *)
definition with_request_info :: "request \<Rightarrow> request_info \<Rightarrow> request" where
  "with_request_info r i = r\<lparr>rq_info := Some i\<rparr>"

(* src: internal/waf/request_info.go:38-41 requestInfoFrom *)
definition request_info_from :: "request \<Rightarrow> request_info option" where
  "request_info_from r = rq_info r"

subsection \<open>Client address\<close>

(* src: internal/waf/middleware_serve.go:303-310 prefixesContain *)
fun prefixes_contain :: "ip_prefix list \<Rightarrow> addr \<Rightarrow> bool" where
  "prefixes_contain [] a = False"
| "prefixes_contain (p # ps) a = (if prefix_contains p a then True else prefixes_contain ps a)"

text \<open>The loop over the forwarded addresses from right to left; the argument list is already reversed.\<close>

(* src: internal/waf/middleware_serve.go:290-300 clientIPFromRequest (loop) *)
fun walk_forwarded :: "ip_prefix list \<Rightarrow> addr \<Rightarrow> string list \<Rightarrow> string" where
  "walk_forwarded trusted peer [] = addr_string peer"
| "walk_forwarded trusted peer (part # parts) =
     (case parse_addr (trim_space part) of
        None \<Rightarrow> addr_string peer
      | Some candidate \<Rightarrow>
          if \<not> prefixes_contain trusted (unmap candidate) then addr_string (unmap candidate)
          else walk_forwarded trusted peer parts)"

(* src: internal/waf/middleware_serve.go:275-301 clientIPFromRequest *)
definition client_ip_from_request :: "request \<Rightarrow> bool \<Rightarrow> ip_prefix list \<Rightarrow> string" where
  "client_ip_from_request r trust_forwarded trusted =
     (let peer_ip = (case split_host_port (rq_remote_addr r) of Some (h, _) \<Rightarrow> h | None \<Rightarrow> rq_remote_addr r) in
      case parse_addr peer_ip of
        None \<Rightarrow> peer_ip
      | Some peer0 \<Rightarrow>
          let peer = unmap peer0 in
          if \<not> trust_forwarded \<or> \<not> prefixes_contain trusted peer then addr_string peer
          else walk_forwarded trusted peer
                 (rev (str_split (CHR '','') (header_get (rq_header r) ''X-Forwarded-For''))))"

subsection \<open>Access-log bound\<close>

(* src: internal/waf/middleware_serve.go:268-273 boundedLogValue *)
definition bounded_log_value :: "string \<Rightarrow> string" where
  "bounded_log_value v = (if length v \<le> 2048 then v else take 2048 v)"

subsection \<open>Paths\<close>

(* src: internal/waf/request_info.go:110-118 pathHasPrefix *)
definition path_has_prefix :: "string \<Rightarrow> string \<Rightarrow> bool" where
  "path_has_prefix p prefix =
     (if \<not> has_prefix p prefix then False
      else if length p = length prefix \<or> has_suffix prefix ''/'' then True
      else p ! length prefix = CHR ''/'')"

(* src: internal/waf/request_info.go:100-108 pathMatchesAny *)
definition path_matches_any :: "string list \<Rightarrow> string \<Rightarrow> bool" where
  "path_matches_any prefixes p =
     (let cleaned = path_clean_rooted (''/'' @ p)
      in list_ex (\<lambda>prefix. path_has_prefix p prefix \<or> path_has_prefix cleaned prefix) prefixes)"

subsection \<open>Rate-limit key of a client\<close>

(* src: internal/waf/request_info.go:122-136 rateLimitClientKey *)
definition rate_limit_client_key :: "string \<Rightarrow> string" where
  "rate_limit_client_key ip =
     (case parse_addr ip of
        None \<Rightarrow> ip
      | Some a0 \<Rightarrow>
          let a = unmap a0 in
          if is_4 a then addr_string a
          else (case addr_prefix a 64 of None \<Rightarrow> addr_string a | Some p \<Rightarrow> prefix_string p))"

subsection \<open>Reading the body for inspection\<close>

(* src: internal/waf/request_info.go:16 errInspectionBodyTooLarge *)
datatype inspection_error = InspectionBodyTooLarge | BodyReadError

(* src: internal/waf/request_info.go:68-95 ProxyHandler.inspectionBody *)
definition inspection_body :: "request \<Rightarrow> int \<Rightarrow> (inspection_error + string) \<times> request" where
  "inspection_body r limit =
     (case rq_info r of
        Some i \<Rightarrow>
          if ri_body_read i then
            (if int (length (ri_body i)) > limit then (Inl InspectionBodyTooLarge, r) else (Inr (ri_body i), r))
          else
            (if rq_body r = NilBody \<or> rq_body r = NoBody then (Inr [], r)
             else if rq_content_length r > limit then (Inl InspectionBodyTooLarge, r)
             else (case read_all_limited (rq_body r) (wrap64 (limit + 1)) of
                 None \<Rightarrow> (Inl BodyReadError, r)
               | Some d \<Rightarrow>
                   if int (length d) > limit then (Inl InspectionBodyTooLarge, r)
                   else (Inr d, r\<lparr>rq_body := Stream d False,
                                  rq_info := Some (i\<lparr>ri_body := d, ri_body_read := True\<rparr>)\<rparr>)))
      | None \<Rightarrow>
          if rq_body r = NilBody \<or> rq_body r = NoBody then (Inr [], r)
          else if rq_content_length r > limit then (Inl InspectionBodyTooLarge, r)
          else (case read_all_limited (rq_body r) (wrap64 (limit + 1)) of
              None \<Rightarrow> (Inl BodyReadError, r)
            | Some d \<Rightarrow>
                if int (length d) > limit then (Inl InspectionBodyTooLarge, r)
                else (Inr d, r\<lparr>rq_body := Stream d False\<rparr>)))"

(* src: internal/waf/middleware.go:1343-1346 hasUnsupportedContentEncoding *)
definition has_unsupported_content_encoding :: "request \<Rightarrow> bool" where
  "has_unsupported_content_encoding r =
     (let e = trim_space (header_get (rq_header r) ''Content-Encoding'')
      in e \<noteq> [] \<and> \<not> equal_fold e ''identity'')"

subsection \<open>What later stages read of a request\<close>

(* src: internal/waf/request_info.go:45-50 ProxyHandler.tenantFor *)
definition tenant_for :: "registry \<Rightarrow> request \<Rightarrow> (entry \<times> string) option" where
  "tenant_for reg r =
     (case request_info_from r of
        Some info \<Rightarrow> if ri_matched info then Some (ri_entry info, ri_tenant info) else registry_get reg (rq_host r)
      | None \<Rightarrow> registry_get reg (rq_host r))"

(* src: internal/waf/request_info.go:52-57 ProxyHandler.clientIPFor *)
definition client_ip_for :: "bool \<Rightarrow> ip_prefix list \<Rightarrow> request \<Rightarrow> string" where
  "client_ip_for trust_forwarded trusted_proxies r =
     (case request_info_from r of
        Some info \<Rightarrow> if ri_client_ip info \<noteq> [] then ri_client_ip info
                     else client_ip_from_request r trust_forwarded trusted_proxies
      | None \<Rightarrow> client_ip_from_request r trust_forwarded trusted_proxies)"

(* src: internal/waf/request_info.go:59-64 ProxyHandler.trustedProxies *)
definition trusted_proxies_of :: "ip_prefix list option \<Rightarrow> ip_prefix list" where
  "trusted_proxies_of ps = (case ps of Some prefixes \<Rightarrow> prefixes | None \<Rightarrow> [])"

text \<open>The counter of blocked requests by decision source and tenant.\<close>

(* src: internal/waf/metrics.go:18-24 blockedTotal *)
type_synonym blocked_counter = "((string \<times> string) \<times> int) list"

(* src: internal/waf/middleware.go:1353-1359 ProxyHandler.metricTenant *)
definition metric_tenant :: "registry \<Rightarrow> request \<Rightarrow> string" where
  "metric_tenant reg r = (case tenant_for reg r of None \<Rightarrow> ''unmatched'' | Some (_, d) \<Rightarrow> d)"

(* src: internal/waf/middleware.go:1348-1351 ProxyHandler.rejectInspectionOversize *)
definition reject_inspection_oversize ::
  "registry \<Rightarrow> request \<Rightarrow> string \<Rightarrow> log_writer \<Rightarrow> blocked_counter \<Rightarrow> log_writer \<times> blocked_counter" where
  "reject_inspection_oversize reg r control w m =
     (http_error ''Request body exceeds inspection limit'' 413 w,
      counter_inc (control @ ''_oversize'', metric_tenant reg r) m)"

subsection \<open>Lemmas\<close>

lemma prefixes_contain_iff: "prefixes_contain ps a \<longleftrightarrow> (\<exists>p \<in> set ps. prefix_contains p a)"
  by (induction ps) auto

definition trusted_part :: "ip_prefix list \<Rightarrow> string \<Rightarrow> bool" where
  "trusted_part trusted part =
     (case parse_addr (trim_space part) of None \<Rightarrow> False | Some a \<Rightarrow> prefixes_contain trusted (unmap a))"

lemma walk_forwarded_skip:
  "list_all (trusted_part trusted) ts \<Longrightarrow> walk_forwarded trusted peer (ts @ ps) = walk_forwarded trusted peer ps"
  by (induction ts) (auto simp: trusted_part_def split: option.splits)

text \<open>What the loop returns: the peer, or the first address from the right outside the trusted proxies.\<close>

lemma walk_forwarded_result:
  "walk_forwarded trusted peer ps = addr_string peer \<or>
   (\<exists>ts part us a. ps = ts @ part # us \<and> list_all (trusted_part trusted) ts \<and>
      parse_addr (trim_space part) = Some a \<and> \<not> prefixes_contain trusted (unmap a) \<and>
      walk_forwarded trusted peer ps = addr_string (unmap a))"
proof (induction ps)
  case Nil
  then show ?case by simp
next
  case (Cons part ps)
  show ?case
  proof (cases "parse_addr (trim_space part)")
    case None
    then show ?thesis by simp
  next
    case (Some a)
    show ?thesis
    proof (cases "prefixes_contain trusted (unmap a)")
      case False
      then show ?thesis
        using Some by (intro disjI2 exI [of _ "[]"] exI [of _ part] exI [of _ ps] exI [of _ a]) simp
    next
      case True
      then have w: "walk_forwarded trusted peer (part # ps) = walk_forwarded trusted peer ps"
        and t: "trusted_part trusted part"
        using Some by (simp_all add: trusted_part_def)
      from Cons.IH show ?thesis
      proof
        assume "walk_forwarded trusted peer ps = addr_string peer"
        with w show ?thesis by simp
      next
        assume "\<exists>ts part us a. ps = ts @ part # us \<and> list_all (trusted_part trusted) ts \<and>
          parse_addr (trim_space part) = Some a \<and> \<not> prefixes_contain trusted (unmap a) \<and>
          walk_forwarded trusted peer ps = addr_string (unmap a)"
        then obtain ts q us b where "ps = ts @ q # us" "list_all (trusted_part trusted) ts"
          "parse_addr (trim_space q) = Some b" "\<not> prefixes_contain trusted (unmap b)"
          "walk_forwarded trusted peer ps = addr_string (unmap b)" by blast
        with w t show ?thesis
          by (intro disjI2 exI [of _ "part # ts"] exI [of _ q] exI [of _ us] exI [of _ b]) simp
      qed
    qed
  qed
qed

lemma length_bounded_log_value: "length (bounded_log_value v) \<le> 2048"
  by (simp add: bounded_log_value_def)

lemma path_has_prefix_iff:
  "path_has_prefix p prefix \<longleftrightarrow>
   (\<exists>rest. p = prefix @ rest \<and> (rest = [] \<or> has_suffix prefix ''/'' \<or> hd rest = CHR ''/''))"
  by (auto simp: path_has_prefix_def has_prefix_iff nth_append hd_conv_nth)

lemma path_matches_any_iff:
  "path_matches_any prefixes p \<longleftrightarrow>
   (\<exists>prefix \<in> set prefixes. path_has_prefix p prefix \<or> path_has_prefix (path_clean_rooted (''/'' @ p)) prefix)"
  by (simp add: path_matches_any_def list_ex_iff Let_def)

lemma inspection_body_too_large:
  "inspection_body r limit = (Inr d, r') \<Longrightarrow> 0 \<le> limit \<Longrightarrow> int (length d) \<le> limit"
  by (auto simp: inspection_body_def split: option.splits if_splits)


definition peer_of :: "request \<Rightarrow> addr option" where
  "peer_of r = map_option unmap
     (parse_addr (case split_host_port (rq_remote_addr r) of Some (h, _) \<Rightarrow> h | None \<Rightarrow> rq_remote_addr r))"

definition peer_trusted :: "request \<Rightarrow> ip_prefix list \<Rightarrow> bool" where
  "peer_trusted r trusted = (case peer_of r of None \<Rightarrow> False | Some a \<Rightarrow> prefixes_contain trusted a)"

lemma client_ip_trusted_peer:
  assumes "peer_of r = Some peer" "prefixes_contain trusted peer"
  shows "client_ip_from_request r True trusted =
    walk_forwarded trusted peer (rev (str_split (CHR '','') (header_get (rq_header r) ''X-Forwarded-For'')))"
  using assms by (auto simp: client_ip_from_request_def peer_of_def Let_def)

lemma and_not_mask_eq:
  fixes x y :: "128 word"
  assumes "drop_bit 64 x = drop_bit 64 y"
  shows "x AND NOT (mask 64) = y AND NOT (mask 64)"
proof (rule bit_word_eqI)
  fix n assume n: "n < LENGTH(128)"
  have "bit x n = bit y n" if "64 \<le> n"
  proof -
    have "bit (drop_bit 64 x) (n - 64) = bit (drop_bit 64 y) (n - 64)" using assms by simp
    then show ?thesis using that by (simp add: bit_drop_bit_eq)
  qed
  then show "bit (x AND NOT (mask 64)) n = bit (y AND NOT (mask 64)) n"
    using n by (auto simp: bit_and_iff bit_not_iff bit_mask_iff)
qed

lemma rate_limit_client_key_v6:
  assumes "parse_addr s = Some (Addr6 x z)" "\<not> is_4in6 (Addr6 x z)"
  shows "rate_limit_client_key s = prefix_string \<lparr>pfx_addr = Addr6 (x AND NOT (mask 64)) [], pfx_bits = 64\<rparr>"
  using assms by (simp add: rate_limit_client_key_def prefix_from_def)

subsection \<open>Properties\<close>

text \<open>C6: a client that does not connect from a trusted proxy cannot influence the address it is
  judged by: every value of every request header gives the same client address.\<close>

theorem client_ip_untrusted_peer_ignores_headers:
  assumes "\<not> trust_forwarded \<or> \<not> peer_trusted r trusted"
  shows "client_ip_from_request (r\<lparr>rq_header := h\<rparr>) trust_forwarded trusted =
         client_ip_from_request r trust_forwarded trusted \<and>
         (\<forall>a. peer_of r = Some a \<longrightarrow> client_ip_from_request r trust_forwarded trusted = addr_string a)"
  using assms
  by (auto simp: client_ip_from_request_def peer_trusted_def peer_of_def Let_def split: option.splits)

definition sample_request :: request where
  "sample_request = \<lparr>rq_method = ''GET'', rq_host = ''a.com'', rq_path = ''/'', rq_url = ''/'', rq_query = [],
     rq_proto = ''HTTP/1.1'', rq_remote_addr = ''10.0.0.1:4711'', rq_tls = False,
     rq_header = [(''X-Forwarded-For'', [''6.6.6.6, 203.0.113.9, 10.0.0.7''])], rq_content_length = 0,
     rq_body = NoBody, rq_info = None\<rparr>"

definition sample_proxies :: "ip_prefix list" where
  "sample_proxies = [\<lparr>pfx_addr = Addr4 0x0A000000, pfx_bits = 8\<rparr>]"

theorem client_ip_untrusted_peer_ignores_headers_witness:
  "client_ip_from_request (sample_request\<lparr>rq_remote_addr := ''192.0.2.1:9''\<rparr>) True sample_proxies = ''192.0.2.1'' \<and>
   client_ip_from_request (sample_request\<lparr>rq_remote_addr := ''192.0.2.1:9'', rq_header := []\<rparr>) True sample_proxies =
   client_ip_from_request (sample_request\<lparr>rq_remote_addr := ''192.0.2.1:9''\<rparr>) True sample_proxies"
proof -
  have "\<not> peer_trusted (sample_request\<lparr>rq_remote_addr := ''192.0.2.1:9''\<rparr>) sample_proxies"
    by code_simp
  moreover have "client_ip_from_request (sample_request\<lparr>rq_remote_addr := ''192.0.2.1:9''\<rparr>) True sample_proxies = ''192.0.2.1''"
    by code_simp
  ultimately show ?thesis
    using client_ip_untrusted_peer_ignores_headers
      [of True "sample_request\<lparr>rq_remote_addr := ''192.0.2.1:9''\<rparr>" sample_proxies "[]"]
    by simp
qed



text \<open>Only the first \<open>X-Forwarded-For\<close> header line is read, so an address that a trusted proxy
  reports in a further header line, instead of appending to the first one, is ignored and the
  client's own line decides.\<close>

theorem client_ip_reads_first_header_line_only:
  assumes "rq_header r = (''X-Forwarded-For'', l # ls) # hs"
  shows "client_ip_from_request r trust trusted =
         client_ip_from_request (r\<lparr>rq_header := (''X-Forwarded-For'', [l]) # hs\<rparr>) trust trusted"
proof -
  have c: "canonical_header_key ''X-Forwarded-For'' = ''X-Forwarded-For''" by code_simp
  have "header_get (rq_header r) ''X-Forwarded-For'' =
        header_get ((''X-Forwarded-For'', [l]) # hs) ''X-Forwarded-For''"
    using assms by (simp add: header_get_def c)
  then show ?thesis by (simp add: client_ip_from_request_def Let_def split: option.split)
qed

theorem client_ip_reads_first_header_line_only_witness:
  "client_ip_from_request
     (sample_request\<lparr>rq_header := [(''X-Forwarded-For'', [''6.6.6.6'', ''203.0.113.9''])]\<rparr>) True sample_proxies
   = ''6.6.6.6''"
proof -
  let ?r = "sample_request\<lparr>rq_header := [(''X-Forwarded-For'', [''6.6.6.6'', ''203.0.113.9''])]\<rparr>"
  have "client_ip_from_request ?r True sample_proxies =
    client_ip_from_request (?r\<lparr>rq_header := [(''X-Forwarded-For'', [''6.6.6.6''])]\<rparr>) True sample_proxies"
    by (rule client_ip_reads_first_header_line_only) simp
  also have "\<dots> = ''6.6.6.6''" by code_simp
  finally show ?thesis .
qed

text \<open>One subscriber is one rate-limit client: all IPv6 addresses of one /64 network share a key,
  and an IPv4-mapped IPv6 address shares the key of the IPv4 address.\<close>

theorem rate_limit_key_groups_subscriber:
  assumes "parse_addr s = Some (Addr6 x z)"
    and "(parse_addr t = Some (Addr6 y z') \<and> \<not> is_4in6 (Addr6 x z) \<and> \<not> is_4in6 (Addr6 y z') \<and>
            drop_bit 64 x = drop_bit 64 y)
         \<or> (parse_addr t = Some (Addr4 (ucast x)) \<and> is_4in6 (Addr6 x z))"
  shows "rate_limit_client_key s = rate_limit_client_key t"
  using assms(2)
proof
  assume "parse_addr t = Some (Addr6 y z') \<and> \<not> is_4in6 (Addr6 x z) \<and> \<not> is_4in6 (Addr6 y z') \<and>
    drop_bit 64 x = drop_bit 64 y"
  then show ?thesis
    using assms(1) and_not_mask_eq [of x y] by (simp add: rate_limit_client_key_v6 del: is_4in6.simps)
next
  assume "parse_addr t = Some (Addr4 (ucast x)) \<and> is_4in6 (Addr6 x z)"
  then show ?thesis using assms(1) by (simp add: rate_limit_client_key_def)
qed

theorem rate_limit_key_groups_subscriber_witness:
  "rate_limit_client_key ''2001:db8::1'' = rate_limit_client_key ''2001:db8::ffff:2'' \<and>
   rate_limit_client_key ''::ffff:192.0.2.7'' = rate_limit_client_key ''192.0.2.7''"
proof
  have a: "parse_addr ''2001:db8::1'' = Some (Addr6 0x20010db8000000000000000000000001 [])"
    "parse_addr ''2001:db8::ffff:2'' = Some (Addr6 0x20010db80000000000000000ffff0002 [])"
    "\<not> is_4in6 (Addr6 0x20010db8000000000000000000000001 [])"
    "\<not> is_4in6 (Addr6 0x20010db80000000000000000ffff0002 [])"
    "drop_bit 64 (0x20010db8000000000000000000000001 :: 128 word) = drop_bit 64 0x20010db80000000000000000ffff0002"
    by code_simp+
  show "rate_limit_client_key ''2001:db8::1'' = rate_limit_client_key ''2001:db8::ffff:2''"
    using a by (blast intro: rate_limit_key_groups_subscriber)
  have b: "parse_addr ''::ffff:192.0.2.7'' = Some (Addr6 0xffffc0000207 [])" "is_4in6 (Addr6 0xffffc0000207 [])"
    "parse_addr ''192.0.2.7'' = Some (Addr4 (ucast (0xffffc0000207 :: 128 word)))"
    by code_simp+
  show "rate_limit_client_key ''::ffff:192.0.2.7'' = rate_limit_client_key ''192.0.2.7''"
    using b by (blast intro: rate_limit_key_groups_subscriber)
qed

text \<open>C8: a request body is read for inspection once: when the read succeeds, the inspected bytes are the
  whole body and within the limit, the upstream gets the same bytes, and every later inspection with a
  sufficient limit sees them again.\<close>

theorem inspection_body_whole_and_stable:
  assumes "rq_info r = Some i" and "\<not> ri_body_read i" and "rq_body r = Stream bs fails"
    and "0 \<le> limit" and "limit < 2 ^ 63 - 1"
    and "inspection_body r limit = (Inr d, r')"
  shows "d = bs \<and> \<not> fails \<and> int (length d) \<le> limit \<and> rq_body r' = Stream bs False \<and>
         (\<forall>limit' \<ge> int (length bs). inspection_body r' limit' = (Inr bs, r'))"
proof -
  have w: "wrap64 (limit + 1) = limit + 1" using assms(4,5) by (intro wrap64_id) auto
  obtain rd where rd: "read_all_limited (Stream bs fails) (limit + 1) = Some rd" "int (length rd) \<le> limit"
    and d: "d = rd" "r' = r\<lparr>rq_body := Stream rd False, rq_info := Some (i\<lparr>ri_body := rd, ri_body_read := True\<rparr>)\<rparr>"
    using assms(1,2,3,6) unfolding inspection_body_def w
    by (auto simp del: read_all_limited.simps split: option.splits if_splits)
  have "rd = bs \<and> \<not> fails"
    using rd assms(4) by (auto split: if_splits)
  then show ?thesis
    using d rd(2) by (simp add: inspection_body_def)
qed

definition sample_info :: request_info where
  "sample_info = \<lparr>ri_client_ip = ''192.0.2.1'', ri_tenant = ''a.com'', ri_entry = zero_entry, ri_matched = True,
     ri_trusted_peer = False, ri_forwarded_host = [], ri_forwarded_prot = [], ri_user = [],
     ri_body_read = False, ri_body = []\<rparr>"

theorem inspection_body_whole_and_stable_witness:
  "\<exists>r'. inspection_body (sample_request\<lparr>rq_body := Stream ''q=1'' False, rq_info := Some sample_info\<rparr>) 10 = (Inr ''q=1'', r') \<and>
        inspection_body r' 4 = (Inr ''q=1'', r')"
proof -
  let ?r = "sample_request\<lparr>rq_body := Stream ''q=1'' False, rq_info := Some sample_info\<rparr>"
  obtain r' where i: "inspection_body ?r 10 = (Inr ''q=1'', r')"
    by (simp add: inspection_body_def sample_info_def sample_request_def wrap64_def)
  have "\<forall>limit' \<ge> int (length ''q=1''). inspection_body r' limit' = (Inr ''q=1'', r')"
    using inspection_body_whole_and_stable [OF _ _ _ _ _ i, of sample_info "''q=1''" False]
    by (simp add: sample_info_def)
  then show ?thesis using i by auto
qed

text \<open>With the largest configurable limit the reader's bound \<open>limit + 1\<close> wraps around to a negative
  number: nothing is read, the inspected body is empty, and the upstream receives an empty body.\<close>

theorem inspection_body_limit_overflow:
  assumes "rq_info r = Some i" and "\<not> ri_body_read i" and "rq_body r = Stream bs fails"
    and "rq_content_length r \<le> 2 ^ 63 - 1"
  shows "\<exists>r'. inspection_body r (2 ^ 63 - 1) = (Inr [], r') \<and> rq_body r' = Stream [] False"
  using assms by (simp add: inspection_body_def wrap64_def)

theorem inspection_body_limit_overflow_witness:
  "\<exists>r'. inspection_body (sample_request\<lparr>rq_body := Stream ''attack'' False, rq_info := Some sample_info\<rparr>) (2 ^ 63 - 1)
          = (Inr [], r') \<and> rq_body r' = Stream [] False"
  by (rule inspection_body_limit_overflow [where i = sample_info and bs = "''attack''" and fails = False])
    (simp_all add: sample_info_def sample_request_def)

end
