(* ===== verification/Upstream.thy ===== *)
theory Upstream
  imports RequestInfo
begin

text \<open>
  Upstream servers of a tenant (\<open>internal/waf/middleware.go\<close>): building the
  tenant state, round-robin selection, the circuit breaker, active health
  checks, the rewriting of the outbound request, the treatment of the upstream
  response and the replacement of the tenant states on a reload.

  The reverse proxy closures of the source capture the tenant, its name and
  the upstream: here they are functions that take those as arguments.  An
  upstream is addressed by its index in the tenant state.  \<open>url.Parse\<close>,
  \<open>regexp.Compile\<close>, \<open>http.DetectContentType\<close> and the network are parameters.
\<close>

subsection \<open>URLs\<close>

text \<open>What the program reads of a parsed \<open>url.URL\<close>.\<close>

record url =
  url_scheme :: string
  url_host :: string
  url_path :: string
  url_redacted :: string

text \<open>\<open>splitHostPort\<close> of \<open>net/url\<close>, behind \<open>URL.Hostname\<close> and \<open>URL.Port\<close>.\<close>

definition url_split :: "string \<Rightarrow> string \<times> string" where
  "url_split hp =
     (let (host, port) =
        (case last_index_byte hp (CHR '':'') of
           None \<Rightarrow> (hp, [])
         | Some i \<Rightarrow> if list_all is_digit_byte (drop (Suc i) hp) then (take i hp, drop (Suc i) hp) else (hp, []))
      in (if has_prefix host ''['' \<and> has_suffix host '']'' then butlast (tl host) else host, port))"

definition url_hostname :: "url \<Rightarrow> string" where
  "url_hostname u = fst (url_split (url_host u))"

definition url_port :: "url \<Rightarrow> string" where
  "url_port u = snd (url_split (url_host u))"

text \<open>\<open>net.JoinHostPort\<close>.\<close>

definition join_host_port :: "string \<Rightarrow> string \<Rightarrow> string" where
  "join_host_port h p = (if CHR '':'' \<in> set h then ''['' @ h @ '']:'' @ p else h @ '':'' @ p)"

(* src: internal/waf/middleware.go:1108-1117 upstreamDialAddress *)
definition upstream_dial_address :: "url \<Rightarrow> string" where
  "upstream_dial_address target =
     (if url_port target \<noteq> [] then url_host target
      else let port = (if url_scheme target = ''https'' then ''443'' else ''80'')
           in join_host_port (url_hostname target) port)"

subsection \<open>Upstream servers\<close>

text \<open>The settings of the \<open>http.Transport\<close> that depend on the configuration, and its idle connections.\<close>

record transport =
  tr_max_idle_conns :: int
  tr_max_idle_conns_per_host :: int
  tr_max_conns_per_host :: int
  tr_response_header_timeout :: duration
  tr_insecure_skip_verify :: bool
  tr_idle_closed :: bool

(* src: internal/waf/middleware.go:48-58 UpstreamServer *)
record upstream_server =
  us_tenant :: string
  us_url :: url
  us_transport :: transport
  us_is_healthy :: bool
  us_consecutive_failures :: int
  us_dead_until :: int
  us_health_check :: health_check_config
  us_health_client :: "duration option"

(* src: internal/waf/middleware.go:60-63 upstreamPoolSettings *)
record upstream_pool_settings =
  ps_max_idle_conns_per_host :: int
  ps_max_conns_per_host :: int

(* src: internal/waf/middleware.go:80-83 TenantState *)
record tenant_state =
  ts_upstreams :: "upstream_server list"
  ts_counter :: "64 word"

definition update_upstream :: "nat \<Rightarrow> (upstream_server \<Rightarrow> upstream_server) \<Rightarrow> tenant_state \<Rightarrow> tenant_state" where
  "update_upstream i f ts = ts\<lparr>ts_upstreams := (ts_upstreams ts)[i := f (ts_upstreams ts ! i)]\<rparr>"

subsection \<open>Building a tenant state\<close>

text \<open>\<open>compile\<close> is \<open>regexp.Compile\<close>.\<close>

(* src: internal/waf/middleware.go:767-777 buildTenantState (masking patterns) *)
fun compile_masking :: "(string \<Rightarrow> regexp option) \<Rightarrow> response_masking_rule list \<Rightarrow> response_masking_rule list option" where
  "compile_masking compile [] = Some []"
| "compile_masking compile (rule # rules) =
     (case (case rm_compiled rule of Some re \<Rightarrow> Some re | None \<Rightarrow> compile (rm_pattern rule)) of
        None \<Rightarrow> None
      | Some re \<Rightarrow> map_option ((#) (rule\<lparr>rm_compiled := Some re\<rparr>)) (compile_masking compile rules))"

datatype build_error =
    InvalidMaskingPattern string
  | InvalidUpstreamUrl string
  | NoUpstream string

(* src: internal/waf/middleware.go:796-842 buildTenantState (one upstream) *)
definition build_upstream ::
  "string \<Rightarrow> tenant \<Rightarrow> upstream_pool_settings \<Rightarrow> health_check_config \<Rightarrow> upstream_config \<Rightarrow> url \<Rightarrow> upstream_server" where
  "build_upstream fqdn tenant pool health_check uc target =
     (let response_header_timeout =
        (if uc_response_header_timeout uc = 0 then 30 * second else uc_response_header_timeout uc)
      in \<lparr>us_tenant = fqdn, us_url = target,
          us_transport = \<lparr>tr_max_idle_conns = ps_max_idle_conns_per_host pool,
             tr_max_idle_conns_per_host = ps_max_idle_conns_per_host pool,
             tr_max_conns_per_host = ps_max_conns_per_host pool,
             tr_response_header_timeout = response_header_timeout,
             tr_insecure_skip_verify = opt_true (tn_upstream_insecure tenant),
             tr_idle_closed = False\<rparr>,
          us_is_healthy = True, us_consecutive_failures = 0, us_dead_until = 0,
          us_health_check = health_check, us_health_client = Some (hc_timeout health_check)\<rparr>)"

(* src: internal/waf/middleware.go:795-799 buildTenantState (loop) *)
fun build_upstreams ::
  "(string \<Rightarrow> url option) \<Rightarrow> string \<Rightarrow> tenant \<Rightarrow> upstream_pool_settings \<Rightarrow> health_check_config \<Rightarrow>
   upstream_config list \<Rightarrow> build_error + upstream_server list" where
  "build_upstreams parse_url fqdn tenant pool hc [] = Inr []"
| "build_upstreams parse_url fqdn tenant pool hc (uc # ucs) =
     (case parse_url (uc_url uc) of
        None \<Rightarrow> Inl (InvalidUpstreamUrl (uc_url uc))
      | Some target \<Rightarrow>
          (case build_upstreams parse_url fqdn tenant pool hc ucs of
             Inl e \<Rightarrow> Inl e
           | Inr us \<Rightarrow> Inr (build_upstream fqdn tenant pool hc uc target # us)))"

text \<open>The result carries the tenant with its compiled patterns, which the proxy closures use.\<close>

(* src: internal/waf/middleware.go:765-954 ProxyHandler.buildTenantState *)
definition build_tenant_state ::
  "(string \<Rightarrow> regexp option) \<Rightarrow> (string \<Rightarrow> url option) \<Rightarrow> upstream_pool_settings option \<Rightarrow>
   string \<Rightarrow> tenant \<Rightarrow> build_error + (tenant \<times> tenant_state)" where
  "build_tenant_state compile parse_url upstream_pool fqdn tenant =
     (case compile_masking compile (sp_response_masking (tn_security tenant)) of
        None \<Rightarrow> Inl (InvalidMaskingPattern fqdn)
      | Some rules \<Rightarrow>
          let tenant = tenant\<lparr>tn_security := (tn_security tenant)\<lparr>sp_response_masking := rules\<rparr>\<rparr>;
              pool = (case upstream_pool of
                        None \<Rightarrow> \<lparr>ps_max_idle_conns_per_host = 0, ps_max_conns_per_host = 0\<rparr> | Some p \<Rightarrow> p);
              pool = (if ps_max_idle_conns_per_host pool \<le> 0
                      then pool\<lparr>ps_max_idle_conns_per_host := default_upstream_max_idle_conns_per_host\<rparr> else pool);
              hc = tn_health_check tenant;
              hc = (if hc_interval hc \<le> 0 then hc\<lparr>hc_interval := default_health_check_interval\<rparr> else hc);
              hc = (if hc_timeout hc \<le> 0 then hc\<lparr>hc_timeout := default_health_check_timeout\<rparr> else hc)
          in (case build_upstreams parse_url fqdn tenant pool hc (tn_upstreams tenant) of
                Inl e \<Rightarrow> Inl e
              | Inr [] \<Rightarrow> Inl (NoUpstream fqdn)
              | Inr us \<Rightarrow> Inr (tenant, \<lparr>ts_upstreams = us, ts_counter = 0\<rparr>)))"

subsection \<open>Selection and circuit breaker\<close>

text \<open>
  The loop of \<open>selectUpstream\<close>.  The counter is an atomic \<open>uint64\<close> and wraps
  around; \<open>now\<close> is the Unix time in seconds.  The result is the index of the
  chosen upstream.
\<close>

(* src: internal/waf/middleware.go:732-748 TenantState.selectUpstream (loop) *)
fun select_loop :: "nat \<Rightarrow> int \<Rightarrow> tenant_state \<Rightarrow> nat option \<times> tenant_state" where
  "select_loop 0 now ts = (None, ts)"
| "select_loop (Suc k) now ts =
     (let counter = ts_counter ts + 1;
          ts = ts\<lparr>ts_counter := counter\<rparr>;
          i = nat (uint counter mod int (length (ts_upstreams ts)));
          u = ts_upstreams ts ! i
      in if us_dead_until u > 0 \<and> now < us_dead_until u then select_loop k now ts
         else let ts = (if us_dead_until u > 0 then update_upstream i (us_dead_until_update (\<lambda>_. 0)) ts else ts)
              in if us_is_healthy u then (Some i, ts) else select_loop k now ts)"

(* src: internal/waf/middleware.go:724-750 TenantState.selectUpstream *)
definition select_upstream :: "time \<Rightarrow> tenant_state \<Rightarrow> nat option \<times> tenant_state" where
  "select_upstream now ts =
     (if ts_upstreams ts = [] then (None, ts)
      else select_loop (length (ts_upstreams ts)) (time_unix now) ts)"

(* src: internal/waf/middleware.go:628-637 ProxyHandler.recordUpstreamFailure *)
definition record_upstream_failure :: "time \<Rightarrow> int \<Rightarrow> duration \<Rightarrow> upstream_server \<Rightarrow> upstream_server" where
  "record_upstream_failure now threshold cooldown u =
     (let fails = wrap32 (us_consecutive_failures u + 1);
          u = u\<lparr>us_consecutive_failures := fails\<rparr>
      in if fails \<ge> threshold then
           let cooldown = (if cooldown = 0 then 30 * second else cooldown)
           in u\<lparr>us_dead_until := time_unix (now + cooldown)\<rparr>
         else u)"

subsection \<open>Active health checks\<close>

text \<open>
  \<open>dial\<close> stands for a TCP connect within a timeout, \<open>get\<close> for the HTTP GET of
  the health client: \<open>None\<close> when the request fails, else the status code.
\<close>

(* src: internal/waf/middleware.go:1058-1089 checkUpstream *)
definition check_upstream ::
  "(string \<Rightarrow> duration \<Rightarrow> bool) \<Rightarrow> (url \<Rightarrow> string \<Rightarrow> duration \<Rightarrow> int option) \<Rightarrow> upstream_server \<Rightarrow> bool" where
  "check_upstream dial get u =
     (let timeout = (if hc_timeout (us_health_check u) \<le> 0 then default_health_check_timeout
                     else hc_timeout (us_health_check u))
      in if hc_path (us_health_check u) = [] \<or> us_health_client u = None
         then dial (upstream_dial_address (us_url u)) timeout
         else case get (us_url u) (hc_path (us_health_check u)) timeout of
                None \<Rightarrow> False
              | Some status \<Rightarrow> status < 500)"

text \<open>The metric series labelled with an upstream: the health gauge and the request counter.\<close>

(* src: internal/waf/metrics.go:26-32 upstreamHealthy *)
type_synonym health_gauge = "((string \<times> string) \<times> int) list"

(* src: internal/waf/metrics.go:59-65 upstreamRequestsTotal *)
type_synonym request_counter = "((string \<times> string \<times> string) \<times> int) list"

record upstream_metrics =
  um_healthy :: health_gauge
  um_requests :: request_counter

definition upstream_labels :: "upstream_server \<Rightarrow> string \<times> string" where
  "upstream_labels u = (us_tenant u, url_redacted (us_url u))"

(* src: internal/waf/middleware.go:1091-1106 ProxyHandler.performCheck *)
definition perform_check ::
  "(string \<Rightarrow> duration \<Rightarrow> bool) \<Rightarrow> (url \<Rightarrow> string \<Rightarrow> duration \<Rightarrow> int option) \<Rightarrow>
   upstream_server \<Rightarrow> upstream_metrics \<Rightarrow> upstream_server \<times> upstream_metrics" where
  "perform_check dial get u m =
     (if \<not> check_upstream dial get u then
        ((if us_is_healthy u then u\<lparr>us_is_healthy := False\<rparr> else u),
         m\<lparr>um_healthy := assoc_put (upstream_labels u) 0 (um_healthy m)\<rparr>)
      else
        ((if \<not> us_is_healthy u then u\<lparr>us_is_healthy := True\<rparr> else u),
         m\<lparr>um_healthy := assoc_put (upstream_labels u) 1 (um_healthy m)\<rparr>))"

text \<open>
  The checks run in parallel on different upstreams and write different
  fields, so their order does not matter; they are listed in the order of the
  upstreams.
\<close>

(* src: internal/waf/middleware.go:1005-1010 probeTenantStates (one state) *)
fun probe_upstreams ::
  "(string \<Rightarrow> duration \<Rightarrow> bool) \<Rightarrow> (url \<Rightarrow> string \<Rightarrow> duration \<Rightarrow> int option) \<Rightarrow>
   upstream_server list \<Rightarrow> upstream_metrics \<Rightarrow> upstream_server list \<times> upstream_metrics" where
  "probe_upstreams dial get [] m = ([], m)"
| "probe_upstreams dial get (u # us) m =
     (let (u', m) = perform_check dial get u m; (us', m) = probe_upstreams dial get us m in (u' # us', m))"

(* src: internal/waf/middleware.go:1002-1012 ProxyHandler.probeTenantStates *)
fun probe_tenant_states ::
  "(string \<Rightarrow> duration \<Rightarrow> bool) \<Rightarrow> (url \<Rightarrow> string \<Rightarrow> duration \<Rightarrow> int option) \<Rightarrow>
   (string \<times> tenant_state) list \<Rightarrow> upstream_metrics \<Rightarrow> (string \<times> tenant_state) list \<times> upstream_metrics" where
  "probe_tenant_states dial get [] m = ([], m)"
| "probe_tenant_states dial get ((fqdn, ts) # rest) m =
     (let (us, m) = probe_upstreams dial get (ts_upstreams ts) m;
          (rest', m) = probe_tenant_states dial get rest m
      in ((fqdn, ts\<lparr>ts_upstreams := us\<rparr>) # rest', m))"

subsection \<open>The outbound request\<close>

(* src: internal/waf/middleware_serve.go:20 devBypassHeader *)
definition dev_bypass_header :: string where
  "dev_bypass_header = ''X-Synit-Dev-Bypass''"

text \<open>
  \<open>pr.Out\<close>: the target whose scheme, host and base path it is sent to, the
  Host header and the headers that are left after \<open>net/http\<close> removed the
  hop-by-hop and forwarding headers.
\<close>

record out_request =
  or_target :: url
  or_host :: string
  or_header :: header

(* src: internal/waf/middleware.go:883-885 Rewrite (strip_request) *)
definition strip_headers :: "string list \<Rightarrow> header \<Rightarrow> header" where
  "strip_headers ks h = foldl header_del h ks"

(* src: internal/waf/middleware.go:886-890 Rewrite (inject_request) *)
fun inject_request_headers :: "string \<Rightarrow> string \<Rightarrow> (string \<times> string) list \<Rightarrow> header \<Rightarrow> header" where
  "inject_request_headers fqdn client_ip [] h = h"
| "inject_request_headers fqdn client_ip ((key, value) # kvs) h =
     (let value = replace_all value ''{{TENANT}}'' fqdn;
          value = replace_all value ''{{CLIENT_IP}}'' client_ip
      in inject_request_headers fqdn client_ip kvs (header_set h key value))"

(* src: internal/waf/middleware.go:853-875 Rewrite (forwarded values) *)
definition forwarded_values :: "request \<Rightarrow> string \<times> string \<times> string" where
  "forwarded_values r =
     (let client_ip = (case split_host_port (rq_remote_addr r) of None \<Rightarrow> rq_remote_addr r | Some (h, _) \<Rightarrow> h);
          forwarded_host = rq_host r;
          forwarded_proto = (if rq_tls r then ''https'' else ''http'')
      in case request_info_from r of
           None \<Rightarrow> (client_ip, forwarded_host, forwarded_proto)
         | Some info \<Rightarrow>
             let client_ip = (if ri_client_ip info \<noteq> [] then ri_client_ip info else client_ip)
             in if ri_trusted_peer info then
                  (client_ip,
                   if ri_forwarded_host info \<noteq> [] then ri_forwarded_host info else forwarded_host,
                   if ri_forwarded_prot info \<noteq> [] then ri_forwarded_prot info else forwarded_proto)
                else (client_ip, forwarded_host, forwarded_proto))"

(* src: internal/waf/middleware.go:849-896 proxy.Rewrite *)
definition rewrite_request :: "string \<Rightarrow> tenant \<Rightarrow> url \<Rightarrow> request \<Rightarrow> header \<Rightarrow> out_request" where
  "rewrite_request fqdn tenant target r h =
     (let (client_ip, forwarded_host, forwarded_proto) = forwarded_values r;
          h = header_set h ''X-Forwarded-For'' client_ip;
          h = header_set h ''X-Forwarded-Host'' forwarded_host;
          h = header_set h ''X-Forwarded-Proto'' forwarded_proto;
          h = header_set h ''X-Real-IP'' client_ip;
          h = header_del h dev_bypass_header;
          h = strip_headers (ht_strip_request (tn_header_transform tenant)) h;
          h = inject_request_headers fqdn client_ip (ht_inject_request (tn_header_transform tenant)) h;
          h = (if sp_response_masking (tn_security tenant) \<noteq> []
               then header_del (header_del (header_del h ''Accept-Encoding'') ''Range'') ''If-Range''
               else h)
      in \<lparr>or_target = target, or_host = rq_host r, or_header = h\<rparr>)"

subsection \<open>The upstream response\<close>

text \<open>\<open>rs_request_method\<close> is the method of \<open>resp.Request\<close>, when that is set.\<close>

record response =
  rs_status :: int
  rs_header :: header
  rs_content_length :: int
  rs_body :: body
  rs_request_method :: "string option"

text \<open>The first two errors wrap \<open>errResponseInspection\<close>.\<close>

(* src: internal/waf/middleware.go:174-177 errResponseInspection, errResponseInspectionOversize *)
datatype proxy_error =
    ResponseInspection string
  | ResponseInspectionOversize
  | ResponseRead
  | PatternCompile string
  | TransportError
  | ContextCanceled

definition is_response_inspection :: "proxy_error \<Rightarrow> bool" where
  "is_response_inspection e = (case e of ResponseInspection _ \<Rightarrow> True | ResponseInspectionOversize \<Rightarrow> True | _ \<Rightarrow> False)"

(* src: internal/waf/middleware.go:640-644 isMaskableMediaType *)
definition is_maskable_media_type :: "string \<Rightarrow> bool" where
  "is_maskable_media_type mt =
     (has_prefix mt ''text/'' \<or> mt = ''application/json'' \<or> has_suffix mt ''+json'' \<or>
      mt = ''application/xml'' \<or> has_suffix mt ''+xml'')"

(* src: internal/waf/middleware.go:698-712 applyResponseMasking (rules) *)
fun mask_rules :: "(string \<Rightarrow> regexp option) \<Rightarrow> response_masking_rule list \<Rightarrow> string \<Rightarrow> proxy_error + string" where
  "mask_rules compile [] masked = Inr masked"
| "mask_rules compile (rule # rules) masked =
     (case (case rm_compiled rule of Some re \<Rightarrow> Some re | None \<Rightarrow> compile (rm_pattern rule)) of
        None \<Rightarrow> Inl (PatternCompile (rm_pattern rule))
      | Some re \<Rightarrow>
          mask_rules compile rules
            (if re_match re masked then re_replace re masked (rm_replacement rule) else masked))"

(* src: internal/waf/middleware.go:698-720 applyResponseMasking (replacement) *)
definition mask_body ::
  "(string \<Rightarrow> regexp option) \<Rightarrow> response_masking_rule list \<Rightarrow> string \<Rightarrow> response \<Rightarrow> proxy_error + response" where
  "mask_body compile rules b resp =
     (case mask_rules compile rules b of
        Inl e \<Rightarrow> Inl e
      | Inr masked \<Rightarrow>
          let resp = (if masked \<noteq> b
                      then resp\<lparr>rs_content_length := int (length masked),
                                rs_header := header_set (header_set (rs_header resp) ''Content-Length'' (itoa (int (length masked))))
                                               ''X-Synit-Masked'' ''true''\<rparr>
                      else resp)
          in Inr (resp\<lparr>rs_body := Stream masked False\<rparr>))"

text \<open>The early return of \<open>applyResponseMasking\<close>: responses that carry no body.\<close>

(* src: internal/waf/middleware.go:647-650 applyResponseMasking (no body) *)
definition response_without_body :: "response \<Rightarrow> bool" where
  "response_without_body resp =
     (rs_body resp = NilBody \<or> rs_content_length resp = 0 \<or> rs_status resp = 204 \<or> rs_status resp = 304 \<or>
      (rs_status resp \<ge> 100 \<and> rs_status resp < 200) \<or> rs_request_method resp = Some ''HEAD'')"

(* src: internal/waf/middleware.go:646-721 ProxyHandler.applyResponseMasking *)
definition apply_response_masking ::
  "(string \<Rightarrow> regexp option) \<Rightarrow> (string \<Rightarrow> string) \<Rightarrow> int \<Rightarrow> response_masking_rule list \<Rightarrow> response \<Rightarrow>
   proxy_error + response" where
  "apply_response_masking compile detect response_masking_limit rules resp =
     (if response_without_body resp then Inr resp
      else if rs_status resp = 206 then Inl (ResponseInspection ''partial responses are not supported'')
      else
        let content_type = parse_media_type (header_get (rs_header resp) ''Content-Type'');
            sniff = (content_type = None);
            media_type = (case content_type of None \<Rightarrow> [] | Some mt \<Rightarrow> to_lower mt)
        in if \<not> sniff \<and> \<not> is_maskable_media_type media_type then Inr resp
           else if \<not> sniff \<and> media_type = ''text/event-stream''
             then Inl (ResponseInspection ''event streams are not supported'')
           else
             let encoding = trim_space (header_get (rs_header resp) ''Content-Encoding'')
             in if encoding \<noteq> [] \<and> \<not> equal_fold encoding ''identity''
                then Inl (ResponseInspection ''Content-Encoding is not supported'')
                else
                  let limit = (if response_masking_limit \<le> 0 then default_request_body_cap else response_masking_limit)
                  in if rs_content_length resp > limit then Inl ResponseInspectionOversize
                     else case read_all_limited (rs_body resp) (wrap64 (limit + 1)) of
                            None \<Rightarrow> Inl ResponseRead
                          | Some b \<Rightarrow>
                              if int (length b) > limit then Inl ResponseInspectionOversize
                              else if sniff \<and>
                                \<not> is_maskable_media_type (case parse_media_type (detect b) of None \<Rightarrow> [] | Some mt \<Rightarrow> mt)
                                then Inr (resp\<lparr>rs_body := Stream b False\<rparr>)
                              else mask_body compile rules b resp)"

(* src: internal/waf/middleware.go:1409-1424 statusClassLabel *)
definition status_class_label :: "int \<Rightarrow> string" where
  "status_class_label c =
     (if c \<ge> 100 \<and> c < 200 then ''1xx''
      else if c \<ge> 200 \<and> c < 300 then ''2xx''
      else if c \<ge> 300 \<and> c < 400 then ''3xx''
      else if c \<ge> 400 \<and> c < 500 then ''4xx''
      else if c \<ge> 500 \<and> c < 600 then ''5xx''
      else ''unknown'')"

(* src: internal/waf/middleware.go:904-913 ModifyResponse (circuit breaker) *)
definition circuit_breaker_response :: "circuit_breaker_config \<Rightarrow> time \<Rightarrow> int \<Rightarrow> upstream_server \<Rightarrow> upstream_server" where
  "circuit_breaker_response cb now status u =
     (if cb_enabled cb then
        if status \<in> set (cb_failure_status_codes cb)
        then record_upstream_failure now (cb_threshold cb) (cb_cooldown cb) u
        else u\<lparr>us_consecutive_failures := 0\<rparr>
      else u\<lparr>us_consecutive_failures := 0\<rparr>)"

(* src: internal/waf/middleware.go:901-931 proxy.ModifyResponse *)
definition modify_response ::
  "(string \<Rightarrow> regexp option) \<Rightarrow> (string \<Rightarrow> string) \<Rightarrow> int \<Rightarrow> time \<Rightarrow> string \<Rightarrow> tenant \<Rightarrow> response \<Rightarrow>
   upstream_server \<Rightarrow> upstream_metrics \<Rightarrow> (proxy_error + response) \<times> upstream_server \<times> upstream_metrics" where
  "modify_response compile detect limit now fqdn tenant resp u m =
     (let m = m\<lparr>um_requests := counter_inc (fqdn, url_redacted (us_url u), status_class_label (rs_status resp)) (um_requests m)\<rparr>;
          u = circuit_breaker_response (sp_circuit_breaker (tn_security tenant)) now (rs_status resp) u;
          rules = sp_response_masking (tn_security tenant);
          ht = tn_header_transform tenant
      in case (if rules \<noteq> [] then apply_response_masking compile detect limit rules resp else Inr resp) of
           Inl e \<Rightarrow> (Inl e, u, m)
         | Inr resp \<Rightarrow>
             (Inr (resp\<lparr>rs_header := foldl (\<lambda>h (k, v). header_set h k v)
                          (strip_headers (ht_strip_response ht) (rs_header resp)) (ht_inject_response ht)\<rparr>), u, m))"

text \<open>\<open>ctx_err\<close> tells whether the context of the client request has ended.\<close>

(* src: internal/waf/middleware.go:933-942 proxy.ErrorHandler *)
definition proxy_error_handler ::
  "time \<Rightarrow> string \<Rightarrow> tenant \<Rightarrow> bool \<Rightarrow> proxy_error \<Rightarrow> log_writer \<Rightarrow> upstream_server \<Rightarrow> upstream_metrics \<Rightarrow>
   log_writer \<times> upstream_server \<times> upstream_metrics" where
  "proxy_error_handler now fqdn tenant ctx_err e w u m =
     (let m = m\<lparr>um_requests := counter_inc (fqdn, url_redacted (us_url u), ''error'') (um_requests m)\<rparr>;
          cb = sp_circuit_breaker (tn_security tenant);
          u = (if cb_enabled cb \<and> \<not> ctx_err \<and> e \<noteq> ContextCanceled \<and> \<not> is_response_inspection e
               then record_upstream_failure now (cb_threshold cb) (cb_cooldown cb) u else u)
      in (http_error ''Bad Gateway'' 502 w, u, m))"

subsection \<open>Replacing the tenant states\<close>

(* src: internal/waf/middleware.go:989-997 closeTenantStateTransports *)
definition close_transports :: "tenant_state list \<Rightarrow> tenant_state list" where
  "close_transports states =
     map (\<lambda>ts. ts\<lparr>ts_upstreams := map (\<lambda>u. u\<lparr>us_transport := (us_transport u)\<lparr>tr_idle_closed := True\<rparr>\<rparr>) (ts_upstreams ts)\<rparr>)
       states"

definition drop_labels :: "string \<times> string \<Rightarrow> upstream_metrics \<Rightarrow> upstream_metrics" where
  "drop_labels l m =
     m\<lparr>um_healthy := assoc_del l (um_healthy m),
       um_requests := filter (\<lambda>((t, u, _), _). (t, u) \<noteq> l) (um_requests m)\<rparr>"

(* src: internal/waf/middleware.go:975-987 closeTenantStates *)
definition close_tenant_states ::
  "tenant_state list \<Rightarrow> (string \<times> string) list \<Rightarrow> upstream_metrics \<Rightarrow> tenant_state list \<times> upstream_metrics" where
  "close_tenant_states states retained m =
     (close_transports states,
      fold (\<lambda>u m. if upstream_labels u \<in> set retained then m else drop_labels (upstream_labels u) m)
        (concat (map ts_upstreams states)) m)"

text \<open>The result: the published states, the replaced states, the metrics.\<close>

(* src: internal/waf/middleware.go:956-971 ProxyHandler.replaceTenantStates *)
definition replace_tenant_states ::
  "(string \<times> tenant_state) list \<Rightarrow> (string \<times> tenant_state) list \<Rightarrow> upstream_metrics \<Rightarrow>
   (string \<times> tenant_state) list \<times> tenant_state list \<times> upstream_metrics" where
  "replace_tenant_states next_states current m =
     (let previous = map snd current;
          retained = map upstream_labels (concat (map (ts_upstreams \<circ> snd) next_states));
          (old, m) = close_tenant_states previous retained m
      in (next_states, old, m))"

subsection \<open>Selection\<close>

definition eligible :: "int \<Rightarrow> upstream_server \<Rightarrow> bool" where
  "eligible now u = (us_is_healthy u \<and> (us_dead_until u \<le> 0 \<or> us_dead_until u \<le> now))"

text \<open>The upstreams in the order in which the next \<open>k\<close> rounds try them.\<close>

definition round_robin :: "nat \<Rightarrow> int \<Rightarrow> nat \<Rightarrow> nat list" where
  "round_robin n c k = map (\<lambda>j. nat ((c + 1 + int j) mod int n)) [0..<k]"

lemma round_robin_Suc:
  "round_robin n c (Suc k) = nat ((c + 1) mod int n) # round_robin n (c + 1) k"
  by (simp add: round_robin_def upt_conv_Cons map_Suc_upt [symmetric] algebra_simps del: upt_Suc)

lemma length_update_upstream [simp]: "length (ts_upstreams (update_upstream i f ts)) = length (ts_upstreams ts)"
  by (simp add: update_upstream_def)

lemma update_upstream_counter [simp]: "ts_counter (update_upstream i f ts) = ts_counter ts"
  by (simp add: update_upstream_def)

lemma update_upstream_nth:
  "i < length (ts_upstreams ts) \<Longrightarrow> ts_upstreams (update_upstream i f ts) ! j =
     (if i = j then f (ts_upstreams ts ! i) else ts_upstreams ts ! j)"
  by (simp add: update_upstream_def)

lemma eligible_reset:
  "\<lbrakk> i < length (ts_upstreams ts); \<not> now < us_dead_until (ts_upstreams ts ! i) \<rbrakk> \<Longrightarrow>
   eligible now (ts_upstreams (update_upstream i (us_dead_until_update (\<lambda>_. 0)) ts) ! j) =
   eligible now (ts_upstreams ts ! j)"
  by (auto simp: update_upstream_nth eligible_def)

lemma uint_succ: "uint (c :: 64 word) + 1 < 2 ^ 64 \<Longrightarrow> uint (c + 1) = uint c + 1"
  by (simp add: uint_word_ariths)

lemma select_loop_find:
  assumes "ts_upstreams ts \<noteq> []" "uint (ts_counter ts) + int k < 2 ^ 64"
  shows "fst (select_loop k now ts) =
    find (\<lambda>i. eligible now (ts_upstreams ts ! i)) (round_robin (length (ts_upstreams ts)) (uint (ts_counter ts)) k)"
  using assms
proof (induction k arbitrary: ts)
  case 0
  then show ?case by (simp add: round_robin_def)
next
  case (Suc k)
  let ?n = "length (ts_upstreams ts)" and ?c = "ts_counter ts + 1"
  let ?i = "nat (uint ?c mod int ?n)"
  let ?u = "ts_upstreams ts ! ?i"
  let ?ts1 = "ts\<lparr>ts_counter := ?c\<rparr>"
  let ?ts2 = "if us_dead_until ?u > 0 then update_upstream ?i (us_dead_until_update (\<lambda>_. 0)) ?ts1 else ?ts1"
  have c: "uint ?c = uint (ts_counter ts) + 1" using Suc.prems by (intro uint_succ) simp
  have n: "0 < ?n" using Suc.prems(1) by simp
  then have i: "?i < ?n" by (simp add: nat_less_iff)
  have rr: "round_robin ?n (uint (ts_counter ts)) (Suc k) = ?i # round_robin ?n (uint ?c) k"
    by (simp add: round_robin_Suc c)
  show ?case
  proof (cases "us_dead_until ?u > 0 \<and> now < us_dead_until ?u")
    case True
    then have "fst (select_loop (Suc k) now ts) = fst (select_loop k now ?ts1)" by (simp add: Let_def)
    also have "\<dots> = find (\<lambda>i. eligible now (ts_upstreams ts ! i)) (round_robin ?n (uint ?c) k)"
      using Suc.IH [of ?ts1] Suc.prems c by simp
    finally show ?thesis using True rr by (simp add: eligible_def)
  next
    case False
    then have el: "eligible now (ts_upstreams ?ts2 ! j) = eligible now (ts_upstreams ts ! j)" for j
      using eligible_reset [of ?i ?ts1 now j] i by auto
    show ?thesis
    proof (cases "us_is_healthy ?u")
      case True
      then have "fst (select_loop (Suc k) now ts) = Some ?i" using False by (auto simp: Let_def)
      then show ?thesis using True False rr by (auto simp: eligible_def)
    next
      case unhealthy: False
      then have "fst (select_loop (Suc k) now ts) = fst (select_loop k now ?ts2)"
        using False by (auto simp: Let_def)
      also have "\<dots> = find (\<lambda>i. eligible now (ts_upstreams ts ! i)) (round_robin ?n (uint ?c) k)"
        using Suc.IH [of ?ts2] Suc.prems c el by (auto simp: update_upstream_def)
      finally show ?thesis using unhealthy rr by (simp add: eligible_def)
    qed
  qed
qed

lemma set_round_robin:
  assumes "0 < n" "0 \<le> c"
  shows "set (round_robin n c n) = {..<n}"
proof -
  have "inj_on (\<lambda>j. nat ((c + 1 + int j) mod int n)) {..<n}"
  proof (rule inj_onI)
    fix x y assume xy: "x \<in> {..<n}" "y \<in> {..<n}"
      "nat ((c + 1 + int x) mod int n) = nat ((c + 1 + int y) mod int n)"
    then have "(c + 1 + int x) mod int n = (c + 1 + int y) mod int n"
      using assms by (simp add: nat_eq_iff)
    then have "int n dvd (c + 1 + int x) - (c + 1 + int y)"
      by (simp add: mod_eq_dvd_iff)
    then have "int n dvd int x - int y" by simp
    moreover have "\<bar>int x - int y\<bar> < int n" using xy by auto
    ultimately show "x = y" using zdvd_not_zless [of "\<bar>int x - int y\<bar>" "int n"] by (cases "x = y") auto
  qed
  then have "card (set (round_robin n c n)) = n"
    by (simp add: round_robin_def card_image atLeast0LessThan)
  moreover have "set (round_robin n c n) \<subseteq> {..<n}"
    using assms by (auto simp: round_robin_def nat_less_iff)
  ultimately show ?thesis by (simp add: card_subset_eq)
qed

lemma select_upstream_find:
  assumes "uint (ts_counter ts) + int (length (ts_upstreams ts)) < 2 ^ 64"
  shows "fst (select_upstream now ts) =
    find (\<lambda>i. eligible (time_unix now) (ts_upstreams ts ! i))
      (round_robin (length (ts_upstreams ts)) (uint (ts_counter ts)) (length (ts_upstreams ts)))"
  using assms by (auto simp: select_upstream_def select_loop_find round_robin_def)

text \<open>Soundness needs no bound on the counter.\<close>

lemma select_loop_sound:
  assumes "select_loop k now ts = (Some i, ts')" "ts_upstreams ts \<noteq> []"
  shows "i < length (ts_upstreams ts) \<and> eligible now (ts_upstreams ts ! i) \<and>
         us_dead_until (ts_upstreams ts' ! i) \<le> 0 \<and> us_is_healthy (ts_upstreams ts' ! i)"
  using assms
proof (induction k arbitrary: ts)
  case 0
  then show ?case by simp
next
  case (Suc k)
  let ?n = "length (ts_upstreams ts)" and ?c = "ts_counter ts + 1"
  let ?i = "nat (uint ?c mod int ?n)"
  let ?u = "ts_upstreams ts ! ?i"
  let ?ts1 = "ts\<lparr>ts_counter := ?c\<rparr>"
  let ?ts2 = "if us_dead_until ?u > 0 then update_upstream ?i (us_dead_until_update (\<lambda>_. 0)) ?ts1 else ?ts1"
  have i: "?i < ?n" using Suc.prems(2) by (simp add: nat_less_iff)
  show ?case
  proof (cases "us_dead_until ?u > 0 \<and> now < us_dead_until ?u")
    case True
    then show ?thesis using Suc.IH [of ?ts1] Suc.prems by (simp add: Let_def)
  next
    case False
    then have el: "eligible now (ts_upstreams ?ts2 ! j) = eligible now (ts_upstreams ts ! j)" for j
      using eligible_reset [of ?i ?ts1 now j] i by auto
    show ?thesis
    proof (cases "us_is_healthy ?u")
      case True
      then have "i = ?i" "ts' = ?ts2" using Suc.prems(1) False by (auto simp: Let_def)
      then show ?thesis using True False i by (auto simp: eligible_def update_upstream_nth)
    next
      case unhealthy: False
      then have "select_loop k now ?ts2 = (Some i, ts')" using False Suc.prems(1) by (auto simp: Let_def)
      moreover have "ts_upstreams ?ts2 \<noteq> []" "length (ts_upstreams ?ts2) = ?n"
        using Suc.prems(2) by (simp_all add: update_upstream_def)
      ultimately show ?thesis using Suc.IH [of ?ts2] el by simp
    qed
  qed
qed

text \<open>The choices of \<open>k\<close> successive calls.\<close>

fun select_times :: "nat \<Rightarrow> time \<Rightarrow> tenant_state \<Rightarrow> nat option list" where
  "select_times 0 now ts = []"
| "select_times (Suc k) now ts = (let (c, ts') = select_upstream now ts in c # select_times k now ts')"

lemma select_upstream_all_eligible:
  assumes "ts_upstreams ts \<noteq> []" and all: "\<forall>u \<in> set (ts_upstreams ts). eligible (time_unix now) u"
  shows "\<exists>ts'. select_upstream now ts = (Some (nat (uint (ts_counter ts + 1) mod int (length (ts_upstreams ts)))), ts') \<and>
     ts_counter ts' = ts_counter ts + 1 \<and> length (ts_upstreams ts') = length (ts_upstreams ts) \<and>
     (\<forall>u \<in> set (ts_upstreams ts'). eligible (time_unix now) u)"
proof -
  let ?c = "ts_counter ts + 1" and ?n = "length (ts_upstreams ts)"
  let ?i = "nat (uint ?c mod int ?n)"
  let ?u = "ts_upstreams ts ! ?i"
  let ?ts1 = "ts\<lparr>ts_counter := ?c\<rparr>"
  let ?ts2 = "if us_dead_until ?u > 0 then update_upstream ?i (us_dead_until_update (\<lambda>_. 0)) ?ts1 else ?ts1"
  obtain m where m: "?n = Suc m" using assms(1) by (cases "ts_upstreams ts") auto
  have i: "?i < ?n" using assms(1) by (simp add: nat_less_iff)
  then have "eligible (time_unix now) ?u" using all by simp
  then have u: "us_is_healthy ?u" "\<not> (us_dead_until ?u > 0 \<and> time_unix now < us_dead_until ?u)"
    by (auto simp: eligible_def)
  have "select_upstream now ts = select_loop (Suc m) (time_unix now) ts"
    using assms(1) m by (simp add: select_upstream_def)
  also have "\<dots> = (Some ?i, ?ts2)" using u by (auto simp: Let_def)
  finally have "select_upstream now ts = (Some ?i, ?ts2)" .
  moreover have "\<forall>u \<in> set (ts_upstreams ?ts2). eligible (time_unix now) u"
  proof
    fix v assume "v \<in> set (ts_upstreams ?ts2)"
    then obtain j where "j < ?n" "v = ts_upstreams ?ts2 ! j"
      by (auto simp: in_set_conv_nth update_upstream_def split: if_splits)
    then show "eligible (time_unix now) v"
      using eligible_reset [of ?i ?ts1 "time_unix now" j] i u all by auto
  qed
  ultimately show ?thesis by (intro exI [of _ ?ts2]) simp
qed

lemma select_times_all_eligible:
  assumes "ts_upstreams ts \<noteq> []" "\<forall>u \<in> set (ts_upstreams ts). eligible (time_unix now) u"
    "uint (ts_counter ts) + int k < 2 ^ 64"
  shows "select_times k now ts = map Some (round_robin (length (ts_upstreams ts)) (uint (ts_counter ts)) k)"
  using assms
proof (induction k arbitrary: ts)
  case 0
  then show ?case by (simp add: round_robin_def)
next
  case (Suc k)
  obtain ts' where ts': "select_upstream now ts =
      (Some (nat (uint (ts_counter ts + 1) mod int (length (ts_upstreams ts)))), ts')"
    "ts_counter ts' = ts_counter ts + 1" "length (ts_upstreams ts') = length (ts_upstreams ts)"
    "\<forall>u \<in> set (ts_upstreams ts'). eligible (time_unix now) u"
    using select_upstream_all_eligible [OF Suc.prems(1,2)] by blast
  have c: "uint (ts_counter ts + 1) = uint (ts_counter ts) + 1"
    using Suc.prems(3) by (intro uint_succ) simp
  have "ts_upstreams ts' \<noteq> []" using Suc.prems(1) ts'(3) by auto
  then have "select_times k now ts' = map Some (round_robin (length (ts_upstreams ts)) (uint (ts_counter ts) + 1) k)"
    using Suc.IH [of ts'] ts' Suc.prems c by auto
  then show ?case using ts'(1) by (simp add: round_robin_Suc c)
qed

lemma round_robin_add:
  "round_robin n c (k + l) = round_robin n c k @ round_robin n (c + int k) l"
proof (induction k arbitrary: c)
  case 0
  then show ?case by (simp add: round_robin_def)
next
  case (Suc k)
  then show ?case by (simp add: round_robin_Suc algebra_simps)
qed

lemma count_round_robin_period:
  assumes "0 < n" "0 \<le> c" "i < n"
  shows "count (mset (round_robin n c n)) i = 1"
proof -
  have "distinct (round_robin n c n)"
    using set_round_robin [OF assms(1,2)] by (intro card_distinct) (simp add: round_robin_def)
  then show ?thesis using set_round_robin [OF assms(1,2)] assms(3) by (simp add: distinct_count_atmost_1)
qed

lemma count_round_robin:
  assumes "0 < n" "0 \<le> c" "i < n"
  shows "count (mset (round_robin n c (m * n))) i = m"
  using assms(2)
proof (induction m arbitrary: c)
  case 0
  then show ?case by (simp add: round_robin_def)
next
  case (Suc m)
  then show ?case
    using count_round_robin_period [OF assms(1) Suc.prems assms(3)] Suc.IH [of "c + int n"]
    by (simp add: round_robin_add)
qed

lemma fold_breaker_failures:
  assumes "cb_enabled cb" "\<forall>(t, s) \<in> set outcomes. s \<in> set (cb_failure_status_codes cb)"
    "0 \<le> us_consecutive_failures u" "us_consecutive_failures u + int (length outcomes) < 2 ^ 31"
  shows "us_consecutive_failures (fold (\<lambda>(t, s). circuit_breaker_response cb t s) outcomes u) =
         us_consecutive_failures u + int (length outcomes)"
  using assms(2-)
proof (induction outcomes arbitrary: u)
  case Nil
  then show ?case by simp
next
  case (Cons o1 outcomes)
  obtain t s where o1: "o1 = (t, s)" by (cases o1)
  have "us_consecutive_failures (circuit_breaker_response cb t s u) = us_consecutive_failures u + 1"
    using Cons.prems assms(1) o1
    by (simp add: circuit_breaker_response_def record_upstream_failure_def wrap32_def Let_def)
  then show ?case using Cons.IH [of "circuit_breaker_response cb t s u"] Cons.prems o1 by auto
qed

lemma fold_breaker_below_threshold:
  assumes "cb_enabled cb" "0 \<le> us_consecutive_failures u" "cb_threshold cb < 2 ^ 31"
    "us_consecutive_failures u + int (length outcomes) < cb_threshold cb"
  shows "us_dead_until (fold (\<lambda>(t, s). circuit_breaker_response cb t s) outcomes u) = us_dead_until u"
  using assms(2-)
proof (induction outcomes arbitrary: u)
  case Nil
  then show ?case by simp
next
  case (Cons o1 outcomes)
  obtain t s where o1: "o1 = (t, s)" by (cases o1)
  let ?u = "circuit_breaker_response cb t s u"
  have "us_dead_until ?u = us_dead_until u \<and> 0 \<le> us_consecutive_failures ?u \<and>
    us_consecutive_failures ?u \<le> us_consecutive_failures u + 1"
    using Cons.prems assms(1) o1
    by (auto simp: circuit_breaker_response_def record_upstream_failure_def wrap32_def Let_def)
  then show ?case using Cons.IH [of ?u] Cons.prems o1 by auto
qed

lemma strip_headers_other:
  "\<forall>k \<in> set ks. canonical_header_key k \<noteq> canonical_header_key l \<Longrightarrow>
   header_get (strip_headers ks h) l = header_get h l"
  by (induction ks arbitrary: h) (auto simp: strip_headers_def)

lemma inject_request_headers_other:
  "\<forall>k \<in> fst ` set kvs. canonical_header_key k \<noteq> canonical_header_key l \<Longrightarrow>
   header_get (inject_request_headers fqdn ip kvs h) l = header_get h l"
  by (induction fqdn ip kvs h rule: inject_request_headers.induct) (auto simp: Let_def)

text \<open>A header that the tenant's transformation leaves alone.\<close>

definition untransformed :: "header_transform \<Rightarrow> string \<Rightarrow> bool" where
  "untransformed ht l =
     list_all (\<lambda>k. canonical_header_key k \<noteq> canonical_header_key l) (ht_strip_request ht @ map fst (ht_inject_request ht))"

lemma untransformed_strip [simp]:
  "untransformed ht l \<Longrightarrow> header_get (strip_headers (ht_strip_request ht) h) l = header_get h l"
  by (auto simp: untransformed_def list_all_iff intro!: strip_headers_other)

lemma untransformed_inject [simp]:
  "untransformed ht l \<Longrightarrow> header_get (inject_request_headers fqdn ip (ht_inject_request ht) h) l = header_get h l"
  by (auto simp: untransformed_def list_all_iff intro!: inject_request_headers_other)

lemma canonical_keys:
  "canonical_header_key ''X-Forwarded-For'' = ''X-Forwarded-For''"
  "canonical_header_key ''X-Forwarded-Host'' = ''X-Forwarded-Host''"
  "canonical_header_key ''X-Forwarded-Proto'' = ''X-Forwarded-Proto''"
  "canonical_header_key ''X-Real-IP'' = ''X-Real-Ip''"
  "canonical_header_key dev_bypass_header = dev_bypass_header"
  "canonical_header_key ''Accept-Encoding'' = ''Accept-Encoding''"
  "canonical_header_key ''Range'' = ''Range''"
  "canonical_header_key ''If-Range'' = ''If-Range''"
  "canonical_header_key ''Content-Length'' = ''Content-Length''"
  "canonical_header_key ''X-Synit-Masked'' = ''X-Synit-Masked''"
  by code_simp+

lemma mask_body_result:
  assumes "mask_body compile rules b resp = Inr resp'"
  shows "\<exists>masked. mask_rules compile rules b = Inr masked \<and> rs_body resp' = Stream masked False \<and>
    rs_status resp' = rs_status resp \<and>
    (masked \<noteq> b \<longrightarrow> rs_content_length resp' = int (length masked) \<and>
       header_get (rs_header resp') ''Content-Length'' = itoa (int (length masked)))"
  using assms by (auto simp: mask_body_def Let_def canonical_keys split: sum.splits if_splits)

lemma read_limit_whole:
  assumes "read_all_limited (Stream bs fails) (wrap64 (limit + 1)) = Some b" "int (length b) \<le> limit"
    "0 < limit" "limit < 2 ^ 63 - 1"
  shows "b = bs \<and> \<not> fails"
proof -
  have "wrap64 (limit + 1) = limit + 1" using assms(3,4) by (intro wrap64_id) auto
  then show ?thesis using assms(1,2) read_all_limited_below [of bs fails "limit + 1" b] by simp
qed

definition masking_limit :: "int \<Rightarrow> int" where
  "masking_limit l = (if l \<le> 0 then default_request_body_cap else l)"

text \<open>The cases in which \<open>applyResponseMasking\<close> lets a response pass with its original body.\<close>

definition not_maskable :: "(string \<Rightarrow> string) \<Rightarrow> string \<Rightarrow> response \<Rightarrow> bool" where
  "not_maskable detect bs resp =
     (case parse_media_type (header_get (rs_header resp) ''Content-Type'') of
        Some mt \<Rightarrow> \<not> is_maskable_media_type (to_lower mt)
      | None \<Rightarrow> \<not> is_maskable_media_type (case parse_media_type (detect bs) of None \<Rightarrow> [] | Some mt \<Rightarrow> mt))"

lemma apply_response_masking_cases:
  assumes "apply_response_masking compile detect limit rules resp = Inr resp'"
    and "rs_body resp = Stream bs fails" "limit < 2 ^ 63 - 1"
    and "\<not> response_without_body resp" "\<not> not_maskable detect bs resp"
  shows "mask_body compile rules bs resp = Inr resp' \<and> \<not> fails \<and> int (length bs) \<le> masking_limit limit \<and>
    (let e = trim_space (header_get (rs_header resp) ''Content-Encoding'') in e = [] \<or> equal_fold e ''identity'') \<and>
    rs_status resp \<noteq> 206"
proof -
  let ?e = "trim_space (header_get (rs_header resp) ''Content-Encoding'')"
  let ?ct = "parse_media_type (header_get (rs_header resp) ''Content-Type'')"
  have l: "0 < masking_limit limit" "masking_limit limit < 2 ^ 63 - 1"
    using assms(3) by (simp_all add: masking_limit_def default_request_body_cap_def)
  have ct: "case ?ct of None \<Rightarrow> True | Some mt \<Rightarrow> is_maskable_media_type (to_lower mt)"
    using assms(5) by (auto simp: not_maskable_def split: option.splits)
  have pre: "rs_status resp \<noteq> 206" "?e = [] \<or> equal_fold ?e ''identity''" "\<not> rs_content_length resp > masking_limit limit"
    using assms(1,4) ct unfolding apply_response_masking_def masking_limit_def Let_def
    by (auto split: if_splits option.splits simp del: read_all_limited.simps)
  obtain b where b: "read_all_limited (Stream bs fails) (wrap64 (masking_limit limit + 1)) = Some b"
    "int (length b) \<le> masking_limit limit"
    and r: "(if ?ct = None \<and> \<not> is_maskable_media_type (case parse_media_type (detect b) of None \<Rightarrow> [] | Some mt \<Rightarrow> mt)
             then Inr (resp\<lparr>rs_body := Stream b False\<rparr>) else mask_body compile rules b resp) = Inr resp'"
    using assms(1,2,4) pre ct unfolding apply_response_masking_def masking_limit_def Let_def
    by (auto split: if_splits option.splits simp del: read_all_limited.simps)
  have w: "b = bs \<and> \<not> fails" using read_limit_whole [OF b l] .
  have "mask_body compile rules bs resp = Inr resp'"
    using r w assms(5) by (auto simp: not_maskable_def split: option.splits if_splits)
  then show ?thesis using w b pre by simp
qed

lemma count_map_Some: "count (mset (map Some xs)) (Some i) = count (mset xs) i"
  by (induction xs) auto

lemma close_fold_healthy:
  "set (um_healthy (fold (\<lambda>u m. if upstream_labels u \<in> set retained then m else drop_labels (upstream_labels u) m) us m)) =
   {p \<in> set (um_healthy m). fst p \<in> set retained \<or> fst p \<notin> upstream_labels ` set us}"
  by (induction us arbitrary: m) (auto simp: drop_labels_def assoc_del_def)

lemma close_fold_requests:
  "set (um_requests (fold (\<lambda>u m. if upstream_labels u \<in> set retained then m else drop_labels (upstream_labels u) m) us m)) =
   {p \<in> set (um_requests m). (fst (fst p), fst (snd (fst p))) \<in> set retained \<or>
      (fst (fst p), fst (snd (fst p))) \<notin> upstream_labels ` set us}"
  by (induction us arbitrary: m) (auto simp: drop_labels_def)

definition state_labels :: "(string \<times> tenant_state) list \<Rightarrow> (string \<times> string) set" where
  "state_labels states = upstream_labels ` (\<Union>(_, ts) \<in> set states. set (ts_upstreams ts))"

lemma build_upstreams_length:
  "build_upstreams parse_url fqdn tenant pool hc ucs = Inr us \<Longrightarrow>
   length us = length ucs \<and>
   (\<forall>u \<in> set us. us_tenant u = fqdn \<and> us_is_healthy u \<and> us_dead_until u = 0 \<and> us_consecutive_failures u = 0 \<and>
      us_health_check u = hc)"
  by (induction ucs arbitrary: us) (auto simp: build_upstream_def Let_def split: option.splits sum.splits)

lemma compile_masking_compiled:
  "compile_masking compile rules = Some rules' \<Longrightarrow>
   length rules' = length rules \<and> (\<forall>r \<in> set rules'. rm_compiled r \<noteq> None)"
  by (induction rules arbitrary: rules') (auto split: option.splits)

text \<open>Compiled rules never fail on a response.\<close>

lemma mask_rules_compiled:
  "\<forall>r \<in> set rules. rm_compiled r \<noteq> None \<Longrightarrow> \<exists>masked. mask_rules compile rules b = Inr masked"
  by (induction rules arbitrary: b) auto

subsection \<open>Properties\<close>

definition sample_url :: url where
  "sample_url = \<lparr>url_scheme = ''http'', url_host = ''app:8080'', url_path = [], url_redacted = ''http://app:8080''\<rparr>"

definition sample_upstream :: upstream_server where
  "sample_upstream = build_upstream ''a.com'' zero_tenant \<lparr>ps_max_idle_conns_per_host = 64, ps_max_conns_per_host = 0\<rparr>
     \<lparr>hc_interval = 10 * second, hc_timeout = 5 * second, hc_path = []\<rparr>
     \<lparr>uc_url = ''http://app:8080'', uc_response_header_timeout = 0\<rparr> sample_url"

definition sample_state :: tenant_state where
  "sample_state = \<lparr>ts_upstreams = [sample_upstream, sample_upstream\<lparr>us_is_healthy := False\<rparr>, sample_upstream], ts_counter = 0\<rparr>"



text \<open>C10: with all upstreams available, the requests are spread evenly: of \<open>m * n\<close> successive choices among
  \<open>n\<close> upstreams each is chosen exactly \<open>m\<close> times.\<close>

theorem select_upstream_fair:
  assumes "ts_upstreams ts \<noteq> []" "\<forall>u \<in> set (ts_upstreams ts). eligible (time_unix now) u"
    and "uint (ts_counter ts) + int (m * length (ts_upstreams ts)) < 2 ^ 64"
    and "i < length (ts_upstreams ts)"
  shows "count (mset (select_times (m * length (ts_upstreams ts)) now ts)) (Some i) = m"
proof -
  let ?n = "length (ts_upstreams ts)"
  have "select_times (m * ?n) now ts = map Some (round_robin ?n (uint (ts_counter ts)) (m * ?n))"
    by (rule select_times_all_eligible [OF assms(1,2,3)])
  then show ?thesis
    using count_round_robin [of ?n "uint (ts_counter ts)" i m] assms(1,4)
    by (simp add: count_map_Some del: mset_map)
qed

theorem select_upstream_fair_witness:
  "count (mset (select_times 4 (10 * second) (sample_state\<lparr>ts_upstreams := [sample_upstream, sample_upstream]\<rparr>))) (Some 1) = 2"
proof -
  let ?ts = "sample_state\<lparr>ts_upstreams := [sample_upstream, sample_upstream]\<rparr>"
  have "\<forall>u \<in> set (ts_upstreams ?ts). eligible (time_unix (10 * second)) u"
    by (simp add: eligible_def sample_upstream_def build_upstream_def Let_def)
  moreover have "uint (ts_counter ?ts) = 0" by (simp add: sample_state_def)
  ultimately show ?thesis using select_upstream_fair [of ?ts "10 * second" 2 1] by simp
qed


definition sample_breaker :: circuit_breaker_config where
  "sample_breaker = \<lparr>cb_enabled = True, cb_threshold = 2, cb_cooldown = 0, cb_failure_status_codes = [502, 503]\<rparr>"


text \<open>The circuit breaker does not open early: after an answer that is no failure, fewer further
  answers than the threshold never put the upstream into a cooldown.\<close>

theorem circuit_breaker_stays_closed:
  assumes "cb_enabled cb" "cb_threshold cb < 2 ^ 31" "status \<notin> set (cb_failure_status_codes cb)"
    and "int (length outcomes) < cb_threshold cb"
  shows "us_dead_until (fold (\<lambda>(t, s). circuit_breaker_response cb t s) ((now, status) # outcomes) u) = us_dead_until u"
  using fold_breaker_below_threshold [of cb "circuit_breaker_response cb now status u" outcomes] assms
  by (simp add: circuit_breaker_response_def)

theorem circuit_breaker_stays_closed_witness:
  "us_dead_until (fold (\<lambda>(t, s). circuit_breaker_response sample_breaker t s)
     [(63900000000 * second, 200), (63900000001 * second, 502)] sample_upstream) = 0"
  using circuit_breaker_stays_closed [of sample_breaker 200 "[(63900000001 * second, 502)]" "63900000000 * second" sample_upstream]
  by (simp add: sample_breaker_def sample_upstream_def build_upstream_def Let_def)


definition sample_pattern :: regexp where
  "sample_pattern = \<lparr>re_match = (\<lambda>s. str_contains s ''4111''), re_replace = (\<lambda>s r. replace_all s ''4111'' r)\<rparr>"

definition sample_masking_tenant :: tenant where
  "sample_masking_tenant = zero_tenant\<lparr>tn_security := zero_security\<lparr>sp_response_masking :=
     [\<lparr>rm_pattern = ''4111'', rm_replacement = ''****'', rm_compiled = Some sample_pattern\<rparr>]\<rparr>\<rparr>"

definition sample_response :: response where
  "sample_response = \<lparr>rs_status = 200, rs_header = [(''Content-Type'', [''application/json''])], rs_content_length = -1,
     rs_body = Stream ''card 4111'' False, rs_request_method = Some ''GET''\<rparr>"


text \<open>C13: a client cannot forge the forwarding headers the upstream sees: whatever headers the outbound
  request starts with, \<open>X-Forwarded-For\<close> and \<open>X-Real-IP\<close> carry the client address that the gateway
  determined, host and protocol come from a trusted proxy only, and the secret of the development bypass
  is never passed on, unless the tenant's own header rules name these headers.\<close>

theorem forwarding_headers_authentic:
  assumes "request_info_from r = Some info" "ri_client_ip info \<noteq> []"
    and "list_all (untransformed (tn_header_transform tenant))
           [''X-Forwarded-For'', ''X-Real-IP'', ''X-Forwarded-Host'', ''X-Forwarded-Proto'', dev_bypass_header]"
    and "out = or_header (rewrite_request fqdn tenant target r h)"
  shows "header_get out ''X-Forwarded-For'' = ri_client_ip info \<and>
         header_get out ''X-Real-IP'' = ri_client_ip info \<and>
         header_get out dev_bypass_header = [] \<and>
         (\<not> ri_trusted_peer info \<longrightarrow> header_get out ''X-Forwarded-Host'' = rq_host r \<and>
            header_get out ''X-Forwarded-Proto'' = (if rq_tls r then ''https'' else ''http''))"
proof -
  have ne: "''X-Forwarded-For'' \<noteq> dev_bypass_header" "''X-Forwarded-Host'' \<noteq> dev_bypass_header"
    "''X-Forwarded-Proto'' \<noteq> dev_bypass_header" "''X-Real-Ip'' \<noteq> dev_bypass_header"
    "''Accept-Encoding'' \<noteq> dev_bypass_header" "''Range'' \<noteq> dev_bypass_header" "''If-Range'' \<noteq> dev_bypass_header"
    by (simp_all add: dev_bypass_header_def)
  show ?thesis
    using assms(1,2,3) ne unfolding assms(4)
    by (auto simp: rewrite_request_def forwarded_values_def Let_def canonical_keys split: option.splits)
qed

theorem forwarding_headers_authentic_witness:
  "header_get (or_header (rewrite_request ''a.com'' zero_tenant sample_url
       (sample_request\<lparr>rq_info := Some sample_info\<rparr>) [(''X-Real-Ip'', [''6.6.6.6''])])) ''X-Real-IP'' = ''192.0.2.1''"
proof -
  have "list_all (untransformed (tn_header_transform zero_tenant))
    [''X-Forwarded-For'', ''X-Real-IP'', ''X-Forwarded-Host'', ''X-Forwarded-Proto'', dev_bypass_header]"
    by (simp add: untransformed_def zero_tenant_def)
  then show ?thesis
    using forwarding_headers_authentic [of "sample_request\<lparr>rq_info := Some sample_info\<rparr>" sample_info zero_tenant _
        "''a.com''" sample_url "[(''X-Real-Ip'', [''6.6.6.6''])]", OF _ _ _ refl]
    by (simp add: request_info_from_def sample_info_def)
qed

text \<open>A configuration change publishes exactly the new upstreams, drops the metric series of upstreams
  that are gone, keeps the series of those that stay, and closes the idle connections of all replaced ones.\<close>

theorem replace_tenant_states_metrics:
  assumes "fst ` set (um_healthy m) \<subseteq> state_labels current"
    and "(\<lambda>p. (fst (fst p), fst (snd (fst p)))) ` set (um_requests m) \<subseteq> state_labels current"
    and "replace_tenant_states next_states current m = (published, old, m')"
  shows "published = next_states \<and>
         set (um_healthy m') = {p \<in> set (um_healthy m). fst p \<in> state_labels next_states} \<and>
         set (um_requests m') = {p \<in> set (um_requests m). (fst (fst p), fst (snd (fst p))) \<in> state_labels next_states} \<and>
         (\<forall>ts \<in> set old. \<forall>u \<in> set (ts_upstreams ts). tr_idle_closed (us_transport u))"
proof -
  have cur: "state_labels current = upstream_labels ` set (concat (map ts_upstreams (map snd current)))"
    by (force simp: state_labels_def)
  have nxt: "state_labels next_states = set (map upstream_labels (concat (map (ts_upstreams \<circ> snd) next_states)))"
    by (force simp: state_labels_def)
  have r: "published = next_states" "old = close_transports (map snd current)"
    "m' = fold (\<lambda>u m. if upstream_labels u \<in> set (map upstream_labels (concat (map (ts_upstreams \<circ> snd) next_states)))
                then m else drop_labels (upstream_labels u) m) (concat (map ts_upstreams (map snd current))) m"
    using assms(3) by (auto simp: replace_tenant_states_def close_tenant_states_def Let_def)
  have "set (um_healthy m') = {p \<in> set (um_healthy m). fst p \<in> state_labels next_states}"
    unfolding r(3) close_fold_healthy nxt using assms(1) unfolding cur by blast
  moreover have "set (um_requests m') =
      {p \<in> set (um_requests m). (fst (fst p), fst (snd (fst p))) \<in> state_labels next_states}"
    unfolding r(3) close_fold_requests nxt using assms(2) unfolding cur by blast
  ultimately show ?thesis using r(1,2) by (auto simp: close_transports_def)
qed

theorem replace_tenant_states_metrics_witness:
  "\<exists>published old m'. replace_tenant_states [] [(''a.com'', sample_state)]
      \<lparr>um_healthy = [((''a.com'', ''http://app:8080''), 1)], um_requests = []\<rparr> = (published, old, m') \<and>
    um_healthy m' = []"
proof -
  let ?m = "\<lparr>um_healthy = [((''a.com'', ''http://app:8080''), 1)], um_requests = []\<rparr>"
  obtain p c m' where r: "replace_tenant_states [] [(''a.com'', sample_state)] ?m = (p, c, m')"
    by (metis prod_cases3)
  have "state_labels [(''a.com'', sample_state)] = {(''a.com'', ''http://app:8080'')}"
    by (simp add: state_labels_def sample_state_def sample_upstream_def build_upstream_def Let_def upstream_labels_def
        sample_url_def)
  then have "um_healthy m' = []"
    using replace_tenant_states_metrics [OF _ _ r] by (simp add: state_labels_def)
  then show ?thesis using r by blast
qed

end
