(* ===== verification/GoEncoding.thy ===== *)
theory GoEncoding
  imports GoStrings
begin

text \<open>
  Decoders of the Go library that the program uses: \<open>encoding/base64\<close> (the
  standard and the URL alphabet, with and without padding) and the values that
  \<open>encoding/json\<close> decodes into an \<open>any\<close>, and the scanner behind \<open>json.Valid\<close>.
  Decoding of JSON text into values is a parameter of the definitions that use it.
\<close>

subsection \<open>Base64\<close>

text \<open>The value of a digit; \<open>url\<close> selects the alphabet.\<close>

definition b64_value :: "bool \<Rightarrow> char \<Rightarrow> int option" where
  "b64_value url c =
     (let b = byte_val c in
      if is_upper_byte c then Some (b - 65)
      else if is_lower_byte c then Some (b - 97 + 26)
      else if is_digit_byte c then Some (b - 48 + 52)
      else if c = (if url then CHR ''-'' else CHR ''+'') then Some 62
      else if c = (if url then CHR ''_'' else CHR ''/'') then Some 63
      else None)"

fun b64_digits :: "bool \<Rightarrow> string \<Rightarrow> int list option" where
  "b64_digits url [] = Some []"
| "b64_digits url (c # cs) =
     (case b64_value url c of
        None \<Rightarrow> None
      | Some v \<Rightarrow> map_option ((#) v) (b64_digits url cs))"

definition byte_char :: "int \<Rightarrow> char" where
  "byte_char v = char_of (nat (v mod 256))"

text \<open>Four digits are three bytes; a last group of two or three digits is one or two bytes.\<close>

fun b64_groups :: "int list \<Rightarrow> string option" where
  "b64_groups (a # b # c # d # vs) =
     (let v = ((a * 64 + b) * 64 + c) * 64 + d in
      map_option (\<lambda>r. byte_char (v div 65536) # byte_char (v div 256) # byte_char v # r) (b64_groups vs))"
| "b64_groups [a, b, c] =
     (let v = (a * 64 + b) * 64 + c in Some [byte_char (v div 1024), byte_char (v div 4)])"
| "b64_groups [a, b] = Some [byte_char ((a * 64 + b) div 16)]"
| "b64_groups [a] = None"
| "b64_groups [] = Some []"

definition drop_newlines :: "string \<Rightarrow> string" where
  "drop_newlines s = filter (\<lambda>c. c \<noteq> CHR 0x0A \<and> c \<noteq> CHR 0x0D) s"

text \<open>\<open>RawURLEncoding.DecodeString\<close>: no padding.\<close>

definition b64_decode_raw :: "bool \<Rightarrow> string \<Rightarrow> string option" where
  "b64_decode_raw url s = Option.bind (b64_digits url (drop_newlines s)) b64_groups"

text \<open>\<open>URLEncoding.DecodeString\<close> and \<open>StdEncoding.DecodeString\<close>: padded to groups of four.\<close>

definition b64_decode :: "bool \<Rightarrow> string \<Rightarrow> string option" where
  "b64_decode url s =
     (let t = drop_newlines s;
          u = (if has_suffix t ''=='' then take (length t - 2) t
               else if has_suffix t ''='' then take (length t - 1) t else t)
      in if length t mod 4 \<noteq> 0 then None
         else Option.bind (b64_digits url u) b64_groups)"

subsection \<open>JSON values\<close>

datatype json =
    JNull
  | JBool bool
  | JNumber string
  | JString string
  | JArray "json list"
  | JObject "(string \<times> json) list"

text \<open>A type assertion \<open>v.(string)\<close> on the value of a key, with the zero value when it fails.\<close>

definition json_string :: "(string \<times> json) list \<Rightarrow> string \<Rightarrow> string option" where
  "json_string m k = (case map_of m k of Some (JString s) \<Rightarrow> Some s | _ \<Rightarrow> None)"

definition json_string_or_empty :: "(string \<times> json) list \<Rightarrow> string \<Rightarrow> string" where
  "json_string_or_empty m k = (case json_string m k of Some s \<Rightarrow> s | None \<Rightarrow> [])"

subsection \<open>json.Valid\<close>

text \<open>
  The scanner of \<open>encoding/json\<close>: every function returns what follows the part it reads, or \<open>None\<close> when the text is
  not JSON.  The first argument is fuel, the second the nesting depth.
\<close>

definition json_space :: "string \<Rightarrow> string" where
  "json_space = dropWhile (\<lambda>c. byte_val c \<in> {9, 10, 13, 32})"

definition is_hex_byte :: "char \<Rightarrow> bool" where
  "is_hex_byte c \<longleftrightarrow> is_digit_byte c \<or> (97 \<le> byte_val (lower_byte c) \<and> byte_val (lower_byte c) \<le> 102)"

text \<open>The rest of a string, behind its opening quote.\<close>

fun json_string_rest :: "string \<Rightarrow> string option" where
  "json_string_rest [] = None"
| "json_string_rest (c # s) =
     (if c = CHR 0x22 then Some s
      else if c = CHR 0x5C then
        (case s of
           [] \<Rightarrow> None
         | e # s' \<Rightarrow>
             if e \<in> set ''bfnrt/'' \<or> e = CHR 0x22 \<or> e = CHR 0x5C then json_string_rest s'
             else if e = CHR ''u'' then
               (case s' of
                  h1 # h2 # h3 # h4 # s'' \<Rightarrow> if list_all is_hex_byte [h1, h2, h3, h4] then json_string_rest s'' else None
                | _ \<Rightarrow> None)
             else None)
      else if byte_val c < 32 then None
      else json_string_rest s)"

definition json_digits :: "string \<Rightarrow> string option" where
  "json_digits s = (case s of c # r \<Rightarrow> if is_digit_byte c then Some (dropWhile is_digit_byte r) else None | [] \<Rightarrow> None)"

definition json_fraction :: "string \<Rightarrow> string option" where
  "json_fraction s = (case s of c # r \<Rightarrow> if c = CHR ''.'' then json_digits r else Some s | [] \<Rightarrow> Some s)"

definition json_exponent :: "string \<Rightarrow> string option" where
  "json_exponent s =
     (case s of
        c # r \<Rightarrow> if c = CHR ''e'' \<or> c = CHR ''E''
                 then json_digits (case r of d # r' \<Rightarrow> if d = CHR ''+'' \<or> d = CHR ''-'' then r' else r | [] \<Rightarrow> [])
                 else Some s
      | [] \<Rightarrow> Some s)"

definition json_number :: "string \<Rightarrow> string option" where
  "json_number s =
     (let s = (case s of c # r \<Rightarrow> if c = CHR ''-'' then r else s | [] \<Rightarrow> []) in
      case (case s of c # r \<Rightarrow> if c = CHR ''0'' then Some r else json_digits s | [] \<Rightarrow> None) of
        None \<Rightarrow> None
      | Some r \<Rightarrow> (case json_fraction r of None \<Rightarrow> None | Some r \<Rightarrow> json_exponent r))"

definition json_max_depth :: nat where
  "json_max_depth = 10000"

fun json_value :: "nat \<Rightarrow> nat \<Rightarrow> string \<Rightarrow> string option"
  and json_elements :: "nat \<Rightarrow> nat \<Rightarrow> string \<Rightarrow> string option"
  and json_members :: "nat \<Rightarrow> nat \<Rightarrow> string \<Rightarrow> string option" where
  "json_value 0 depth s = None"
| "json_value (Suc n) depth s =
     (case json_space s of
        [] \<Rightarrow> None
      | c # r \<Rightarrow>
          if c = CHR 0x22 then json_string_rest r
          else if c = CHR ''{'' then
            (if json_max_depth \<le> depth then None
             else case json_space r of
               [] \<Rightarrow> None
             | d # r' \<Rightarrow> if d = CHR ''}'' then Some r' else json_members n (Suc depth) r)
          else if c = CHR ''['' then
            (if json_max_depth \<le> depth then None
             else case json_space r of
               [] \<Rightarrow> None
             | d # r' \<Rightarrow> if d = CHR '']'' then Some r' else json_elements n (Suc depth) r)
          else if c = CHR ''t'' then cut_prefix r ''rue''
          else if c = CHR ''f'' then cut_prefix r ''alse''
          else if c = CHR ''n'' then cut_prefix r ''ull''
          else json_number (c # r))"
| "json_elements 0 depth s = None"
| "json_elements (Suc n) depth s =
     (case json_value n depth s of
        None \<Rightarrow> None
      | Some r \<Rightarrow>
          (case json_space r of
             [] \<Rightarrow> None
           | c # r' \<Rightarrow> if c = CHR '','' then json_elements n depth r' else if c = CHR '']'' then Some r' else None))"
| "json_members 0 depth s = None"
| "json_members (Suc n) depth s =
     (case json_space s of
        [] \<Rightarrow> None
      | q # r \<Rightarrow>
          if q \<noteq> CHR 0x22 then None
          else case json_string_rest r of
            None \<Rightarrow> None
          | Some r \<Rightarrow>
              (case json_space r of
                 [] \<Rightarrow> None
               | c # r \<Rightarrow>
                   if c \<noteq> CHR '':'' then None
                   else case json_value n depth r of
                     None \<Rightarrow> None
                   | Some r \<Rightarrow>
                       (case json_space r of
                          [] \<Rightarrow> None
                        | c # r \<Rightarrow> if c = CHR '','' then json_members n depth r else if c = CHR ''}'' then Some r else None)))"

definition json_fuel :: "string \<Rightarrow> nat" where
  "json_fuel s = 2 * length s + 1"

definition json_valid :: "string \<Rightarrow> bool" where
  "json_valid s \<longleftrightarrow> (case json_value (json_fuel s) 0 s of None \<Rightarrow> False | Some r \<Rightarrow> json_space r = [])"

text \<open>The fuel is enough: more of it does not change the answer.\<close>

lemma length_json_space: "length (json_space s) \<le> length s"
  by (simp add: json_space_def length_dropWhile_le)

lemma json_space_Cons: "json_space s = c # r \<Longrightarrow> length r < length s"
  using length_json_space [of s] by simp

lemma json_string_rest_length: "json_string_rest s = Some r \<Longrightarrow> length r < length s"
proof (induction s rule: length_induct)
  case (1 s)
  have IH: "length r < length t" if "length t < length s" "json_string_rest t = Some r" for t using 1(1) that by blast
  show ?case
  proof (cases s)
    case Nil
    then show ?thesis using 1(2) by simp
  next
    case (Cons c t)
    then show ?thesis using 1(2) by (auto split: if_splits list.splits dest: IH [rotated])
  qed
qed

lemma json_digits_length: "json_digits s = Some r \<Longrightarrow> length r < length s"
  using length_dropWhile_le [of is_digit_byte] by (auto simp: json_digits_def le_imp_less_Suc split: list.splits if_splits)

lemma json_number_length: "json_number s = Some r \<Longrightarrow> length r < length s"
  by (auto simp: json_number_def json_fraction_def json_exponent_def Let_def dest!: json_digits_length
      split: list.splits if_splits option.splits)

lemma cut_prefix_length: "cut_prefix s p = Some r \<Longrightarrow> length r \<le> length s"
  by (simp add: cut_prefix_Some)

lemma json_length_all:
  "(\<forall>depth s r. json_value n depth s = Some r \<longrightarrow> length r < length s) \<and>
   (\<forall>depth s r. json_elements n depth s = Some r \<longrightarrow> length r < length s) \<and>
   (\<forall>depth s r. json_members n depth s = Some r \<longrightarrow> length r < length s)"
proof (induction n)
  case 0
  show ?case by simp
next
  case (Suc n)
  have v: "length r < length s" if "json_value n depth s = Some r" for depth s r using Suc that by blast
  have e: "length r < length s" if "json_elements n depth s = Some r" for depth s r using Suc that by blast
  have m: "length r < length s" if "json_members n depth s = Some r" for depth s r using Suc that by blast
  have "length r < length s" if "json_value (Suc n) depth s = Some r" for depth s r
    using that by (auto split: list.splits if_splits dest!: json_space_Cons json_string_rest_length e m cut_prefix_length json_number_length)
  moreover have "length r < length s" if "json_elements (Suc n) depth s = Some r" for depth s r
    using that by (auto split: list.splits option.splits if_splits dest!: json_space_Cons v e)
  moreover have "length r < length s" if "json_members (Suc n) depth s = Some r" for depth s r
    using that by (auto split: list.splits option.splits if_splits dest!: json_space_Cons json_string_rest_length v m)
  ultimately show ?case by blast
qed

lemma json_value_length: "json_value n depth s = Some r \<Longrightarrow> length r < length s"
  using json_length_all by blast

lemma json_enough_fuel_all:
  "(\<forall>m depth s. json_fuel s \<le> n \<longrightarrow> n \<le> m \<longrightarrow> json_value m depth s = json_value n depth s) \<and>
   (\<forall>m depth s. json_fuel s < n \<longrightarrow> n \<le> m \<longrightarrow> json_elements m depth s = json_elements n depth s) \<and>
   (\<forall>m depth s. json_fuel s < n \<longrightarrow> n \<le> m \<longrightarrow> json_members m depth s = json_members n depth s)"
proof (induction n)
  case 0
  show ?case by (simp add: json_fuel_def)
next
  case (Suc n)
  have v: "json_value m depth s = json_value n depth s" if "json_fuel s \<le> n" "n \<le> m" for m depth s
    by (rule conjunct1 [OF Suc.IH, rule_format, OF that])
  have e: "json_elements m depth s = json_elements n depth s" if "json_fuel s < n" "n \<le> m" for m depth s
    by (rule conjunct1 [OF conjunct2 [OF Suc.IH], rule_format, OF that])
  have b: "json_members m depth s = json_members n depth s" if "json_fuel s < n" "n \<le> m" for m depth s
    by (rule conjunct2 [OF conjunct2 [OF Suc.IH], rule_format, OF that])
  have less: "json_fuel r < n" if "json_fuel s \<le> Suc n" "length r < length s" for r s
    using that by (simp add: json_fuel_def)
  have A: "json_value (Suc m) depth s = json_value (Suc n) depth s" if *: "json_fuel s \<le> Suc n" "n \<le> m" for m depth s
  proof (cases "json_space s")
    case (Cons c r)
    have "json_fuel r < n" using less [OF *(1) json_space_Cons [OF Cons]] .
    then show ?thesis by (simp only: json_value.simps Cons list.case e [OF _ *(2)] b [OF _ *(2)])
  qed simp
  have B: "json_elements (Suc m) depth s = json_elements (Suc n) depth s" if *: "json_fuel s < Suc n" "n \<le> m" for m depth s
  proof -
    have "json_elements m depth r' = json_elements n depth r'" if "json_value n depth s = Some r" "json_space r = c # r'" for r c r'
      using json_value_length [OF that(1)] json_space_Cons [OF that(2)] *(2)
      by (intro e less [OF less_imp_le [OF *(1)]]) auto
    then show ?thesis using v [of s m depth] * by (auto split: list.split option.split)
  qed
  have C: "json_members (Suc m) depth s = json_members (Suc n) depth s" if *: "json_fuel s < Suc n" "n \<le> m" for m depth s
  proof -
    have 1: "json_value m depth r = json_value n depth r" if "length r < length s" for r
      using less [OF less_imp_le [OF *(1)] that] *(2) by (intro v) auto
    have 2: "json_members m depth r = json_members n depth r" if "length r < length s" for r
      using less [OF less_imp_le [OF *(1)] that] *(2) by (intro b) auto
    show ?thesis
    proof (cases "json_space s")
      case (Cons q r)
      note q = Cons
      show ?thesis
      proof (cases "json_string_rest r")
        case (Some r1)
        note r1 = Some
        show ?thesis
        proof (cases "json_space r1")
          case (Cons c r2)
          have l: "length r2 < length s"
            using json_space_Cons [OF q] json_string_rest_length [OF r1] json_space_Cons [OF Cons] by linarith
          have "json_members m depth r4 = json_members n depth r4"
            if "json_value n depth r2 = Some r3" "json_space r3 = d # r4" for r3 d r4
            using json_value_length [OF that(1)] json_space_Cons [OF that(2)] l by (intro 2) linarith
          then show ?thesis by (simp add: q r1 Cons 1 [OF l] split: option.split list.split)
        qed (simp add: q r1)
      qed (simp add: q)
    qed simp
  qed
  show ?case
  proof (intro conjI allI impI)
    fix m depth s
    assume m: "Suc n \<le> m"
    then obtain k where k: "m = Suc k" "n \<le> k" by (auto dest: Suc_le_D)
    show "json_value m depth s = json_value (Suc n) depth s" if "json_fuel s \<le> Suc n"
      unfolding k(1) by (rule A [OF that k(2)])
    show "json_elements m depth s = json_elements (Suc n) depth s" if "json_fuel s < Suc n"
      unfolding k(1) by (rule B [OF that k(2)])
    show "json_members m depth s = json_members (Suc n) depth s" if "json_fuel s < Suc n"
      unfolding k(1) by (rule C [OF that k(2)])
  qed
qed

lemma json_valid_fuel:
  assumes "json_fuel s \<le> n"
  shows "json_valid s \<longleftrightarrow> (case json_value n 0 s of None \<Rightarrow> False | Some r \<Rightarrow> json_space r = [])"
  unfolding json_valid_def conjunct1 [OF json_enough_fuel_all, rule_format, OF order_refl assms] ..

end
