(* ===== verification/Contracts.thy ===== *)
theory Contracts
  imports Prelude
begin

text \<open>
  The interfaces that several components share.

  \<^item> \<open>transition_system\<close>: an initial condition, a step relation and an invariant
    that every step keeps; then every reachable state has the invariant.
  \<^item> \<open>simulation\<close>: a transition system that implements an abstract one.
  \<^item> \<open>bounded_store\<close>: a keyed store whose insertion keeps an invariant, never
    exceeds a capacity and makes the inserted value readable; then this holds
    after every sequence of insertions.
\<close>

inductive reachable :: "('s \<Rightarrow> bool) \<Rightarrow> ('s \<Rightarrow> 's \<Rightarrow> bool) \<Rightarrow> 's \<Rightarrow> bool" for init step where
  reachable_init: "init s \<Longrightarrow> reachable init step s"
| reachable_step: "\<lbrakk> reachable init step s; step s t \<rbrakk> \<Longrightarrow> reachable init step t"

locale transition_system =
  fixes init :: "'s \<Rightarrow> bool" and step :: "'s \<Rightarrow> 's \<Rightarrow> bool" and inv :: "'s \<Rightarrow> bool"
  assumes init_inv: "init s \<Longrightarrow> inv s"
    and step_inv: "\<lbrakk> inv s; step s t \<rbrakk> \<Longrightarrow> inv t"
begin

lemma reachable_inv: "reachable init step s \<Longrightarrow> inv s"
  by (induction rule: reachable.induct) (auto intro: init_inv step_inv)

end

text \<open>
  \<open>simulation\<close>: a transition system whose states stand for states of an abstract one, such that every step is an abstract step or
  leaves the abstract state as it is; then every reachable state stands for a reachable abstract state.
\<close>

locale simulation = transition_system init step inv
  for init :: "'s \<Rightarrow> bool" and step :: "'s \<Rightarrow> 's \<Rightarrow> bool" and inv :: "'s \<Rightarrow> bool" +
  fixes abs_init :: "'a \<Rightarrow> bool" and abs_step :: "'a \<Rightarrow> 'a \<Rightarrow> bool" and abs_of :: "'s \<Rightarrow> 'a"
  assumes init_simulated: "init s \<Longrightarrow> abs_init (abs_of s)"
    and step_simulated: "\<lbrakk> inv s; step s t \<rbrakk> \<Longrightarrow> abs_of t = abs_of s \<or> abs_step (abs_of s) (abs_of t)"
begin

lemma reachable_simulated: "reachable init step s \<Longrightarrow> reachable abs_init abs_step (abs_of s)"
proof (induction rule: reachable.induct)
  case (reachable_init s)
  then show ?case by (intro reachable.reachable_init init_simulated)
next
  case (reachable_step s t)
  then show ?case
    using step_simulated [OF reachable_inv] by (metis reachable.reachable_step)
qed

end

locale bounded_store =
  fixes get :: "'c \<Rightarrow> 'k \<Rightarrow> 'v option"
    and put :: "'op \<Rightarrow> 'c \<Rightarrow> 'c"
    and valid :: "'op \<Rightarrow> bool" and accepts :: "'op \<Rightarrow> 'c \<Rightarrow> bool"
    and key_of :: "'op \<Rightarrow> 'k" and val_of :: "'op \<Rightarrow> 'v"
    and load :: "'c \<Rightarrow> nat" and inv :: "'c \<Rightarrow> bool" and cap :: nat
  assumes put_inv: "\<lbrakk> inv c; valid x \<rbrakk> \<Longrightarrow> inv (put x c)"
    and inv_load: "inv c \<Longrightarrow> load c \<le> cap"
    and get_put: "\<lbrakk> inv c; valid x; accepts x c \<rbrakk> \<Longrightarrow> get (put x c) (key_of x) = Some (val_of x)"
    and rejected: "\<lbrakk> inv c; \<not> accepts x c \<rbrakk> \<Longrightarrow> get (put x c) k = get c k"
begin

lemma puts_inv: "\<lbrakk> inv c; list_all valid xs \<rbrakk> \<Longrightarrow> inv (fold put xs c)"
  by (induction xs arbitrary: c) (auto intro: put_inv)

lemma puts_bounded: "\<lbrakk> inv c; list_all valid xs \<rbrakk> \<Longrightarrow> load (fold put xs c) \<le> cap"
  by (intro inv_load puts_inv)

lemma last_put_readable:
  "\<lbrakk> inv c; list_all valid (xs @ [x]); accepts x (fold put xs c) \<rbrakk> \<Longrightarrow>
   get (fold put (xs @ [x]) c) (key_of x) = Some (val_of x)"
  by (simp add: get_put puts_inv)

end

text \<open>
  \<open>chunker\<close>: a text is cut into chunks by a function for the end of the chunk
  that starts at a position and one for the start of the next chunk.  Every
  chunk makes progress, has at most \<open>width\<close> bytes, and the next one begins at
  least \<open>overlap\<close> bytes before its end.  Then the cutting ends, and every piece
  of the text of at most \<open>overlap + 1\<close> bytes is inside one chunk.
\<close>

definition slice :: "string \<Rightarrow> nat \<Rightarrow> nat \<Rightarrow> string" where
  "slice t a b = take (b - a) (drop a t)"

lemma length_slice: "a \<le> b \<Longrightarrow> b \<le> length t \<Longrightarrow> length (slice t a b) = b - a"
  by (simp add: slice_def)

lemma slice_all [simp]: "slice t 0 (length t) = t"
  by (simp add: slice_def)

lemma slice_inside:
  assumes "a \<le> i" "i + l \<le> b"
  shows "\<exists>u v. slice t a b = u @ take l (drop i t) @ v"
proof -
  have "b - a = (i - a) + (l + (b - (i + l)))" using assms by simp
  then have "slice t a b = take (i - a) (drop a t) @ take l (drop i t) @ take (b - (i + l)) (drop (i + l) t)"
    unfolding slice_def using assms(1) by (simp only: take_add drop_drop) (simp add: add.commute)
  then show ?thesis by blast
qed

locale chunker =
  fixes ok :: "string \<Rightarrow> bool"
    and end_of next_of :: "string \<Rightarrow> nat \<Rightarrow> nat"
    and chunks :: "string \<Rightarrow> nat \<Rightarrow> string list option"
    and width overlap :: nat
  assumes end_law: "\<lbrakk> ok t; s < length t \<rbrakk> \<Longrightarrow> s < end_of t s \<and> end_of t s \<le> length t \<and> end_of t s \<le> s + width"
    and next_law: "\<lbrakk> ok t; s < length t; end_of t s < length t \<rbrakk> \<Longrightarrow> s < next_of t s \<and> next_of t s + overlap \<le> end_of t s"
    and chunks_law: "\<lbrakk> ok t; s < length t \<rbrakk> \<Longrightarrow> chunks t s =
      (if end_of t s = length t then Some [slice t s (end_of t s)]
       else map_option ((#) (slice t s (end_of t s))) (chunks t (next_of t s)))"
begin

lemma chunks_cover:
  assumes "ok t" "s < length t"
  shows "\<exists>cs. chunks t s = Some cs \<and> (\<forall>c \<in> set cs. 0 < length c \<and> length c \<le> width) \<and>
    (\<forall>i l. s \<le> i \<and> i + l \<le> length t \<and> l \<le> Suc overlap \<longrightarrow> (\<exists>c \<in> set cs. \<exists>u v. c = u @ take l (drop i t) @ v))"
  using assms(2)
proof (induction "length t - s" arbitrary: s rule: less_induct)
  case less
  let ?e = "end_of t s"
  have e: "s < ?e" "?e \<le> length t" "?e \<le> s + width" using end_law [OF assms(1) less.prems] by auto
  have c: "0 < length (slice t s ?e)" "length (slice t s ?e) \<le> width" using e by (auto simp: length_slice)
  have here: "\<exists>u v. slice t s ?e = u @ take l (drop i t) @ v" if "s \<le> i" "i + l \<le> ?e" for i l
    using slice_inside [OF that] .
  show ?case
  proof (cases "?e = length t")
    case True
    then have "chunks t s = Some [slice t s ?e]" using chunks_law [OF assms(1) less.prems] by simp
    then show ?thesis using c here True by auto
  next
    case False
    then have n: "s < next_of t s" "next_of t s + overlap \<le> ?e"
      using next_law [OF assms(1) less.prems] e by auto
    then have nl: "next_of t s < length t" using e False by linarith
    then have "length t - next_of t s < length t - s" using n(1) by linarith
    from less.hyps [OF this nl] obtain cs where cs: "chunks t (next_of t s) = Some cs" "\<forall>c \<in> set cs. 0 < length c \<and> length c \<le> width"
      "\<forall>i l. next_of t s \<le> i \<and> i + l \<le> length t \<and> l \<le> Suc overlap \<longrightarrow> (\<exists>c \<in> set cs. \<exists>u v. c = u @ take l (drop i t) @ v)"
      by blast
    have "chunks t s = Some (slice t s ?e # cs)" using chunks_law [OF assms(1) less.prems] False cs(1) by simp
    moreover have "\<exists>c \<in> set (slice t s ?e # cs). \<exists>u v. c = u @ take l (drop i t) @ v"
      if "s \<le> i" "i + l \<le> length t" "l \<le> Suc overlap" for i l
    proof (cases "i + l \<le> ?e")
      case True
      then show ?thesis using here that(1) by simp
    next
      case False
      then have "next_of t s \<le> i" using n(2) that(3) by linarith
      then show ?thesis using cs(3) that(2,3) by fastforce
    qed
    ultimately show ?thesis using c cs(2) by (intro exI [of _ "slice t s ?e # cs"]) simp
  qed
qed

end

end
