(* ===== verification/Jwks.thy ===== *)
theory Jwks
  imports Upstream GoEncoding Contracts
begin

text \<open>
  JWT validation and the cache of JSON web key sets
  (\<open>internal/waf/middleware.go\<close>).  Cache entries are compared by pointer in
  the source: an entry carries the number of its allocation.  The HTTP client,
  the JSON decoder, the curve check of \<open>crypto/ecdsa\<close> and the JWT library are
  parameters.
\<close>

subsection \<open>Keys\<close>

datatype jwk_key =
    RsaKey int int
  | EcKey string string
  | Ed25519Key string

datatype jwk_error =
    MissingField string
  | BadEncoding
  | UnsupportedCurve string
  | InvalidKeySize
  | InvalidEcKey
  | UnsupportedKeyType string

(* src: internal/waf/middleware.go:180 maxJWKSResponseBytes *)
definition max_jwks_response_bytes :: int where
  "max_jwks_response_bytes = 2 ^ 20"

(* src: internal/waf/middleware.go:181 maxJWKSKeys *)
definition max_jwks_keys :: int where
  "max_jwks_keys = 100"

(* src: internal/waf/middleware.go:182 maxJWKSCacheEntries *)
definition max_jwks_cache_entries :: nat where
  "max_jwks_cache_entries = 256"

(* src: internal/waf/middleware.go:183 maxJWKSCacheTTL *)
definition max_jwks_cache_ttl :: duration where
  "max_jwks_cache_ttl = 60 * minute"

(* src: internal/waf/middleware.go:184 minJWKSForcedRefreshDelay *)
definition min_jwks_forced_refresh_delay :: duration where
  "min_jwks_forced_refresh_delay = 30 * second"

(* src: internal/waf/middleware.go:196-202 decodeBase64URL *)
definition decode_base64_url :: "string \<Rightarrow> string option" where
  "decode_base64_url s = (case b64_decode_raw True s of None \<Rightarrow> b64_decode True s | Some b \<Rightarrow> Some b)"

text \<open>\<open>big.Int.SetBytes\<close>: big endian.\<close>

definition bytes_int :: "string \<Rightarrow> int" where
  "bytes_int bs = foldl (\<lambda>n b. n * 256 + byte_val b) 0 bs"

(* src: internal/waf/middleware.go:188-194 decodeBase64UrlUint *)
definition decode_base64_url_uint :: "string \<Rightarrow> int option" where
  "decode_base64_url_uint s = map_option bytes_int (decode_base64_url s)"

text \<open>The loop over the exponent bytes computes in a 64-bit \<open>int\<close>.\<close>

(* src: internal/waf/middleware.go:224-227 parseJWK (RSA exponent) *)
definition rsa_exponent :: "string \<Rightarrow> int" where
  "rsa_exponent bs = foldl (\<lambda>e b. wrap64 (e * 256 + byte_val b)) 0 bs"

(* src: internal/waf/middleware.go:236-250 parseJWK (EC curve) *)
definition coordinate_size :: "string \<Rightarrow> nat option" where
  "coordinate_size crv =
     (if crv = ''P-256'' then Some 32
      else if crv = ''P-384'' then Some 48
      else if crv = ''P-521'' then Some 66
      else None)"

text \<open>A big-endian coordinate is padded with zero bytes on the left.\<close>

(* src: internal/waf/middleware.go:262-265 parseJWK (EC point) *)
definition uncompressed_point :: "nat \<Rightarrow> string \<Rightarrow> string \<Rightarrow> string" where
  "uncompressed_point sz x y =
     CHR 0x04 # replicate (sz - length x) (CHR 0x00) @ x @ replicate (sz - length y) (CHR 0x00) @ y"

(* src: internal/waf/middleware.go:207-228 parseJWK (RSA) *)
definition parse_rsa_jwk :: "(string \<times> json) list \<Rightarrow> jwk_error + jwk_key" where
  "parse_rsa_jwk m =
     (let n_str = json_string_or_empty m ''n''; e_str = json_string_or_empty m ''e''
      in if n_str = [] \<or> e_str = [] then Inl (MissingField ''n or e'')
         else case decode_base64_url_uint n_str of
                None \<Rightarrow> Inl BadEncoding
              | Some n \<Rightarrow>
                  (case decode_base64_url e_str of
                     None \<Rightarrow> Inl BadEncoding
                   | Some e_bytes \<Rightarrow> Inr (RsaKey n (rsa_exponent e_bytes))))"

(* src: internal/waf/middleware.go:229-270 parseJWK (EC) *)
definition parse_ec_jwk :: "(string \<Rightarrow> string \<Rightarrow> bool) \<Rightarrow> (string \<times> json) list \<Rightarrow> jwk_error + jwk_key" where
  "parse_ec_jwk on_curve m =
     (let crv = json_string_or_empty m ''crv''; x_str = json_string_or_empty m ''x''; y_str = json_string_or_empty m ''y''
      in if crv = [] \<or> x_str = [] \<or> y_str = [] then Inl (MissingField ''crv, x, or y'')
         else case coordinate_size crv of
                None \<Rightarrow> Inl (UnsupportedCurve crv)
              | Some sz \<Rightarrow>
                  (case decode_base64_url x_str of
                     None \<Rightarrow> Inl BadEncoding
                   | Some x \<Rightarrow>
                       (case decode_base64_url y_str of
                          None \<Rightarrow> Inl BadEncoding
                        | Some y \<Rightarrow>
                            if length x > sz \<or> length y > sz then Inl InvalidKeySize
                            else let public_key = uncompressed_point sz x y
                                 in if on_curve crv public_key then Inr (EcKey crv public_key) else Inl InvalidEcKey)))"

(* src: internal/waf/middleware.go:271-284 parseJWK (OKP) *)
definition parse_okp_jwk :: "(string \<times> json) list \<Rightarrow> jwk_error + jwk_key" where
  "parse_okp_jwk m =
     (let crv = json_string_or_empty m ''crv''; x_str = json_string_or_empty m ''x''
      in if crv \<noteq> ''Ed25519'' then Inl (UnsupportedCurve crv)
         else case decode_base64_url x_str of
                None \<Rightarrow> Inl BadEncoding
              | Some x \<Rightarrow> if length x \<noteq> 32 then Inl InvalidKeySize else Inr (Ed25519Key x))"

(* src: internal/waf/middleware.go:204-288 parseJWK *)
definition parse_jwk :: "(string \<Rightarrow> string \<Rightarrow> bool) \<Rightarrow> (string \<times> json) list \<Rightarrow> jwk_error + jwk_key" where
  "parse_jwk on_curve m =
     (let kty = json_string_or_empty m ''kty''
      in if kty = ''RSA'' then parse_rsa_jwk m
         else if kty = ''EC'' then parse_ec_jwk on_curve m
         else if kty = ''OKP'' then parse_okp_jwk m
         else Inl (UnsupportedKeyType kty))"

subsection \<open>Algorithms\<close>

text \<open>The signing methods of the JWT library by their Go type.\<close>

datatype signing_method = MethodRSA | MethodRSAPSS | MethodECDSA | MethodEd25519 | MethodHMAC | MethodNone

(* src: internal/waf/middleware.go:292-297 jwtValidMethods *)
definition jwt_valid_methods :: "string list" where
  "jwt_valid_methods =
     [''RS256'', ''RS384'', ''RS512'', ''PS256'', ''PS384'', ''PS512'', ''ES256'', ''ES384'', ''ES512'', ''EdDSA'']"

(* src: internal/waf/middleware.go:301-315 jwtKeyMatchesMethod *)
fun jwt_key_matches_method :: "signing_method \<Rightarrow> jwk_key \<Rightarrow> bool" where
  "jwt_key_matches_method MethodRSA key = (case key of RsaKey _ _ \<Rightarrow> True | _ \<Rightarrow> False)"
| "jwt_key_matches_method MethodRSAPSS key = (case key of RsaKey _ _ \<Rightarrow> True | _ \<Rightarrow> False)"
| "jwt_key_matches_method MethodECDSA key = (case key of EcKey _ _ \<Rightarrow> True | _ \<Rightarrow> False)"
| "jwt_key_matches_method MethodEd25519 key = (case key of Ed25519Key _ \<Rightarrow> True | _ \<Rightarrow> False)"
| "jwt_key_matches_method _ key = False"

subsection \<open>The cache\<close>

(* src: internal/waf/middleware.go:163-167 jwksCacheEntry *)
record jwks_cache_entry =
  je_id :: nat
  je_keys :: "(string \<times> jwk_key) list"
  je_expires_at :: time
  je_last_forced_refresh :: time

text \<open>
  The refresh locks are objects: \<open>lt_map\<close> is the map \<open>jwksLocks\<close> from endpoints
  to lock objects, \<open>lt_refs\<close> the field \<open>refs\<close> of every object.
\<close>

(* src: internal/waf/middleware.go:169-172 jwksRefreshLock *)
record lock_table =
  lt_map :: "(string \<times> nat) list"
  lt_refs :: "nat \<Rightarrow> int"
  lt_next :: nat

(* src: internal/waf/middleware.go:507-520 ProxyHandler.acquireJWKSRefreshLock *)
definition acquire_jwks_refresh_lock :: "string \<Rightarrow> lock_table \<Rightarrow> nat \<times> lock_table" where
  "acquire_jwks_refresh_lock endpoint lt =
     (let (lock, lt) =
        (case map_of (lt_map lt) endpoint of
           Some l \<Rightarrow> (l, lt)
         | None \<Rightarrow> (lt_next lt,
                    lt\<lparr>lt_map := assoc_put endpoint (lt_next lt) (lt_map lt),
                       lt_refs := (lt_refs lt)(lt_next lt := 0), lt_next := lt_next lt + 1\<rparr>))
      in (lock, lt\<lparr>lt_refs := (lt_refs lt)(lock := lt_refs lt lock + 1)\<rparr>))"

(* src: internal/waf/middleware.go:522-529 ProxyHandler.releaseJWKSRefreshLock *)
definition release_jwks_refresh_lock :: "string \<Rightarrow> nat \<Rightarrow> lock_table \<Rightarrow> lock_table" where
  "release_jwks_refresh_lock endpoint lock lt =
     (let refs = lt_refs lt lock - 1;
          lt = lt\<lparr>lt_refs := (lt_refs lt)(lock := refs)\<rparr>
      in if refs = 0 then lt\<lparr>lt_map := assoc_del endpoint (lt_map lt)\<rparr> else lt)"

text \<open>\<open>jw_fetches\<close> records the requests to the key set endpoints; \<open>jw_next\<close> numbers allocations.\<close>

record jwks_state =
  jw_cache :: "(string \<times> jwks_cache_entry) list"
  jw_locks :: lock_table
  jw_fetches :: "(string \<times> time) list"
  jw_next :: nat

(* src: internal/waf/middleware.go:499-505 ProxyHandler.loadJWKSCacheEntry *)
definition load_jwks_cache_entry :: "(string \<times> jwks_cache_entry) list \<Rightarrow> string \<Rightarrow> jwks_cache_entry option" where
  "load_jwks_cache_entry cache endpoint = map_of cache endpoint"

text \<open>
  The callback of \<open>Range\<close> in \<open>storeJWKSCacheEntry\<close>, over the entries in the
  order of the iteration: the entries that are kept, their number, and the
  endpoint that expires first among the others.
\<close>

(* src: internal/waf/middleware.go:537-553 storeJWKSCacheEntry (Range) *)
fun scan_jwks_cache ::
  "string \<Rightarrow> time \<Rightarrow> (string \<times> jwks_cache_entry) list \<Rightarrow> int \<Rightarrow> string \<Rightarrow> time \<Rightarrow>
   (string \<times> jwks_cache_entry) list \<times> int \<times> string" where
  "scan_jwks_cache endpoint now [] n oldest oldest_expiry = ([], n, oldest)"
| "scan_jwks_cache endpoint now ((cached_endpoint, cached) # rest) n oldest oldest_expiry =
     (if cached_endpoint \<noteq> endpoint \<and> \<not> now < je_expires_at cached
      then scan_jwks_cache endpoint now rest n oldest oldest_expiry
      else
        let (oldest, oldest_expiry) =
              (if cached_endpoint \<noteq> endpoint \<and> (oldest = [] \<or> je_expires_at cached < oldest_expiry)
               then (cached_endpoint, je_expires_at cached) else (oldest, oldest_expiry));
            (kept, n', o') = scan_jwks_cache endpoint now rest (n + 1) oldest oldest_expiry
        in ((cached_endpoint, cached) # kept, n', o'))"

(* src: internal/waf/middleware.go:531-557 ProxyHandler.storeJWKSCacheEntry *)
definition store_jwks_cache_entry ::
  "string \<Rightarrow> jwks_cache_entry \<Rightarrow> time \<Rightarrow> (string \<times> jwks_cache_entry) list \<Rightarrow> (string \<times> jwks_cache_entry) list" where
  "store_jwks_cache_entry endpoint entry now cache =
     (let (kept, n, oldest) = scan_jwks_cache endpoint now (assoc_put endpoint entry cache) 0 [] 0
      in if n > int max_jwks_cache_entries \<and> oldest \<noteq> [] then assoc_del oldest kept else kept)"

subsection \<open>Fetching a key set\<close>

record jwks_response =
  jr_status :: int
  jr_content_length :: int
  jr_body :: body
  jr_cache_control :: string

datatype jwks_error =
    FetchFailed
  | BadStatus int
  | ResponseTooLarge
  | ReadFailed
  | BadJson
  | TooManyKeys
  | DuplicateKid string
  | NoValidKeys

text \<open>
  The outside world of a refresh: the HTTP client, \<open>json.Unmarshal\<close> into the
  list of key objects, and the curve check.
\<close>

record jwks_env =
  ev_fetch :: "string \<Rightarrow> time \<Rightarrow> jwks_response option"
  ev_unmarshal :: "string \<Rightarrow> (string \<times> json) list list option"
  ev_on_curve :: "string \<Rightarrow> string \<Rightarrow> bool"

(* src: internal/waf/middleware.go:451-466 getJWKSEntry (keys) *)
fun collect_jwks_keys ::
  "(string \<Rightarrow> string \<Rightarrow> bool) \<Rightarrow> (string \<times> json) list list \<Rightarrow> (string \<times> jwk_key) list \<Rightarrow>
   jwks_error + (string \<times> jwk_key) list" where
  "collect_jwks_keys on_curve [] parsed = Inr parsed"
| "collect_jwks_keys on_curve (k # ks) parsed =
     (let kid = json_string_or_empty k ''kid''
      in if kid = [] then collect_jwks_keys on_curve ks parsed
         else if map_of parsed kid \<noteq> None then Inl (DuplicateKid kid)
         else case parse_jwk on_curve k of
                Inl _ \<Rightarrow> collect_jwks_keys on_curve ks parsed
              | Inr key \<Rightarrow> collect_jwks_keys on_curve ks (parsed @ [(kid, key)]))"

text \<open>\<open>time.Duration(ma) * time.Second\<close> is a 64-bit product.\<close>

(* src: internal/waf/middleware.go:474-481 getJWKSEntry (Cache-Control) *)
fun cache_control_ttl :: "string list \<Rightarrow> duration \<Rightarrow> duration" where
  "cache_control_ttl [] ttl = ttl"
| "cache_control_ttl (part # parts) ttl =
     cache_control_ttl parts
       (case cut_prefix (trim_space part) ''max-age='' of
          None \<Rightarrow> ttl
        | Some after \<Rightarrow>
            (case parse_int64 after of
               None \<Rightarrow> ttl
             | Some ma \<Rightarrow> if ma > 0 then wrap64 (ma * second) else ttl))"

(* src: internal/waf/middleware.go:472-485 getJWKSEntry (ttl) *)
definition jwks_ttl :: "string \<Rightarrow> duration" where
  "jwks_ttl cc =
     (let ttl = 15 * minute;
          ttl = (if cc \<noteq> [] then cache_control_ttl (str_split (CHR '','') cc) ttl else ttl)
      in if ttl > max_jwks_cache_ttl then max_jwks_cache_ttl else ttl)"

(* src: internal/waf/middleware.go:417-470 getJWKSEntry (fetch) *)
definition fetch_jwks_keys ::
  "jwks_env \<Rightarrow> string \<Rightarrow> time \<Rightarrow> jwks_error + (string \<times> jwk_key) list \<times> string" where
  "fetch_jwks_keys env endpoint now =
     (case ev_fetch env endpoint now of
        None \<Rightarrow> Inl FetchFailed
      | Some resp \<Rightarrow>
          if jr_status resp \<noteq> 200 then Inl (BadStatus (jr_status resp))
          else if jr_content_length resp > max_jwks_response_bytes then Inl ResponseTooLarge
          else case read_all_limited (jr_body resp) (max_jwks_response_bytes + 1) of
                 None \<Rightarrow> Inl ReadFailed
               | Some b \<Rightarrow>
                   if int (length b) > max_jwks_response_bytes then Inl ResponseTooLarge
                   else case ev_unmarshal env b of
                          None \<Rightarrow> Inl BadJson
                        | Some ks \<Rightarrow>
                            if int (length ks) > max_jwks_keys then Inl TooManyKeys
                            else case collect_jwks_keys (ev_on_curve env) ks [] of
                                   Inl e \<Rightarrow> Inl e
                                 | Inr [] \<Rightarrow> Inl NoValidKeys
                                 | Inr parsed \<Rightarrow> Inr (parsed, jr_cache_control resp))"

(* src: internal/waf/middleware.go:390-397 getJWKSEntry (fast path) *)
definition usable_jwks_entry :: "time \<Rightarrow> jwks_cache_entry option \<Rightarrow> jwks_cache_entry \<Rightarrow> bool" where
  "usable_jwks_entry now previous entry =
     (case previous of
        None \<Rightarrow> now < je_expires_at entry
      | Some p \<Rightarrow> je_id entry \<noteq> je_id p \<and> now < je_expires_at entry)"

(* src: internal/waf/middleware.go:405-414 getJWKSEntry (under the lock) *)
definition usable_jwks_entry_locked :: "time \<Rightarrow> jwks_cache_entry option \<Rightarrow> jwks_cache_entry \<Rightarrow> bool" where
  "usable_jwks_entry_locked now previous entry =
     (usable_jwks_entry now previous entry \<or>
      (previous \<noteq> None \<and> time_sub now (je_last_forced_refresh entry) < min_jwks_forced_refresh_delay))"

text \<open>
  The part of \<open>getJWKSEntry\<close> after the lock was taken.  The three calls of
  \<open>time.Now\<close> get the arguments \<open>now\<close>, \<open>now'\<close> and \<open>now''\<close>.
\<close>

(* src: internal/waf/middleware.go:404-496 getJWKSEntry (locked part) *)
definition refresh_jwks_entry ::
  "jwks_env \<Rightarrow> time \<Rightarrow> time \<Rightarrow> string \<Rightarrow> jwks_cache_entry option \<Rightarrow> jwks_state \<Rightarrow>
   (jwks_error + jwks_cache_entry) \<times> jwks_state" where
  "refresh_jwks_entry env now' now'' endpoint previous st =
     (let cached = load_jwks_cache_entry (jw_cache st) endpoint
      in if (case cached of None \<Rightarrow> False | Some e \<Rightarrow> usable_jwks_entry_locked now' previous e)
         then (Inr (the cached), st)
         else
           let st = st\<lparr>jw_fetches := jw_fetches st @ [(endpoint, now')]\<rparr>
           in case fetch_jwks_keys env endpoint now' of
                Inl e \<Rightarrow> (Inl e, st)
              | Inr (parsed, cc) \<Rightarrow>
                  let entry = \<lparr>je_id = jw_next st, je_keys = parsed, je_expires_at = now' + jwks_ttl cc,
                               je_last_forced_refresh = (if previous \<noteq> None then now' else 0)\<rparr>
                  in (Inr entry,
                      st\<lparr>jw_next := jw_next st + 1,
                         jw_cache := store_jwks_cache_entry endpoint entry now'' (jw_cache st)\<rparr>))"

(* src: internal/waf/middleware.go:388-497 ProxyHandler.getJWKSEntry *)
definition get_jwks_entry ::
  "jwks_env \<Rightarrow> time \<times> time \<times> time \<Rightarrow> string \<Rightarrow> jwks_cache_entry option \<Rightarrow> jwks_state \<Rightarrow>
   (jwks_error + jwks_cache_entry) \<times> jwks_state" where
  "get_jwks_entry env clk endpoint previous st =
     (let (now, now', now'') = clk;
          cached = load_jwks_cache_entry (jw_cache st) endpoint
      in if (case cached of None \<Rightarrow> False | Some e \<Rightarrow> usable_jwks_entry now previous e)
         then (Inr (the cached), st)
         else
           let (lock, lt) = acquire_jwks_refresh_lock endpoint (jw_locks st);
               st = st\<lparr>jw_locks := lt\<rparr>;
               (res, st) = refresh_jwks_entry env now' now'' endpoint previous st
           in (res, st\<lparr>jw_locks := release_jwks_refresh_lock endpoint lock (jw_locks st)\<rparr>))"

(* src: internal/waf/middleware.go:380-386 ProxyHandler.getJWKS *)
definition get_jwks ::
  "jwks_env \<Rightarrow> time \<times> time \<times> time \<Rightarrow> string \<Rightarrow> jwks_state \<Rightarrow> (jwks_error + (string \<times> jwk_key) list) \<times> jwks_state" where
  "get_jwks env clk endpoint st =
     (case get_jwks_entry env clk endpoint None st of
        (Inl e, st) \<Rightarrow> (Inl e, st)
      | (Inr entry, st) \<Rightarrow> (Inr (je_keys entry), st))"

subsection \<open>Token validation\<close>

text \<open>
  \<open>jwt.Parse\<close> of the JWT library: \<open>jl_header\<close> reads the unverified token (its
  \<open>kid\<close>, the algorithm name and the signing method), \<open>jl_verify\<close> checks the
  signature under a key and the claims (issuer, audience, required expiry).
  The library rejects an algorithm that is not in the list of valid methods
  before it asks for the key.
\<close>

record jwt_header =
  jh_kid :: "string option"
  jh_alg :: string
  jh_method :: signing_method

record jwt_lib =
  jl_header :: "string \<Rightarrow> jwt_header option"
  jl_verify :: "string \<Rightarrow> jwk_key \<Rightarrow> string \<Rightarrow> string \<Rightarrow> time \<Rightarrow> bool"

datatype key_result = KeyFound jwk_key | KeyRejected | KeyRefreshFailed

(* src: internal/waf/middleware.go:335-359 validateJWT (key function) *)
definition jwt_key_func ::
  "jwks_env \<Rightarrow> time \<times> time \<times> time \<Rightarrow> string \<Rightarrow> jwks_cache_entry \<Rightarrow> jwt_header \<Rightarrow> jwks_state \<Rightarrow> key_result \<times> jwks_state" where
  "jwt_key_func env clk endpoint entry head st =
     (case jh_kid head of
        None \<Rightarrow> (KeyRejected, st)
      | Some kid \<Rightarrow>
          let check = (\<lambda>key. if jwt_key_matches_method (jh_method head) key then KeyFound key else KeyRejected)
          in case map_of (je_keys entry) kid of
               Some key \<Rightarrow> (check key, st)
             | None \<Rightarrow>
                 (case get_jwks_entry env clk endpoint (Some entry) st of
                    (Inl e, st) \<Rightarrow> (KeyRefreshFailed, st)
                  | (Inr refreshed, st) \<Rightarrow>
                      (case map_of (je_keys refreshed) kid of
                         None \<Rightarrow> (KeyRejected, st)
                       | Some key \<Rightarrow> (check key, st))))"

(* src: internal/waf/middleware.go:317-378 ProxyHandler.validateJWT *)
definition validate_jwt ::
  "jwt_lib \<Rightarrow> jwks_env \<Rightarrow> (nat \<Rightarrow> time \<times> time \<times> time) \<Rightarrow> jwt_validation_config \<Rightarrow> request \<Rightarrow> log_writer \<Rightarrow> jwks_state \<Rightarrow>
   bool \<times> log_writer \<times> jwks_state" where
  "validate_jwt lib env clock cfg r w st =
     (let auth_header = header_get (rq_header r) ''Authorization''
      in if \<not> has_prefix auth_header ''Bearer ''
         then (False, http_error ''Unauthorized: Bearer token required'' 401 w, st)
         else
           let token = trim_prefix auth_header ''Bearer ''
           in case get_jwks_entry env (clock 0) (jwks_endpoint cfg) None st of
                (Inl e, st) \<Rightarrow> (False, http_error ''Authentication service unavailable'' 503 w, st)
              | (Inr entry, st) \<Rightarrow>
                  let invalid = (\<lambda>st. (False, http_error ''Unauthorized: Invalid token'' 401 w, st))
                  in case jl_header lib token of
                       None \<Rightarrow> invalid st
                     | Some head \<Rightarrow>
                         if jh_alg head \<notin> set jwt_valid_methods then invalid st
                         else case jwt_key_func env (clock 1) (jwks_endpoint cfg) entry head st of
                                (KeyRefreshFailed, st) \<Rightarrow>
                                  (False, http_error ''Authentication service unavailable'' 503 w, st)
                              | (KeyRejected, st) \<Rightarrow> invalid st
                              | (KeyFound key, st) \<Rightarrow>
                                  if jl_verify lib token key (jwt_issuer cfg) (jwt_audience cfg) (fst (clock 2))
                                  then (True, w, st) else invalid st)"

subsection \<open>The bounded cache\<close>

definition jwks_kept :: "string \<Rightarrow> time \<Rightarrow> string \<times> jwks_cache_entry \<Rightarrow> bool" where
  "jwks_kept endpoint now p = (fst p = endpoint \<or> now < je_expires_at (snd p))"

definition oldest_step :: "string \<Rightarrow> string \<times> time \<Rightarrow> string \<times> jwks_cache_entry \<Rightarrow> string \<times> time" where
  "oldest_step endpoint a p =
     (if fst p \<noteq> endpoint \<and> (fst a = [] \<or> je_expires_at (snd p) < snd a) then (fst p, je_expires_at (snd p)) else a)"

lemma scan_jwks_cache_eq:
  "scan_jwks_cache endpoint now c n o1 oe =
     (filter (jwks_kept endpoint now) c, n + int (length (filter (jwks_kept endpoint now) c)),
      fst (foldl (oldest_step endpoint) (o1, oe) (filter (jwks_kept endpoint now) c)))"
proof (induction c arbitrary: n o1 oe)
  case Nil
  then show ?case by simp
next
  case (Cons p c)
  obtain e x where p: "p = (e, x)" by (cases p)
  then show ?case
    by (auto simp: Cons.IH jwks_kept_def oldest_step_def)
qed

lemma oldest_fold:
  assumes "foldl (oldest_step endpoint) (o1, oe) ps = (o', oe')" "[] \<notin> fst ` set ps"
  shows "((o' = o1 \<and> oe' = oe) \<or> (\<exists>p \<in> set ps. fst p = o' \<and> je_expires_at (snd p) = oe' \<and> fst p \<noteq> endpoint)) \<and>
    (\<forall>q \<in> set ps. fst q \<noteq> endpoint \<longrightarrow> o' \<noteq> [] \<and> oe' \<le> je_expires_at (snd q)) \<and>
    (o1 \<noteq> [] \<longrightarrow> o' \<noteq> [] \<and> oe' \<le> oe)"
  using assms
proof (induction ps arbitrary: o1 oe)
  case Nil
  then show ?case by simp
next
  case (Cons p ps)
  obtain o2 oe2 where s: "oldest_step endpoint (o1, oe) p = (o2, oe2)" by fastforce
  have ih: "((o' = o2 \<and> oe' = oe2) \<or> (\<exists>p \<in> set ps. fst p = o' \<and> je_expires_at (snd p) = oe' \<and> fst p \<noteq> endpoint)) \<and>
    (\<forall>q \<in> set ps. fst q \<noteq> endpoint \<longrightarrow> o' \<noteq> [] \<and> oe' \<le> je_expires_at (snd q)) \<and>
    (o2 \<noteq> [] \<longrightarrow> o' \<noteq> [] \<and> oe' \<le> oe2)"
    using Cons.IH [of o2 oe2] Cons.prems s by simp
  have "fst p \<noteq> []" using Cons.prems(2) by auto
  then show ?case using s ih by (auto simp: oldest_step_def split: if_splits)
qed

definition jwks_cache_inv :: "(string \<times> jwks_cache_entry) list \<Rightarrow> bool" where
  "jwks_cache_inv c = (wf_assoc c \<and> [] \<notin> fst ` set c \<and> length c \<le> max_jwks_cache_entries)"

lemma store_jwks_cache_entry_eq:
  assumes "jwks_cache_inv c" "endpoint \<noteq> []" "kept = filter (jwks_kept endpoint now) (assoc_put endpoint entry c)"
  shows "store_jwks_cache_entry endpoint entry now c = kept \<and> length kept \<le> max_jwks_cache_entries \<or>
    (\<exists>old. store_jwks_cache_entry endpoint entry now c = assoc_del (fst old) kept \<and> old \<in> set kept \<and>
       length kept = Suc max_jwks_cache_entries \<and> fst old \<noteq> endpoint \<and>
       (\<forall>q \<in> set kept. fst q \<noteq> endpoint \<longrightarrow> je_expires_at (snd old) \<le> je_expires_at (snd q)))"
proof -
  obtain o' oe' where f: "foldl (oldest_step endpoint) ([], 0) kept = (o', oe')" by fastforce
  have st: "store_jwks_cache_entry endpoint entry now c =
      (if int (length kept) > int max_jwks_cache_entries \<and> o' \<noteq> [] then assoc_del o' kept else kept)"
    using f assms(3) by (simp add: store_jwks_cache_entry_def scan_jwks_cache_eq)
  have ne: "[] \<notin> fst ` set kept"
  proof -
    have "fst ` set kept \<subseteq> fst ` set (assoc_put endpoint entry c)"
      unfolding assms(3) by (intro image_mono filter_is_subset)
    also have "\<dots> = insert endpoint (fst ` set c)" by simp
    finally show ?thesis using assms(1,2) by (auto simp: jwks_cache_inv_def)
  qed
  have wf: "wf_assoc kept" using assms by (auto simp: jwks_cache_inv_def intro!: wf_assoc_filter wf_assoc_put)
  have "length kept \<le> length (assoc_put endpoint entry c)" using assms(3) by simp
  also have "\<dots> \<le> Suc (length c)" by (simp add: length_assoc_put)
  also have "\<dots> \<le> Suc max_jwks_cache_entries" using assms(1) by (simp add: jwks_cache_inv_def)
  finally have len: "length kept \<le> Suc max_jwks_cache_entries" .
  show ?thesis
  proof (cases "length kept \<le> max_jwks_cache_entries")
    case True
    then show ?thesis using st by simp
  next
    case False
    then have l: "length kept = Suc max_jwks_cache_entries" using len by simp
    have "\<exists>q \<in> set kept. fst q \<noteq> endpoint"
    proof (rule ccontr)
      assume "\<not> ?thesis"
      then have "fst ` set kept \<subseteq> {endpoint}" by auto
      then have "card (fst ` set kept) \<le> 1" using card_mono [of "{endpoint}" "fst ` set kept"] by simp
      moreover have "card (fst ` set kept) = length kept"
        using wf distinct_card [of "map fst kept"] by (simp add: wf_assoc_def)
      ultimately show False using l by (simp add: max_jwks_cache_entries_def)
    qed
    then have "o' \<noteq> []" "\<exists>p \<in> set kept. fst p = o' \<and> je_expires_at (snd p) = oe' \<and> fst p \<noteq> endpoint"
      "\<forall>q \<in> set kept. fst q \<noteq> endpoint \<longrightarrow> oe' \<le> je_expires_at (snd q)"
      using oldest_fold [OF f ne] by auto
    then obtain old where "old \<in> set kept" "fst old = o'" "fst old \<noteq> endpoint"
      "\<forall>q \<in> set kept. fst q \<noteq> endpoint \<longrightarrow> je_expires_at (snd old) \<le> je_expires_at (snd q)" "o' \<noteq> []"
      by blast
    then show ?thesis using st l by (intro disjI2 exI [of _ old]) simp
  qed
qed

lemma endpoint_kept:
  "wf_assoc c \<Longrightarrow> map_of (filter (jwks_kept endpoint now) (assoc_put endpoint entry c)) endpoint = Some entry"
  by (subst map_of_filter_wf) (auto simp: jwks_kept_def)

lemma store_jwks_cache_entry_load:
  assumes "jwks_cache_inv c" "endpoint \<noteq> []"
  shows "map_of (store_jwks_cache_entry endpoint entry now c) endpoint = Some entry"
  using store_jwks_cache_entry_eq [OF assms refl, of entry now] endpoint_kept [of c endpoint now entry] assms(1)
  by (auto simp: jwks_cache_inv_def)

lemma store_jwks_cache_entry_inv:
  assumes "jwks_cache_inv c" "endpoint \<noteq> []"
  shows "jwks_cache_inv (store_jwks_cache_entry endpoint entry now c)"
proof -
  let ?kept = "filter (jwks_kept endpoint now) (assoc_put endpoint entry c)"
  have wf: "wf_assoc ?kept" using assms(1) by (auto simp: jwks_cache_inv_def)
  have "fst ` set ?kept \<subseteq> fst ` set (assoc_put endpoint entry c)" by (intro image_mono filter_is_subset)
  then have ne: "[] \<notin> fst ` set ?kept" using assms by (auto simp: jwks_cache_inv_def)
  from store_jwks_cache_entry_eq [OF assms refl, of entry now] show ?thesis
  proof
    assume "store_jwks_cache_entry endpoint entry now c = ?kept \<and> length ?kept \<le> max_jwks_cache_entries"
    then show ?thesis using wf ne by (simp add: jwks_cache_inv_def)
  next
    assume "\<exists>old. store_jwks_cache_entry endpoint entry now c = assoc_del (fst old) ?kept \<and> old \<in> set ?kept \<and>
       length ?kept = Suc max_jwks_cache_entries \<and> fst old \<noteq> endpoint \<and>
       (\<forall>q \<in> set ?kept. fst q \<noteq> endpoint \<longrightarrow> je_expires_at (snd old) \<le> je_expires_at (snd q))"
    then obtain old where old: "store_jwks_cache_entry endpoint entry now c = assoc_del (fst old) ?kept"
      "old \<in> set ?kept" "length ?kept = Suc max_jwks_cache_entries" by metis
    have "length (assoc_del (fst old) ?kept) < length ?kept"
      by (rule length_assoc_del_less [OF imageI [OF old(2)]])
    then show ?thesis using wf ne old(1,3) by (simp add: jwks_cache_inv_def)
  qed
qed

interpretation jwks_store: bounded_store
  "load_jwks_cache_entry"
  "\<lambda>(endpoint, entry, now). store_jwks_cache_entry endpoint entry now"
  "\<lambda>(endpoint, _). endpoint \<noteq> []" "\<lambda>_ _. True" fst "\<lambda>(_, entry, _). entry"
  length jwks_cache_inv max_jwks_cache_entries
  by unfold_locales
    (auto simp: load_jwks_cache_entry_def store_jwks_cache_entry_load store_jwks_cache_entry_inv,
     simp add: jwks_cache_inv_def)

subsection \<open>Refresh locks under concurrency\<close>

text \<open>
  The goroutines that run \<open>getJWKSEntry\<close> interleave between the calls on the
  lock table and on the mutex of a lock object.  \<open>Waiting\<close>: the reference is
  taken, the mutex is not; \<open>Refreshing\<close>: the mutex is held, this is where the
  key set is fetched; \<open>Releasing\<close>: the mutex is free again, the reference is not.
\<close>

datatype refresh_pc = Outside | Waiting string nat | Refreshing string nat | Releasing string nat

record refresh_sys =
  rf_table :: lock_table
  rf_owner :: "nat \<Rightarrow> nat option"
  rf_pc :: "nat \<Rightarrow> refresh_pc"

fun pc_lock :: "refresh_pc \<Rightarrow> (string \<times> nat) option" where
  "pc_lock Outside = None"
| "pc_lock (Waiting e l) = Some (e, l)"
| "pc_lock (Refreshing e l) = Some (e, l)"
| "pc_lock (Releasing e l) = Some (e, l)"

(* src: internal/waf/middleware.go:399-402 getJWKSEntry (locking) *)
inductive refresh_step :: "refresh_sys \<Rightarrow> refresh_sys \<Rightarrow> bool" where
  step_acquire: "\<lbrakk> rf_pc s g = Outside; acquire_jwks_refresh_lock e (rf_table s) = (l, lt) \<rbrakk> \<Longrightarrow>
     refresh_step s (s\<lparr>rf_table := lt, rf_pc := (rf_pc s)(g := Waiting e l)\<rparr>)"
| step_lock: "\<lbrakk> rf_pc s g = Waiting e l; rf_owner s l = None \<rbrakk> \<Longrightarrow>
     refresh_step s (s\<lparr>rf_owner := (rf_owner s)(l \<mapsto> g), rf_pc := (rf_pc s)(g := Refreshing e l)\<rparr>)"
| step_unlock: "rf_pc s g = Refreshing e l \<Longrightarrow>
     refresh_step s (s\<lparr>rf_owner := (rf_owner s)(l := None), rf_pc := (rf_pc s)(g := Releasing e l)\<rparr>)"
| step_release: "rf_pc s g = Releasing e l \<Longrightarrow>
     refresh_step s (s\<lparr>rf_table := release_jwks_refresh_lock e l (rf_table s), rf_pc := (rf_pc s)(g := Outside)\<rparr>)"

definition refresh_init :: "refresh_sys \<Rightarrow> bool" where
  "refresh_init s = (rf_pc s = (\<lambda>_. Outside) \<and> rf_owner s = (\<lambda>_. None) \<and> lt_map (rf_table s) = [])"

definition holders :: "refresh_sys \<Rightarrow> string \<Rightarrow> nat set" where
  "holders s e = {g. \<exists>l. pc_lock (rf_pc s g) = Some (e, l)}"

text \<open>
  The invariant: a held lock is the one in the table, an entry of the table
  counts its holders and has at least one, different endpoints have different
  locks, and the mutex of a lock is held by the goroutine that refreshes.
\<close>

definition refresh_inv :: "refresh_sys \<Rightarrow> bool" where
  "refresh_inv s \<longleftrightarrow>
     (\<forall>g e l. pc_lock (rf_pc s g) = Some (e, l) \<longrightarrow> map_of (lt_map (rf_table s)) e = Some l) \<and>
     (\<forall>e l. map_of (lt_map (rf_table s)) e = Some l \<longrightarrow>
        finite (holders s e) \<and> lt_refs (rf_table s) l = int (card (holders s e)) \<and> holders s e \<noteq> {} \<and>
        l < lt_next (rf_table s)) \<and>
     (\<forall>e e' l. map_of (lt_map (rf_table s)) e = Some l \<longrightarrow> map_of (lt_map (rf_table s)) e' = Some l \<longrightarrow> e = e') \<and>
     (\<forall>g e l. rf_pc s g = Refreshing e l \<longrightarrow> rf_owner s l = Some g)"

lemma refresh_invD:
  assumes "refresh_inv s"
  shows "pc_lock (rf_pc s g) = Some (e, l) \<Longrightarrow> map_of (lt_map (rf_table s)) e = Some l"
    "map_of (lt_map (rf_table s)) e = Some l \<Longrightarrow> finite (holders s e)"
    "map_of (lt_map (rf_table s)) e = Some l \<Longrightarrow> lt_refs (rf_table s) l = int (card (holders s e))"
    "map_of (lt_map (rf_table s)) e = Some l \<Longrightarrow> holders s e \<noteq> {}"
    "map_of (lt_map (rf_table s)) e = Some l \<Longrightarrow> l < lt_next (rf_table s)"
    "\<lbrakk> map_of (lt_map (rf_table s)) e = Some l; map_of (lt_map (rf_table s)) e' = Some l \<rbrakk> \<Longrightarrow> e = e'"
    "rf_pc s g = Refreshing e l \<Longrightarrow> rf_owner s l = Some g"
  using assms unfolding refresh_inv_def by blast+

lemma holders_None:
  assumes "refresh_inv s" "map_of (lt_map (rf_table s)) e = None"
  shows "holders s e = {}"
  using refresh_invD(1) [OF assms(1)] assms(2) by (fastforce simp: holders_def)

lemma holders_keep:
  "pc_lock p = pc_lock (rf_pc s g) \<Longrightarrow> holders (s\<lparr>rf_owner := ow, rf_pc := (rf_pc s)(g := p)\<rparr>) e = holders s e"
  by (auto simp: holders_def)

lemma holders_acquire:
  "rf_pc s g = Outside \<Longrightarrow> holders (s\<lparr>rf_table := lt, rf_pc := (rf_pc s)(g := Waiting e l)\<rparr>) e' =
     (if e' = e then insert g (holders s e) else holders s e')"
  by (auto simp: holders_def)

lemma holders_release:
  "rf_pc s g = Releasing e l \<Longrightarrow> holders (s\<lparr>rf_table := lt, rf_pc := (rf_pc s)(g := Outside)\<rparr>) e' =
     (if e' = e then holders s e - {g} else holders s e')"
  by (auto simp: holders_def)

lemma refresh_inv_acquire:
  assumes inv: "refresh_inv s" and pc: "rf_pc s g = Outside"
    and acq: "acquire_jwks_refresh_lock e (rf_table s) = (l, lt)"
  shows "refresh_inv (s\<lparr>rf_table := lt, rf_pc := (rf_pc s)(g := Waiting e l)\<rparr>)" (is "refresh_inv ?t")
proof -
  note D = refresh_invD [OF inv]
  have g: "g \<notin> holders s e'" for e' using pc by (simp add: holders_def)
  show ?thesis
  proof (cases "map_of (lt_map (rf_table s)) e")
    case (Some l0)
    then have lt: "l = l0" "lt = (rf_table s)\<lparr>lt_refs := (lt_refs (rf_table s))(l0 := lt_refs (rf_table s) l0 + 1)\<rparr>"
      using acq by (auto simp: acquire_jwks_refresh_lock_def)
    show ?thesis
      unfolding refresh_inv_def holders_acquire [OF pc]
      using Some D g lt by (auto split: if_splits)
  next
    case None
    let ?n = "lt_next (rf_table s)"
    have lt: "l = ?n" "lt_map lt = assoc_put e ?n (lt_map (rf_table s))"
      "lt_refs lt = (lt_refs (rf_table s))(?n := 1)" "lt_next lt = ?n + 1"
      using acq None by (auto simp: acquire_jwks_refresh_lock_def)
    have new: "\<And>e' l'. map_of (lt_map (rf_table s)) e' = Some l' \<Longrightarrow> l' < ?n" by (rule D(5))
    have he: "holders s e = {}" by (rule holders_None [OF inv None])
    show ?thesis
      unfolding refresh_inv_def holders_acquire [OF pc]
      using None D g lt he by (auto split: if_splits dest: new)
  qed
qed

lemma refresh_inv_release:
  assumes inv: "refresh_inv s" and pc: "rf_pc s g = Releasing e l"
  shows "refresh_inv (s\<lparr>rf_table := release_jwks_refresh_lock e l (rf_table s), rf_pc := (rf_pc s)(g := Outside)\<rparr>)"
    (is "refresh_inv ?t")
proof -
  note D = refresh_invD [OF inv]
  have m: "map_of (lt_map (rf_table s)) e = Some l" using D(1) [of g] pc by simp
  have g: "g \<in> holders s e" using pc by (simp add: holders_def)
  have fin: "finite (holders s e)" by (rule D(2) [OF m])
  have "card (holders s e) = Suc (card (holders s e - {g}))" using card_Suc_Diff1 [OF fin g] by simp
  then have c: "int (card (holders s e - {g})) = lt_refs (rf_table s) l - 1" using D(3) [OF m] by simp
  have one: "holders s e - {g} = {} \<longleftrightarrow> lt_refs (rf_table s) l - 1 = 0"
    using c fin by (metis card_0_eq finite_Diff of_nat_eq_0_iff)
  have other: "e' \<noteq> e \<Longrightarrow> map_of (lt_map (rf_table s)) e' = Some l' \<Longrightarrow> l' \<noteq> l" for e' l'
    using D(6) m by blast
  let ?lt = "release_jwks_refresh_lock e l (rf_table s)"
  have mp: "map_of (lt_map ?lt) e' =
      (if e' = e \<and> holders s e - {g} = {} then None else map_of (lt_map (rf_table s)) e')" for e'
    unfolding one by (simp add: release_jwks_refresh_lock_def Let_def)
  have rf: "lt_refs ?lt l' = (if l' = l then lt_refs (rf_table s) l - 1 else lt_refs (rf_table s) l')" for l'
    by (simp add: release_jwks_refresh_lock_def Let_def)
  have nx: "lt_next ?lt = lt_next (rf_table s)" by (simp add: release_jwks_refresh_lock_def Let_def)
  have h: "pc_lock (rf_pc ?t g') = Some (e', l') \<Longrightarrow> g' \<noteq> g \<and> pc_lock (rf_pc s g') = Some (e', l') \<and>
      map_of (lt_map ?lt) e' = Some l'" for g' e' l'
  proof -
    assume "pc_lock (rf_pc ?t g') = Some (e', l')"
    then have *: "g' \<noteq> g" "pc_lock (rf_pc s g') = Some (e', l')" by (simp_all split: if_splits)
    moreover have "\<not> (e' = e \<and> holders s e - {g} = {})" using * by (auto simp: holders_def)
    ultimately show ?thesis using D(1) [of g' e' l'] mp [of e'] by simp
  qed
  have ht: "holders ?t e' = (if e' = e then holders s e - {g} else holders s e')" for e'
    by (rule holders_release [OF pc])
  show ?thesis
    unfolding refresh_inv_def ht
  proof (intro conjI allI impI)
    fix g' e' l' assume "pc_lock (rf_pc ?t g') = Some (e', l')"
    from h [OF this] show "map_of (lt_map (rf_table ?t)) e' = Some l'" by simp
  next
    fix e' l' assume "map_of (lt_map (rf_table ?t)) e' = Some l'"
    then have *: "map_of (lt_map (rf_table s)) e' = Some l'" "\<not> (e' = e \<and> holders s e - {g} = {})"
      using mp [of e'] by (auto split: if_splits)
    show "finite (if e' = e then holders s e - {g} else holders s e')" using D(2) [OF *(1)] fin by simp
    show "lt_refs (rf_table ?t) l' = int (card (if e' = e then holders s e - {g} else holders s e'))"
      using * m c rf [of l'] other [of e' l'] D(3) [OF *(1)] by auto
    show "(if e' = e then holders s e - {g} else holders s e') \<noteq> {}" using * D(4) [OF *(1)] by simp
    show "l' < lt_next (rf_table ?t)" using D(5) [OF *(1)] nx by simp
  next
    fix e1 e2 l' assume "map_of (lt_map (rf_table ?t)) e1 = Some l'" "map_of (lt_map (rf_table ?t)) e2 = Some l'"
    then show "e1 = e2" using mp D(6) by (auto split: if_splits)
  next
    fix g' e' l' assume "rf_pc ?t g' = Refreshing e' l'"
    then show "rf_owner ?t l' = Some g'" using D(7) by (auto split: if_splits)
  qed
qed

lemma refresh_inv_mutex:
  assumes inv: "refresh_inv s" and pc: "pc_lock p = pc_lock (rf_pc s g)" "pc_lock p = Some (e, l)"
    and ow: "\<And>l'. l' \<noteq> l \<Longrightarrow> ow l' = rf_owner s l'"
    and l: "(p = Refreshing e l \<and> ow l = Some g \<and> rf_owner s l = None) \<or> (\<not> (\<exists>e l. p = Refreshing e l) \<and> rf_owner s l = Some g)"
  shows "refresh_inv (s\<lparr>rf_owner := ow, rf_pc := (rf_pc s)(g := p)\<rparr>)"
proof -
  note D = refresh_invD [OF inv]
  have "ow l' = Some g'" if r: "((rf_pc s)(g := p)) g' = Refreshing e' l'" for g' e' l'
  proof (cases "g' = g")
    case True
    then have "p = Refreshing e' l'" using r by simp
    then show ?thesis using True l pc(2) by auto
  next
    case False
    then have o: "rf_owner s l' = Some g'" using D(7) r by auto
    then have "l' \<noteq> l" using l False by auto
    then show ?thesis using o ow by simp
  qed
  moreover have "pc_lock (((rf_pc s)(g := p)) g') = pc_lock (rf_pc s g')" for g' using pc by simp
  ultimately show ?thesis
    using inv unfolding refresh_inv_def by (simp add: holders_keep pc(1))
qed

lemma refresh_inv_init: "refresh_init s \<Longrightarrow> refresh_inv s"
  by (simp add: refresh_init_def refresh_inv_def)

lemma refresh_inv_step:
  assumes "refresh_inv s" "refresh_step s t"
  shows "refresh_inv t"
  using assms(2,1)
proof (induction rule: refresh_step.induct)
  case (step_acquire s g e l lt)
  then show ?case by (intro refresh_inv_acquire)
next
  case (step_lock s g e l)
  then show ?case by (intro refresh_inv_mutex [where e = e and l = l]) auto
next
  case (step_unlock s g e l)
  then show ?case
    by (intro refresh_inv_mutex [where e = e and l = l]) (auto intro: refresh_invD(7))
next
  case (step_release s g e l)
  then show ?case by (intro refresh_inv_release)
qed

interpretation refresh_locks: transition_system refresh_init refresh_step refresh_inv
  by unfold_locales (auto intro: refresh_inv_init refresh_inv_step)

subsection \<open>Token validation\<close>

text \<open>Every cached key set was delivered by its own endpoint.\<close>

definition jwks_authentic :: "jwks_env \<Rightarrow> (string \<times> jwks_cache_entry) list \<Rightarrow> bool" where
  "jwks_authentic env c \<longleftrightarrow> (\<forall>(e, x) \<in> set c. \<exists>t cc. fetch_jwks_keys env e t = Inr (je_keys x, cc))"

lemma set_assoc_put_subset: "set (assoc_put k v m) \<subseteq> insert (k, v) (set m)"
  by (induction m) auto

lemma set_store_subset: "set (store_jwks_cache_entry e x now c) \<subseteq> insert (e, x) (set c)"
  using set_assoc_put_subset [of e x c]
  by (auto simp: store_jwks_cache_entry_def scan_jwks_cache_eq assoc_del_def)

lemma refresh_jwks_entry_authentic:
  assumes "jwks_authentic env (jw_cache st)" "refresh_jwks_entry env t1 t2 e prev st = (Inr x, st')"
  shows "jwks_authentic env (jw_cache st') \<and> (\<exists>t cc. fetch_jwks_keys env e t = Inr (je_keys x, cc))"
proof (cases "case load_jwks_cache_entry (jw_cache st) e of None \<Rightarrow> False | Some y \<Rightarrow> usable_jwks_entry_locked t1 prev y")
  case True
  then obtain y where y: "map_of (jw_cache st) e = Some y" by (auto simp: load_jwks_cache_entry_def split: option.splits)
  then have "x = y \<and> st' = st" using assms(2) True by (simp add: refresh_jwks_entry_def load_jwks_cache_entry_def)
  then show ?thesis using assms(1) map_of_SomeD [OF y] by (fastforce simp: jwks_authentic_def)
next
  case False
  obtain parsed cc where f: "fetch_jwks_keys env e t1 = Inr (parsed, cc)"
    and x: "je_keys x = parsed" and st': "jw_cache st' = store_jwks_cache_entry e x t2 (jw_cache st)"
    using assms(2) False by (auto simp: refresh_jwks_entry_def Let_def split: sum.splits)
  have "jwks_authentic env (jw_cache st')"
    unfolding jwks_authentic_def st'
    using set_store_subset [of e x t2 "jw_cache st"] assms(1) f x by (fastforce simp: jwks_authentic_def)
  then show ?thesis using f x by blast
qed

lemma get_jwks_entry_authentic:
  assumes "jwks_authentic env (jw_cache st)" "get_jwks_entry env clk e prev st = (Inr x, st')"
  shows "jwks_authentic env (jw_cache st') \<and> (\<exists>t cc. fetch_jwks_keys env e t = Inr (je_keys x, cc))"
proof -
  obtain t0 t1 t2 where clk: "clk = (t0, t1, t2)" by (cases clk)
  show ?thesis
  proof (cases "case load_jwks_cache_entry (jw_cache st) e of None \<Rightarrow> False | Some y \<Rightarrow> usable_jwks_entry t0 prev y")
    case True
    then obtain y where y: "map_of (jw_cache st) e = Some y" by (auto simp: load_jwks_cache_entry_def split: option.splits)
    then have "x = y \<and> st' = st" using assms(2) True clk by (simp add: get_jwks_entry_def load_jwks_cache_entry_def)
    then show ?thesis using assms(1) map_of_SomeD [OF y] by (fastforce simp: jwks_authentic_def)
  next
    case False
    obtain l lt where al: "acquire_jwks_refresh_lock e (jw_locks st) = (l, lt)" by fastforce
    obtain st1 where r: "refresh_jwks_entry env t1 t2 e prev (st\<lparr>jw_locks := lt\<rparr>) = (Inr x, st1)"
      and "jw_cache st' = jw_cache st1"
      using assms(2) False clk al by (auto simp: get_jwks_entry_def Let_def split: prod.splits)
    then show ?thesis using refresh_jwks_entry_authentic [OF _ r] assms(1) by simp
  qed
qed

lemma jwt_key_func_authentic:
  assumes "jwks_authentic env (jw_cache st)" "fetch_jwks_keys env e t = Inr (je_keys entry, cc)"
    "jwt_key_func env clk e entry head st = (KeyFound key, st')"
  shows "\<exists>kid t cc parsed. jh_kid head = Some kid \<and> fetch_jwks_keys env e t = Inr (parsed, cc) \<and>
    map_of parsed kid = Some key \<and> jwt_key_matches_method (jh_method head) key"
proof -
  obtain kid where k: "jh_kid head = Some kid" using assms(3) by (auto simp: jwt_key_func_def split: option.splits)
  show ?thesis
  proof (cases "map_of (je_keys entry) kid")
    case (Some key')
    then have "key' = key" "jwt_key_matches_method (jh_method head) key"
      using assms(3) k by (auto simp: jwt_key_func_def Let_def split: if_splits)
    then show ?thesis using k assms(2) Some by blast
  next
    case None
    then obtain x st1 where g: "get_jwks_entry env clk e (Some entry) st = (Inr x, st1)"
      and x: "map_of (je_keys x) kid = Some key" "jwt_key_matches_method (jh_method head) key"
      using assms(3) k by (auto simp: jwt_key_func_def Let_def split: sum.splits prod.splits option.splits if_splits)
    then show ?thesis using get_jwks_entry_authentic [OF assms(1) g] k by blast
  qed
qed

lemma get_jwks_entry_forced_cached:
  assumes "map_of (jw_cache st) e = Some x"
    and "time_sub t1 (je_last_forced_refresh x) < min_jwks_forced_refresh_delay"
    and "get_jwks_entry env (t0, t1, t2) e (Some p) st = (res, st')"
  shows "res = Inr x \<and> jw_fetches st' = jw_fetches st \<and> jw_cache st' = jw_cache st"
  using assms
  by (auto simp: get_jwks_entry_def refresh_jwks_entry_def load_jwks_cache_entry_def usable_jwks_entry_locked_def
      Let_def split: if_splits prod.splits)

lemma get_jwks_entry_fetched:
  assumes "get_jwks_entry env (t0, t1, t2) e (Some p) st = (Inr x, st')"
    and "jw_fetches st' \<noteq> jw_fetches st" "jwks_cache_inv (jw_cache st)" "e \<noteq> []"
  shows "map_of (jw_cache st') e = Some x \<and> je_last_forced_refresh x = t1"
  using assms
  by (auto simp: get_jwks_entry_def refresh_jwks_entry_def Let_def store_jwks_cache_entry_load
      split: if_splits prod.splits sum.splits)

lemma assoc_put_other: "\<lbrakk> p \<in> set m; fst p \<noteq> k \<rbrakk> \<Longrightarrow> p \<in> set (assoc_put k v m)"
  by (induction m) auto

lemma store_jwks_cache_entry_evicts:
  assumes inv: "jwks_cache_inv c" and e: "e \<noteq> []" and c': "c' = store_jwks_cache_entry e x now c"
    and p: "p \<in> set c" "fst p \<noteq> e" "now < je_expires_at (snd p)" "p \<notin> set c'"
  shows "length c = 256 \<and> (\<forall>q \<in> set c'. fst q \<noteq> e \<longrightarrow> je_expires_at (snd p) \<le> je_expires_at (snd q))"
proof -
  let ?kept = "filter (jwks_kept e now) (assoc_put e x c)"
  have pk: "p \<in> set ?kept" using p assoc_put_other [OF p(1,2)] by (simp add: jwks_kept_def)
  then have "c' \<noteq> ?kept" using p(4) by blast
  with store_jwks_cache_entry_eq [OF inv e refl, of x now] c'
  obtain old where old: "c' = assoc_del (fst old) ?kept" "old \<in> set ?kept" "length ?kept = Suc max_jwks_cache_entries"
    "\<forall>q \<in> set ?kept. fst q \<noteq> e \<longrightarrow> je_expires_at (snd old) \<le> je_expires_at (snd q)" by metis
  have "fst p = fst old" using pk p(4) old(1) by (auto simp: assoc_del_def)
  moreover have "wf_assoc ?kept" using inv by (auto simp: jwks_cache_inv_def)
  ultimately have "p = old" using pk old(2) unfolding wf_assoc_def distinct_map by (meson inj_onD)
  moreover have "length ?kept \<le> Suc (length c)"
    using length_filter_le [of "jwks_kept e now" "assoc_put e x c"] by (simp add: length_assoc_put split: if_splits)
  moreover have "length c \<le> 256" using inv by (simp add: jwks_cache_inv_def max_jwks_cache_entries_def)
  ultimately show ?thesis
    using old(1,3,4) by (auto simp: assoc_del_def max_jwks_cache_entries_def)
qed

subsection \<open>Properties\<close>

text \<open>C14: a request passes JWT validation only with a bearer token that the library verified under a key
  which the tenant's key set endpoint delivered for the token's key id, whose type belongs to the token's
  algorithm, and only with one of the listed asymmetric algorithms; every other request is answered with
  status 401 or 503.\<close>

theorem validate_jwt_sound:
  assumes "jwks_authentic env (jw_cache st)"
    and "validate_jwt lib env clock cfg r w st = (ok, w', st')"
  shows "if ok then
      w' = w \<and> (\<exists>tok head kid key t cc parsed.
        header_get (rq_header r) ''Authorization'' = ''Bearer '' @ tok \<and> jl_header lib tok = Some head \<and>
        jh_alg head \<in> set jwt_valid_methods \<and> jh_kid head = Some kid \<and>
        fetch_jwks_keys env (jwks_endpoint cfg) t = Inr (parsed, cc) \<and> map_of parsed kid = Some key \<and>
        jwt_key_matches_method (jh_method head) key \<and>
        jl_verify lib tok key (jwt_issuer cfg) (jwt_audience cfg) (fst (clock 2)))
    else lw_status w' = 401 \<or> lw_status w' = 503"
proof (cases ok)
  case True
  obtain tok where tok: "header_get (rq_header r) ''Authorization'' = ''Bearer '' @ tok"
    using assms(2) True by (auto simp: validate_jwt_def has_prefix_iff Let_def split: if_splits)
  obtain entry st1 head key st2 where
    g: "get_jwks_entry env (clock 0) (jwks_endpoint cfg) None st = (Inr entry, st1)"
    and h: "jl_header lib tok = Some head" "jh_alg head \<in> set jwt_valid_methods"
    and k: "jwt_key_func env (clock 1) (jwks_endpoint cfg) entry head st1 = (KeyFound key, st2)"
    and v: "jl_verify lib tok key (jwt_issuer cfg) (jwt_audience cfg) (fst (clock 2))" "w' = w"
    using assms(2) True tok
    by (auto simp: validate_jwt_def Let_def has_prefix_iff trim_prefix_def split: if_splits prod.splits sum.splits option.splits key_result.splits)
  from get_jwks_entry_authentic [OF assms(1) g] obtain t cc where
    a: "jwks_authentic env (jw_cache st1)" "fetch_jwks_keys env (jwks_endpoint cfg) t = Inr (je_keys entry, cc)" by blast
  from jwt_key_func_authentic [OF a k] obtain kid t cc parsed where
    "jh_kid head = Some kid" "fetch_jwks_keys env (jwks_endpoint cfg) t = Inr (parsed, cc)"
    "map_of parsed kid = Some key" "jwt_key_matches_method (jh_method head) key" by blast
  with tok h v True show ?thesis by (simp del: append_Cons) blast
next
  case False
  then show ?thesis
    using assms(2)
    by (auto simp: validate_jwt_def Let_def split: if_splits prod.splits sum.splits option.splits key_result.splits)
qed

definition sample_jwk :: "(string \<times> json) list" where
  "sample_jwk = [(''kid'', JString ''k1''), (''kty'', JString ''RSA''), (''n'', JString ''AQAB''), (''e'', JString ''AQAB'')]"

definition sample_env :: jwks_env where
  "sample_env = \<lparr>ev_fetch = (\<lambda>_ _. Some \<lparr>jr_status = 200, jr_content_length = 2, jr_body = Stream ''{}'' False, jr_cache_control = []\<rparr>),
     ev_unmarshal = (\<lambda>_. Some [sample_jwk]), ev_on_curve = (\<lambda>_ _. True)\<rparr>"

definition sample_lib :: jwt_lib where
  "sample_lib = \<lparr>jl_header = (\<lambda>_. Some \<lparr>jh_kid = Some ''k1'', jh_alg = ''RS256'', jh_method = MethodRSA\<rparr>),
     jl_verify = (\<lambda>tok _ _ _ _. tok = ''good'')\<rparr>"

definition empty_jwks :: jwks_state where
  "empty_jwks = \<lparr>jw_cache = [], jw_locks = \<lparr>lt_map = [], lt_refs = (\<lambda>_. 0), lt_next = 0\<rparr>, jw_fetches = [], jw_next = 0\<rparr>"

definition sample_jwt_config :: jwt_validation_config where
  "sample_jwt_config = \<lparr>jwt_enabled = True, jwks_endpoint = ''https://idp/keys'', jwt_issuer = ''idp'', jwt_audience = ''app''\<rparr>"

theorem validate_jwt_sound_witness:
  "fst (validate_jwt sample_lib sample_env (\<lambda>_. (0, 0, 0)) sample_jwt_config
     (sample_request\<lparr>rq_header := [(''Authorization'', [''Bearer good''])]\<rparr>) (new_log_writer fresh_writer) empty_jwks) \<and>
   (\<exists>parsed cc t. fetch_jwks_keys sample_env ''https://idp/keys'' t = Inr (parsed, cc))"
proof -
  let ?c = "validate_jwt sample_lib sample_env (\<lambda>_. (0, 0, 0)) sample_jwt_config
     (sample_request\<lparr>rq_header := [(''Authorization'', [''Bearer good''])]\<rparr>) (new_log_writer fresh_writer) empty_jwks"
  obtain ok w' st' where c: "?c = (ok, w', st')" by (metis prod_cases3)
  have "fst ?c" by code_simp
  then have ok: "ok" using c by simp
  have "jwks_authentic sample_env (jw_cache empty_jwks)" by (simp add: jwks_authentic_def empty_jwks_def)
  from validate_jwt_sound [OF this c] ok
  have "\<exists>parsed cc t. fetch_jwks_keys sample_env (jwks_endpoint sample_jwt_config) t = Inr (parsed, cc)" by auto
  then show ?thesis using c ok by (simp add: sample_jwt_config_def)
qed

text \<open>C15: key sets are refreshed by one goroutine at a time per endpoint: in every interleaving two
  goroutines never fetch the same endpoint at once, and the table of locks holds exactly the endpoints
  that some goroutine is working on, so it does not grow.\<close>

theorem jwks_refresh_exclusive:
  assumes "reachable refresh_init refresh_step s"
  shows "(rf_pc s g = Refreshing e l \<and> rf_pc s g' = Refreshing e l' \<longrightarrow> g = g') \<and>
         (map_of (lt_map (rf_table s)) e = None \<longleftrightarrow> holders s e = {})"
proof -
  have inv: "refresh_inv s" by (rule refresh_locks.reachable_inv [OF assms])
  note D = refresh_invD [OF inv]
  have "g = g'" if "rf_pc s g = Refreshing e l" "rf_pc s g' = Refreshing e l'"
  proof -
    have "l = l'" using D(1) [of g e l] D(1) [of g' e l'] that by simp
    then show ?thesis using D(7) [of g e l] D(7) [of g' e l'] that by simp
  qed
  moreover have "map_of (lt_map (rf_table s)) e = None \<longleftrightarrow> holders s e = {}"
    using D(4) holders_None [OF inv] by (metis not_None_eq)
  ultimately show ?thesis by blast
qed

definition idle_refresh :: refresh_sys where
  "idle_refresh = \<lparr>rf_table = jw_locks empty_jwks, rf_owner = (\<lambda>_. None), rf_pc = (\<lambda>_. Outside)\<rparr>"

theorem jwks_refresh_exclusive_witness:
  "\<exists>s. reachable refresh_init refresh_step s \<and> rf_pc s 7 = Waiting ''https://idp/keys'' 0 \<and>
       map_of (lt_map (rf_table s)) ''https://idp/keys'' \<noteq> None"
proof -
  have i: "reachable refresh_init refresh_step idle_refresh"
    by (rule reachable_init) (simp add: refresh_init_def idle_refresh_def empty_jwks_def)
  obtain l lt where a: "acquire_jwks_refresh_lock ''https://idp/keys'' (rf_table idle_refresh) = (l, lt)" by fastforce
  let ?t = "idle_refresh\<lparr>rf_table := lt, rf_pc := (rf_pc idle_refresh)(7 := Waiting ''https://idp/keys'' l)\<rparr>"
  have "refresh_step idle_refresh ?t" by (rule step_acquire [OF _ a]) (simp add: idle_refresh_def)
  then have r: "reachable refresh_init refresh_step ?t" by (rule reachable_step [OF i])
  have "l = 0" using a by (simp add: acquire_jwks_refresh_lock_def idle_refresh_def empty_jwks_def)
  moreover have "holders ?t ''https://idp/keys'' \<noteq> {}" by (auto simp: holders_def)
  then have "map_of (lt_map (rf_table ?t)) ''https://idp/keys'' \<noteq> None"
    using jwks_refresh_exclusive [OF r] by blast
  ultimately show ?thesis using r by (intro exI [of _ ?t]) simp
qed

text \<open>C16: the key set cache is bounded whatever endpoints the tenants use: it never holds more than 256
  entries, the entry stored last can be read back, and an unexpired entry is dropped only when the cache is
  full, and then the one that expires first.\<close>

theorem jwks_cache_bounded:
  assumes "list_all (\<lambda>(e, _). e \<noteq> []) (ops @ [(e, x, now)])"
    and "c = fold (\<lambda>(e, x, now). store_jwks_cache_entry e x now) ops []"
    and "c' = store_jwks_cache_entry e x now c"
  shows "length c' \<le> 256 \<and> map_of c' e = Some x \<and>
         (\<forall>(e1, x1) \<in> set c. e1 \<noteq> e \<and> now < je_expires_at x1 \<and> (e1, x1) \<notin> set c' \<longrightarrow>
            length c = 256 \<and> (\<forall>(e2, x2) \<in> set c'. e2 \<noteq> e \<longrightarrow> je_expires_at x1 \<le> je_expires_at x2))"
proof -
  have "jwks_cache_inv []" by (simp add: jwks_cache_inv_def)
  then have inv: "jwks_cache_inv c"
    unfolding assms(2) using assms(1) by (intro jwks_store.puts_inv) (auto simp: list_all_iff)
  have e: "e \<noteq> []" using assms(1) by simp
  have "jwks_cache_inv c'" using store_jwks_cache_entry_inv [OF inv e] assms(3) by simp
  then have l: "length c' \<le> 256" by (simp add: jwks_cache_inv_def max_jwks_cache_entries_def)
  have g: "map_of c' e = Some x" using store_jwks_cache_entry_load [OF inv e] assms(3) by simp
  show ?thesis
    using l g store_jwks_cache_entry_evicts [OF inv e assms(3)] by fastforce
qed

definition sample_jwks_entry :: jwks_cache_entry where
  "sample_jwks_entry = \<lparr>je_id = 0, je_keys = [(''k1'', RsaKey 65537 65537)], je_expires_at = 900 * second, je_last_forced_refresh = 0\<rparr>"

theorem jwks_cache_bounded_witness:
  "map_of (store_jwks_cache_entry ''https://b'' sample_jwks_entry 0
     (fold (\<lambda>(e, x, now). store_jwks_cache_entry e x now) [(''https://a'', sample_jwks_entry, 0)] [])) ''https://b'' =
   Some sample_jwks_entry"
  using jwks_cache_bounded [of "[(''https://a'', sample_jwks_entry, 0)]" "''https://b''" sample_jwks_entry 0, OF _ refl refl]
  by simp

text \<open>A client cannot make the gateway hammer the identity provider with unknown key ids: after a forced
  refresh that fetched the key set of an endpoint, every forced refresh within the next thirty seconds is
  answered from the cache without a request to the endpoint.\<close>

theorem jwks_forced_refresh_throttled:
  assumes "jwks_cache_inv (jw_cache st)" "e \<noteq> []"
    and "get_jwks_entry env (t0, t1, t2) e (Some p) st = (Inr x, st')" "jw_fetches st' \<noteq> jw_fetches st"
    and "t1 \<le> u1" "u1 < t1 + 30 * second"
    and "get_jwks_entry env (u0, u1, u2) e (Some p') st' = (res, st'')"
  shows "res = Inr x \<and> jw_fetches st'' = jw_fetches st'"
proof -
  have x: "map_of (jw_cache st') e = Some x" "je_last_forced_refresh x = t1"
    using get_jwks_entry_fetched [OF assms(3,4,1,2)] by auto
  have "time_sub u1 (je_last_forced_refresh x) < min_jwks_forced_refresh_delay"
    using assms(5,6) x(2) by (simp add: time_sub_def min_jwks_forced_refresh_delay_def)
  then show ?thesis using get_jwks_entry_forced_cached [OF x(1) _ assms(7)] by blast
qed

theorem jwks_forced_refresh_throttled_witness:
  "\<exists>x st1 st2. get_jwks_entry sample_env (0, 0, 0) ''https://a'' (Some sample_jwks_entry) empty_jwks = (Inr x, st1) \<and>
     get_jwks_entry sample_env (0, 7 * second, 0) ''https://a'' (Some x) st1 = (Inr x, st2) \<and>
     length (jw_fetches st2) = 1"
proof -
  let ?g = "get_jwks_entry sample_env (0, 0, 0) ''https://a'' (Some sample_jwks_entry) empty_jwks"
  have "\<not> isl (fst ?g)" "length (jw_fetches (snd ?g)) = 1" by code_simp+
  then obtain x st1 where g: "?g = (Inr x, st1)" "length (jw_fetches st1) = 1"
    by (cases ?g; cases "fst ?g") auto
  obtain res st2 where h: "get_jwks_entry sample_env (0, 7 * second, 0) ''https://a'' (Some x) st1 = (res, st2)"
    by fastforce
  have "jw_fetches st1 \<noteq> jw_fetches empty_jwks" using g(2) by (auto simp: empty_jwks_def)
  moreover have "jwks_cache_inv (jw_cache empty_jwks)" by (simp add: jwks_cache_inv_def empty_jwks_def)
  ultimately have "res = Inr x \<and> jw_fetches st2 = jw_fetches st1"
    using jwks_forced_refresh_throttled [OF _ _ g(1) _ _ _ h] by simp
  then show ?thesis using g h by auto
qed

text \<open>The time to live of a key set is at most one hour, but a \<open>max-age\<close> of more than about 292 years
  overflows the 64-bit duration: the time to live becomes negative and the cached key set is never used.\<close>

theorem jwks_ttl_bounds:
  "jwks_ttl cc \<le> 60 * minute \<and> jwks_ttl [] = 15 * minute \<and> jwks_ttl ''max-age=9223372037'' < 0"
proof -
  have "jwks_ttl ''max-age=9223372037'' < 0" by code_simp
  then show ?thesis by (simp add: jwks_ttl_def max_jwks_cache_ttl_def Let_def)
qed

text \<open>The public exponent of an RSA key is computed in 64 bits without an overflow check: a longer
  exponent is accepted as another number.\<close>

theorem rsa_exponent_wraps:
  "parse_jwk (\<lambda>_ _. True) [(''kty'', JString ''RSA''), (''n'', JString ''AQAB''), (''e'', JString ''AQAAAAAAAAAD'')] =
   Inr (RsaKey 65537 3) \<and> decode_base64_url_uint ''AQAAAAAAAAAD'' = Some (2 ^ 64 + 3)"
  by code_simp

end
