(* ===== verification/Coordinator.thy ===== *)
theory Coordinator
  imports RequestInfo Contracts
begin

text \<open>
  The cluster-wide rate limiter of \<open>internal/waf/coordinator.go\<close>: the RPC
  method \<open>CheckLimit\<close> of the leader with its bounded table of limiters, the
  connection slots of its accept loop, and the client side of a follower.

  A token bucket of \<open>golang.org/x/time/rate\<close> is a limit, a burst and the times
  of the calls of \<open>Allow\<close> so far; its decision is a function of those and a
  parameter of the definitions.  Rates are real numbers.  TLS, the RPC
  transport and the clock are parameters.
\<close>

record limiter =
  lm_limit :: real
  lm_burst :: int
  lm_calls :: "time list"

type_synonym bucket = "real \<Rightarrow> int \<Rightarrow> time list \<Rightarrow> time \<Rightarrow> bool"

definition new_limiter :: "real \<Rightarrow> int \<Rightarrow> limiter" where
  "new_limiter limit burst = \<lparr>lm_limit = limit, lm_burst = burst, lm_calls = []\<rparr>"

definition limiter_allow :: "bucket \<Rightarrow> time \<Rightarrow> limiter \<Rightarrow> bool \<times> limiter" where
  "limiter_allow bucket now l =
     (bucket (lm_limit l) (lm_burst l) (lm_calls l) now, l\<lparr>lm_calls := lm_calls l @ [now]\<rparr>)"

subsection \<open>State\<close>

(* src: internal/waf/coordinator.go:20 defaultCoordinatorMaxEntries *)
definition default_coordinator_max_entries :: int where
  "default_coordinator_max_entries = 10000"

(* src: internal/waf/coordinator.go:21 defaultCoordinatorEntryTTL *)
definition default_coordinator_entry_ttl :: duration where
  "default_coordinator_entry_ttl = 10 * minute"

(* src: internal/waf/coordinator.go:22 defaultCoordinatorRPCTimeout *)
definition default_coordinator_rpc_timeout :: duration where
  "default_coordinator_rpc_timeout = 2 * second"

(* src: internal/waf/coordinator.go:23 defaultCoordinatorIdleTimeout *)
definition default_coordinator_idle_timeout :: duration where
  "default_coordinator_idle_timeout = 30 * second"

(* src: internal/waf/coordinator.go:24 maxCoordinatorKeyBytes *)
definition max_coordinator_key_bytes :: nat where
  "max_coordinator_key_bytes = 512"

(* src: internal/waf/coordinator.go:25 maxCoordinatorConnections *)
definition max_coordinator_connections :: nat where
  "max_coordinator_connections = 256"

(* src: internal/waf/coordinator.go:28-33 coordinatorLimiter *)
record coordinator_limiter =
  cl_limiter :: limiter
  cl_limit :: real
  cl_burst :: int
  cl_last_seen :: time

text \<open>
  The fields of \<open>Coordinator\<close>.  A TLS configuration is present or not, with the
  fingerprint of its files; a connection is a number.
\<close>

(* src: internal/waf/coordinator.go:55-78 Coordinator *)
record coordinator =
  co_limiters :: "(string \<times> coordinator_limiter) list"
  co_role :: string
  co_address :: string
  co_secret :: string
  co_listener :: bool
  co_connections :: "nat list"
  co_max_entries :: int
  co_entry_ttl :: duration
  co_rpc_timeout :: duration
  co_server_tls :: bool
  co_client_tls :: bool
  co_tls_fingerprint :: string
  co_next_cleanup :: time
  co_client :: "nat option"
  co_client_conn :: "nat option"
  co_client_last_used :: time
  co_client_closed :: bool
  co_server_closed :: bool

(* src: internal/waf/coordinator.go:173-186 NewCoordinator *)
definition new_coordinator :: "string \<Rightarrow> string \<Rightarrow> string \<Rightarrow> coordinator" where
  "new_coordinator role address secret =
     \<lparr>co_limiters = [], co_role = role, co_address = address, co_secret = secret, co_listener = False,
      co_connections = [], co_max_entries = default_coordinator_max_entries,
      co_entry_ttl = default_coordinator_entry_ttl, co_rpc_timeout = default_coordinator_rpc_timeout,
      co_server_tls = False, co_client_tls = False, co_tls_fingerprint = [], co_next_cleanup = 0,
      co_client = None, co_client_conn = None, co_client_last_used = 0, co_client_closed = False,
      co_server_closed = False\<rparr>"

(* src: internal/waf/coordinator.go:151-157 Coordinator.sameConfiguration *)
definition same_configuration :: "coordinator option \<Rightarrow> coordinator option \<Rightarrow> bool" where
  "same_configuration c other =
     (case (c, other) of
        (Some c, Some d) \<Rightarrow> co_role c = co_role d \<and> co_address c = co_address d \<and> co_secret c = co_secret d \<and>
                            co_tls_fingerprint c = co_tls_fingerprint d
      | _ \<Rightarrow> False)"

subsection \<open>TLS material\<close>

datatype tls_error =
    ReadFileFailed string
  | KeyPairInvalid
  | NoCertificates
  | CertWithoutKey
  | UnsupportedRole string

text \<open>The file system, the key pair check, the CA pool check and SHA-256.\<close>

record tls_env =
  te_read :: "string \<Rightarrow> string option"
  te_key_pair :: "string \<Rightarrow> string \<Rightarrow> bool"
  te_ca_pool :: "string \<Rightarrow> bool"
  te_sha256 :: "string \<Rightarrow> string"

(* src: internal/waf/coordinator.go:83-112 Coordinator.ConfigureTLS (leader) *)
definition configure_tls_leader ::
  "tls_env \<Rightarrow> string \<Rightarrow> string \<Rightarrow> string \<Rightarrow> coordinator \<Rightarrow> tls_error + coordinator" where
  "configure_tls_leader env ca_file cert_file key_file c =
     (case te_read env cert_file of None \<Rightarrow> Inl (ReadFileFailed cert_file) | Some cert_pem \<Rightarrow>
      (case te_read env key_file of None \<Rightarrow> Inl (ReadFileFailed key_file) | Some key_pem \<Rightarrow>
       if \<not> te_key_pair env cert_pem key_pem then Inl KeyPairInvalid
       else
         let input = ''leader'' @ [CHR 0x00] @ cert_pem @ key_pem
         in if ca_file = []
            then Inr (c\<lparr>co_server_tls := True, co_tls_fingerprint := te_sha256 env input\<rparr>)
            else case te_read env ca_file of
                   None \<Rightarrow> Inl (ReadFileFailed ca_file)
                 | Some ca_pem \<Rightarrow>
                     if \<not> te_ca_pool env ca_pem then Inl NoCertificates
                     else Inr (c\<lparr>co_server_tls := True, co_tls_fingerprint := te_sha256 env (input @ ca_pem)\<rparr>)))"

(* src: internal/waf/coordinator.go:113-144 Coordinator.ConfigureTLS (follower) *)
definition configure_tls_follower ::
  "tls_env \<Rightarrow> string \<Rightarrow> string \<Rightarrow> string \<Rightarrow> string \<Rightarrow> coordinator \<Rightarrow> tls_error + coordinator" where
  "configure_tls_follower env ca_file cert_file key_file server_name c =
     (case te_read env ca_file of None \<Rightarrow> Inl (ReadFileFailed ca_file) | Some ca_pem \<Rightarrow>
      if \<not> te_ca_pool env ca_pem then Inl NoCertificates
      else
        let input = ''follower'' @ [CHR 0x00] @ server_name @ [CHR 0x00] @ ca_pem
        in if (cert_file = []) \<noteq> (key_file = []) then Inl CertWithoutKey
           else if cert_file = []
             then Inr (c\<lparr>co_client_tls := True, co_tls_fingerprint := te_sha256 env input\<rparr>)
           else case te_read env cert_file of None \<Rightarrow> Inl (ReadFileFailed cert_file) | Some cert_pem \<Rightarrow>
                (case te_read env key_file of None \<Rightarrow> Inl (ReadFileFailed key_file) | Some key_pem \<Rightarrow>
                 if \<not> te_key_pair env cert_pem key_pem then Inl KeyPairInvalid
                 else Inr (c\<lparr>co_client_tls := True,
                             co_tls_fingerprint := te_sha256 env (input @ cert_pem @ key_pem)\<rparr>)))"

(* src: internal/waf/coordinator.go:81-149 Coordinator.ConfigureTLS *)
definition configure_tls ::
  "tls_env \<Rightarrow> string \<Rightarrow> string \<Rightarrow> string \<Rightarrow> string \<Rightarrow> coordinator \<Rightarrow> tls_error + coordinator" where
  "configure_tls env ca_file cert_file key_file server_name c =
     (if co_role c = ''leader'' then configure_tls_leader env ca_file cert_file key_file c
      else if co_role c = ''follower'' then configure_tls_follower env ca_file cert_file key_file server_name c
      else Inl (UnsupportedRole (co_role c)))"

datatype start_error =
    SecretRequired
  | TlsNotConfigured
  | StartUnsupportedRole string
  | ListenFailed

text \<open>\<open>listen\<close>: whether registering the service and binding the address succeeds.\<close>

(* src: internal/waf/coordinator.go:209-222 Coordinator.startServer (listener) *)
definition start_server :: "(string \<Rightarrow> bool) \<Rightarrow> coordinator \<Rightarrow> start_error + coordinator" where
  "start_server listen c = (if listen (co_address c) then Inr (c\<lparr>co_listener := True\<rparr>) else Inl ListenFailed)"

(* src: internal/waf/coordinator.go:189-207 Coordinator.Start *)
definition start_coordinator :: "(string \<Rightarrow> bool) \<Rightarrow> coordinator \<Rightarrow> start_error + coordinator" where
  "start_coordinator listen c =
     (if co_secret c = [] then Inl SecretRequired
      else if co_role c = ''leader'' then
        if \<not> co_server_tls c then Inl TlsNotConfigured else start_server listen c
      else if co_role c = ''follower'' then
        if \<not> co_client_tls c then Inl TlsNotConfigured else Inr c
      else Inl (StartUnsupportedRole (co_role c)))"

subsection \<open>Checking a limit\<close>

(* src: internal/waf/coordinator.go:160-165 CheckLimitArgs *)
record check_limit_args =
  ca_key :: string
  ca_limit :: real
  ca_burst :: int
  ca_secret :: string

datatype check_error =
    Unauthorized
  | InvalidKey
  | InvalidLimit
  | NetClosed
  | DialFailed
  | DeadlineFailed
  | CallFailed

(* src: internal/waf/coordinator.go:284-292 CheckLimit (cleanup) *)
definition cleanup_limiters :: "time \<Rightarrow> coordinator \<Rightarrow> coordinator" where
  "cleanup_limiters now c =
     (if co_next_cleanup c = 0 \<or> \<not> now < co_next_cleanup c then
        c\<lparr>co_limiters := filter (\<lambda>(_, e). \<not> time_sub now (cl_last_seen e) > co_entry_ttl c) (co_limiters c),
          co_next_cleanup := now + max (co_entry_ttl c div 10) second\<rparr>
      else c)"

(* src: internal/waf/coordinator.go:297-304 CheckLimit (oldest entry) *)
fun oldest_limiter :: "(string \<times> coordinator_limiter) list \<Rightarrow> string \<Rightarrow> time \<Rightarrow> string" where
  "oldest_limiter [] oldest_key oldest = oldest_key"
| "oldest_limiter ((key, candidate) # rest) oldest_key oldest =
     (if oldest_key = [] \<or> cl_last_seen candidate < oldest
      then oldest_limiter rest key (cl_last_seen candidate)
      else oldest_limiter rest oldest_key oldest)"

(* src: internal/waf/coordinator.go:294-316 CheckLimit (entry) *)
definition touch_limiter :: "time \<Rightarrow> check_limit_args \<Rightarrow> coordinator \<Rightarrow> coordinator_limiter \<times> coordinator" where
  "touch_limiter now args c =
     (let entry = map_of (co_limiters c) (ca_key args)
      in if (case entry of None \<Rightarrow> True | Some e \<Rightarrow> cl_limit e \<noteq> ca_limit args \<or> cl_burst e \<noteq> ca_burst args)
         then
           let c = (if entry = None \<and> int (length (co_limiters c)) \<ge> co_max_entries c
                    then c\<lparr>co_limiters := assoc_del (oldest_limiter (co_limiters c) [] 0) (co_limiters c)\<rparr>
                    else c);
               e = \<lparr>cl_limiter = new_limiter (ca_limit args) (ca_burst args), cl_limit = ca_limit args,
                    cl_burst = ca_burst args, cl_last_seen = now\<rparr>
           in (e, c\<lparr>co_limiters := assoc_put (ca_key args) e (co_limiters c)\<rparr>)
         else
           let e = (the entry)\<lparr>cl_last_seen := now\<rparr>
           in (e, c\<lparr>co_limiters := assoc_put (ca_key args) e (co_limiters c)\<rparr>))"

(* src: internal/waf/coordinator.go:268-279 CheckLimit (argument checks) *)
definition check_limit_guard :: "check_limit_args \<Rightarrow> coordinator \<Rightarrow> check_error option" where
  "check_limit_guard args c =
     (if ca_secret args \<noteq> co_secret c then Some Unauthorized
      else if ca_key args = [] \<or> length (ca_key args) > max_coordinator_key_bytes then Some InvalidKey
      else if ca_limit args \<le> 0 \<or> ca_burst args \<le> 0 then Some InvalidLimit
      else None)"

(* src: internal/waf/coordinator.go:267-320 Coordinator.CheckLimit *)
definition check_limit ::
  "bucket \<Rightarrow> time \<Rightarrow> check_limit_args \<Rightarrow> coordinator \<Rightarrow> (check_error + bool) \<times> coordinator" where
  "check_limit bucket now args c =
     (case check_limit_guard args c of
        Some e \<Rightarrow> (Inl e, c)
      | None \<Rightarrow>
          let c = cleanup_limiters now c;
              (e, c) = touch_limiter now args c;
              (allowed, l) = limiter_allow bucket now (cl_limiter e)
          in (Inr allowed, c\<lparr>co_limiters := assoc_put (ca_key args) (e\<lparr>cl_limiter := l\<rparr>) (co_limiters c)\<rparr>))"

subsection \<open>A follower\<close>

text \<open>
  The network of a follower: dialling gives a connection or fails, setting the
  deadline before and after the call succeeds or not, and the call returns an
  error or the leader's answer.
\<close>

record rpc_env =
  re_dial :: "nat option"
  re_deadline_before :: bool
  re_call :: "check_limit_args \<Rightarrow> bool option"
  re_deadline_after :: bool
  re_time :: "nat \<Rightarrow> time"

(* src: internal/waf/coordinator.go:372-381 Coordinator.closeFollowerClientLocked *)
definition close_follower_client :: "coordinator \<Rightarrow> coordinator" where
  "close_follower_client c = c\<lparr>co_client := None, co_client_conn := None, co_client_last_used := 0\<rparr>"

(* src: internal/waf/coordinator.go:360-370 Coordinator.dialFollowerLocked *)
definition dial_follower :: "rpc_env \<Rightarrow> coordinator \<Rightarrow> coordinator option" where
  "dial_follower env c =
     (case re_dial env of
        None \<Rightarrow> None
      | Some conn \<Rightarrow> Some (c\<lparr>co_client_conn := Some conn, co_client := Some conn, co_client_last_used := re_time env 1\<rparr>))"

(* src: internal/waf/coordinator.go:323-358 Coordinator.Allow *)
definition coordinator_allow ::
  "bucket \<Rightarrow> rpc_env \<Rightarrow> string \<Rightarrow> real \<Rightarrow> int \<Rightarrow> coordinator \<Rightarrow> (check_error + bool) \<times> coordinator" where
  "coordinator_allow bucket env key limit burst c =
     (let args = \<lparr>ca_key = key, ca_limit = limit, ca_burst = burst, ca_secret = co_secret c\<rparr>
      in if co_role c = ''leader'' then check_limit bucket (re_time env 0) args c
         else if co_client_closed c then (Inl NetClosed, c)
         else
           let c = (if co_client c \<noteq> None \<and>
                       time_sub (re_time env 0) (co_client_last_used c) \<ge> default_coordinator_idle_timeout
                    then close_follower_client c else c)
           in case (if co_client c = None then dial_follower env c else Some c) of
                None \<Rightarrow> (Inl DialFailed, c)
              | Some c \<Rightarrow>
                  if \<not> re_deadline_before env then (Inl DeadlineFailed, close_follower_client c)
                  else case re_call env args of
                         None \<Rightarrow> (Inl CallFailed, close_follower_client c)
                       | Some allowed \<Rightarrow>
                           let c = c\<lparr>co_client_last_used := re_time env 2\<rparr>
                           in if \<not> re_deadline_after env then (Inl DeadlineFailed, close_follower_client c)
                              else (Inr allowed, c))"

text \<open>The second result lists the connections that are closed.\<close>

(* src: internal/waf/coordinator.go:384-417 Coordinator.Close *)
definition close_coordinator :: "coordinator \<Rightarrow> coordinator \<times> nat list" where
  "close_coordinator c =
     (c\<lparr>co_client_closed := True, co_client := None, co_client_conn := None, co_client_last_used := 0,
        co_server_closed := True, co_listener := False\<rparr>,
      (case co_client c of
         Some cl \<Rightarrow> [cl]
       | None \<Rightarrow> (case co_client_conn c of Some cc \<Rightarrow> [cc] | None \<Rightarrow> [])) @ co_connections c)"

subsection \<open>The accept loop\<close>

text \<open>
  The accept loop, the goroutines of the accepted connections and \<open>Close\<close>
  interleave.  \<open>ac_slots\<close> is the number of tokens in the channel
  \<open>connectionSlots\<close>, \<open>ac_pending\<close> the connection that has a slot and is not yet
  registered, \<open>ac_finishing\<close> the connections that are removed from the map but
  still have their slot, \<open>ac_closing\<close> the snapshot that \<open>Close\<close> works on.
\<close>

record accept_state =
  ac_slots :: nat
  ac_running :: bool
  ac_pending :: "nat option"
  ac_connections :: "nat list"
  ac_finishing :: "nat list"
  ac_server_closed :: bool
  ac_closing :: "nat set"
  ac_closed :: "nat set"

(* src: internal/waf/coordinator.go:225-262 startServer (accept loop) *)
inductive accept_step :: "accept_state \<Rightarrow> accept_state \<Rightarrow> bool" where
  accept_slot: "\<lbrakk> ac_running s; ac_pending s = None; ac_slots s < max_coordinator_connections;
      conn \<notin> set (ac_connections s) \<union> set (ac_finishing s) \<union> ac_closed s \<rbrakk> \<Longrightarrow>
    accept_step s (s\<lparr>ac_slots := ac_slots s + 1, ac_pending := Some conn\<rparr>)"
| accept_full: "\<lbrakk> ac_running s; ac_pending s = None; \<not> ac_slots s < max_coordinator_connections \<rbrakk> \<Longrightarrow>
    accept_step s (s\<lparr>ac_closed := insert conn (ac_closed s)\<rparr>)"
| accept_register: "\<lbrakk> ac_pending s = Some conn; \<not> ac_server_closed s \<rbrakk> \<Longrightarrow>
    accept_step s (s\<lparr>ac_pending := None, ac_connections := conn # ac_connections s\<rparr>)"
| accept_reject: "\<lbrakk> ac_pending s = Some conn; ac_server_closed s \<rbrakk> \<Longrightarrow>
    accept_step s (s\<lparr>ac_pending := None, ac_slots := ac_slots s - 1, ac_running := False,
                     ac_closed := insert conn (ac_closed s)\<rparr>)"
| accept_listener_closed: "\<lbrakk> ac_running s; ac_pending s = None; ac_server_closed s \<rbrakk> \<Longrightarrow>
    accept_step s (s\<lparr>ac_running := False\<rparr>)"
| serve_done: "conn \<in> set (ac_connections s) \<Longrightarrow>
    accept_step s (s\<lparr>ac_connections := remove1 conn (ac_connections s), ac_finishing := conn # ac_finishing s\<rparr>)"
| serve_release: "conn \<in> set (ac_finishing s) \<Longrightarrow>
    accept_step s (s\<lparr>ac_finishing := remove1 conn (ac_finishing s), ac_slots := ac_slots s - 1,
                     ac_closed := insert conn (ac_closed s)\<rparr>)"
| close_begin: "accept_step s (s\<lparr>ac_server_closed := True, ac_closing := ac_closing s \<union> set (ac_connections s)\<rparr>)"
| close_conn: "conn \<in> ac_closing s \<Longrightarrow>
    accept_step s (s\<lparr>ac_closing := ac_closing s - {conn}, ac_closed := insert conn (ac_closed s)\<rparr>)"

definition accept_init :: "accept_state \<Rightarrow> bool" where
  "accept_init s = (ac_slots s = 0 \<and> ac_pending s = None \<and> ac_connections s = [] \<and> ac_finishing s = [] \<and>
     \<not> ac_server_closed s \<and> ac_closing s = {} \<and> ac_closed s = {})"

subsection \<open>The bounded table of limiters\<close>

definition limiters_inv :: "coordinator \<Rightarrow> bool" where
  "limiters_inv c \<longleftrightarrow> wf_assoc (co_limiters c) \<and> [] \<notin> fst ` set (co_limiters c) \<and>
     int (length (co_limiters c)) \<le> co_max_entries c \<and> co_max_entries c = default_coordinator_max_entries"

lemma cleanup_limiters_inv: "limiters_inv c \<Longrightarrow> limiters_inv (cleanup_limiters now c)"
  by (auto simp: limiters_inv_def cleanup_limiters_def intro: order_trans [OF of_nat_mono [OF length_filter_le]])

lemma cleanup_limiters_other [simp]:
  "co_secret (cleanup_limiters now c) = co_secret c" "co_max_entries (cleanup_limiters now c) = co_max_entries c"
  by (simp_all add: cleanup_limiters_def)

lemma oldest_limiter_member:
  "\<lbrakk> ms \<noteq> []; [] \<notin> fst ` set ms \<rbrakk> \<Longrightarrow> oldest_limiter ms [] t \<in> fst ` set ms"
proof -
  have "[] \<notin> fst ` set ms \<Longrightarrow> oldest_limiter ms k t \<in> insert k (fst ` set ms) \<and>
      (ms \<noteq> [] \<longrightarrow> k = [] \<longrightarrow> oldest_limiter ms k t \<in> fst ` set ms)" for k t
    by (induction ms k t rule: oldest_limiter.induct) auto
  then show "\<lbrakk> ms \<noteq> []; [] \<notin> fst ` set ms \<rbrakk> \<Longrightarrow> ?thesis" by blast
qed

lemma touch_limiter_inv:
  assumes inv: "limiters_inv c" and k: "ca_key args \<noteq> []" and t: "touch_limiter now args c = (e, c')"
  shows "limiters_inv c' \<and> map_of (co_limiters c') (ca_key args) = Some e \<and>
         cl_limit e = ca_limit args \<and> cl_burst e = ca_burst args"
proof (cases "map_of (co_limiters c) (ca_key args)")
  case None
  let ?old = "oldest_limiter (co_limiters c) [] 0"
  let ?ms = "if int (length (co_limiters c)) \<ge> co_max_entries c then assoc_del ?old (co_limiters c) else co_limiters c"
  have c': "co_limiters c' = assoc_put (ca_key args) e ?ms" "co_max_entries c' = co_max_entries c"
    "cl_limit e = ca_limit args" "cl_burst e = ca_burst args"
    using t None by (auto simp: touch_limiter_def Let_def)
  have "int (length ?ms) < co_max_entries c"
  proof (cases "int (length (co_limiters c)) \<ge> co_max_entries c")
    case True
    then have "co_limiters c \<noteq> []" using inv by (auto simp: limiters_inv_def default_coordinator_max_entries_def)
    then have "?old \<in> fst ` set (co_limiters c)" using inv by (intro oldest_limiter_member) (auto simp: limiters_inv_def)
    then show ?thesis using length_assoc_del_less inv True by (fastforce simp: limiters_inv_def)
  qed auto
  moreover have "wf_assoc ?ms" "[] \<notin> fst ` set ?ms" using inv by (auto simp: limiters_inv_def)
  ultimately have "limiters_inv c'"
    using c' k inv by (auto simp: limiters_inv_def length_assoc_put)
  then show ?thesis using c' by simp
next
  case (Some e0)
  then have c': "co_limiters c' = assoc_put (ca_key args) e (co_limiters c)" "co_max_entries c' = co_max_entries c"
    "cl_limit e = ca_limit args" "cl_burst e = ca_burst args"
    using t by (auto simp: touch_limiter_def Let_def split: if_splits)
  have "ca_key args \<in> fst ` set (co_limiters c)" using map_of_SomeD [OF Some] by blast
  then show ?thesis using c' k inv by (auto simp: limiters_inv_def length_assoc_put)
qed

lemma touch_limiter_secret: "touch_limiter now args c = (e, c') \<Longrightarrow> co_secret c' = co_secret c"
  by (auto simp: touch_limiter_def Let_def split: if_splits)

lemma check_limit_None:
  assumes "limiters_inv c" "check_limit_guard args c = None" "check_limit bucket now args c = (res, c')"
  shows "limiters_inv c' \<and> co_secret c' = co_secret c \<and>
    (\<exists>e. map_of (co_limiters c') (ca_key args) = Some e \<and> cl_limit e = ca_limit args \<and> cl_burst e = ca_burst args)"
proof -
  have k: "ca_key args \<noteq> []" using assms(2) by (auto simp: check_limit_guard_def split: if_splits)
  obtain e c1 where t: "touch_limiter now args (cleanup_limiters now c) = (e, c1)" by fastforce
  have i: "limiters_inv c1" "map_of (co_limiters c1) (ca_key args) = Some e"
    "cl_limit e = ca_limit args" "cl_burst e = ca_burst args"
    using touch_limiter_inv [OF cleanup_limiters_inv [OF assms(1)] k t] by auto
  obtain l where c': "c' = c1\<lparr>co_limiters := assoc_put (ca_key args) (e\<lparr>cl_limiter := l\<rparr>) (co_limiters c1)\<rparr>"
    using assms(2,3) t by (auto simp: check_limit_def Let_def limiter_allow_def)
  have "ca_key args \<in> fst ` set (co_limiters c1)" using map_of_SomeD [OF i(2)] by blast
  then show ?thesis using i c' k touch_limiter_secret [OF t] by (auto simp: limiters_inv_def length_assoc_put)
qed

definition check_op :: "bucket \<Rightarrow> time \<times> check_limit_args \<Rightarrow> coordinator \<Rightarrow> coordinator" where
  "check_op bucket x c = snd (check_limit bucket (fst x) (snd x) c)"

lemma check_op_refused: "check_limit_guard (snd x) c \<noteq> None \<Longrightarrow> check_op bucket x c = c"
  by (auto simp: check_op_def check_limit_def)

interpretation limiter_table: bounded_store
  "\<lambda>c k. map_option (\<lambda>e. (cl_limit e, cl_burst e)) (map_of (co_limiters c) k)"
  "check_op bucket" "\<lambda>_. True" "\<lambda>x c. check_limit_guard (snd x) c = None"
  "\<lambda>x. ca_key (snd x)" "\<lambda>x. (ca_limit (snd x), ca_burst (snd x))"
  "\<lambda>c. length (co_limiters c)" limiters_inv "nat default_coordinator_max_entries"
proof (unfold_locales, goal_cases)
  case (1 c x)
  then show ?case
    using check_limit_None [of c "snd x" bucket "fst x", OF _ _ surjective_pairing] check_op_refused [of x c bucket]
    by (cases "check_limit_guard (snd x) c") (auto simp: check_op_def)
next
  case (2 c)
  then show ?case by (simp add: limiters_inv_def le_nat_iff)
next
  case (3 c x)
  then show ?case using check_limit_None [of c "snd x" bucket "fst x", OF _ _ surjective_pairing] by (auto simp: check_op_def)
next
  case (4 c x k)
  then show ?case by (simp add: check_op_refused)
qed

subsection \<open>Connection slots\<close>

definition accept_inv :: "accept_state \<Rightarrow> bool" where
  "accept_inv s \<longleftrightarrow>
     ac_slots s = (if ac_pending s = None then 0 else 1) + length (ac_connections s) + length (ac_finishing s) \<and>
     ac_slots s \<le> max_coordinator_connections \<and>
     (ac_server_closed s \<longrightarrow> set (ac_connections s) \<subseteq> ac_closing s \<union> ac_closed s)"

lemma accept_inv_step:
  assumes "accept_inv s" "accept_step s t"
  shows "accept_inv t"
  using assms(2,1)
proof (induction rule: accept_step.induct)
  case (serve_done conn s)
  then obtain n where "length (ac_connections s) = Suc n" by (cases "ac_connections s") auto
  with serve_done show ?case
    using set_remove1_subset [of conn "ac_connections s"] by (auto simp: accept_inv_def length_remove1)
next
  case (serve_release conn s)
  then obtain n where "length (ac_finishing s) = Suc n" by (cases "ac_finishing s") auto
  with serve_release show ?case by (auto simp: accept_inv_def length_remove1)
qed (auto simp: accept_inv_def)

interpretation accept_loop: transition_system accept_init accept_step accept_inv
  by unfold_locales (simp add: accept_init_def accept_inv_def, rule accept_inv_step)

subsection \<open>Properties\<close>

definition sample_coordinator :: coordinator where
  "sample_coordinator = new_coordinator ''leader'' '':9443'' ''s3cret''"

definition sample_args :: check_limit_args where
  "sample_args = \<lparr>ca_key = ''a.com:192.0.2.1'', ca_limit = 1, ca_burst = 2, ca_secret = ''s3cret''\<rparr>"

text \<open>A bucket without refill: the first \<open>burst\<close> calls are allowed.\<close>

definition sample_bucket :: bucket where
  "sample_bucket limit burst calls now = (int (length calls) < burst)"

text \<open>C17: followers cannot exhaust the leader's memory: after any sequence of calls of \<open>CheckLimit\<close>, with any
  keys and from callers with or without the secret, the table holds at most 10000 limiters, and a call that
  passes the argument checks leaves the limiter of its key with the requested rate and burst.\<close>

theorem check_limit_table_bounded:
  assumes "c = fold (check_op bucket) ops (new_coordinator role address secret)"
  shows "length (co_limiters c) \<le> 10000 \<and>
         (\<forall>now args. check_limit_guard args c = None \<longrightarrow>
            map_option (\<lambda>e. (cl_limit e, cl_burst e))
              (map_of (co_limiters (snd (check_limit bucket now args c))) (ca_key args)) = Some (ca_limit args, ca_burst args))"
proof -
  have "limiters_inv (new_coordinator role address secret)"
    by (simp add: limiters_inv_def new_coordinator_def default_coordinator_max_entries_def)
  then have i: "limiters_inv c" unfolding assms by (intro limiter_table.puts_inv) (simp_all add: list_all_iff)
  then have "length (co_limiters c) \<le> 10000"
    using limiter_table.inv_load [OF i] by (simp add: default_coordinator_max_entries_def)
  moreover have "map_option (\<lambda>e. (cl_limit e, cl_burst e))
      (map_of (co_limiters (snd (check_limit bucket now args c))) (ca_key args)) = Some (ca_limit args, ca_burst args)"
    if "check_limit_guard args c = None" for now args
    using limiter_table.get_put [of c "(now, args)" bucket] i that by (simp add: check_op_def)
  ultimately show ?thesis by blast
qed

theorem check_limit_table_bounded_witness:
  "map_option (\<lambda>e. (cl_limit e, cl_burst e))
     (map_of (co_limiters (snd (check_limit sample_bucket 7 sample_args sample_coordinator))) (ca_key sample_args)) = Some (1, 2)"
proof -
  have g: "check_limit_guard sample_args sample_coordinator = None" by code_simp
  have "sample_coordinator = fold (check_op sample_bucket) [] (new_coordinator ''leader'' '':9443'' ''s3cret'')"
    by (simp add: sample_coordinator_def)
  from check_limit_table_bounded [OF this] g have "map_option (\<lambda>e. (cl_limit e, cl_burst e))
     (map_of (co_limiters (snd (check_limit sample_bucket 7 sample_args sample_coordinator))) (ca_key sample_args)) =
     Some (ca_limit sample_args, ca_burst sample_args)" by blast
  then show ?thesis by (simp add: sample_args_def)
qed

text \<open>The leader answers only callers that know the secret and send a valid key and limit; every other call
  is an error that leaves the coordinator unchanged, and it never fails for another reason.\<close>

theorem check_limit_guarded:
  "case check_limit bucket now args c of
     (Inl e, c') \<Rightarrow> c' = c \<and>
        ((e = Unauthorized \<and> ca_secret args \<noteq> co_secret c) \<or>
         (e = InvalidKey \<and> ca_secret args = co_secret c \<and> (ca_key args = [] \<or> 512 < length (ca_key args))) \<or>
         (e = InvalidLimit \<and> ca_secret args = co_secret c \<and> (ca_limit args \<le> 0 \<or> ca_burst args \<le> 0)))
   | (Inr allowed, c') \<Rightarrow> ca_secret args = co_secret c \<and> 0 < length (ca_key args) \<and> length (ca_key args) \<le> 512 \<and>
        0 < ca_limit args \<and> 0 < ca_burst args"
  by (auto simp: check_limit_def check_limit_guard_def max_coordinator_key_bytes_def Let_def
      split: option.splits prod.splits sum.splits if_splits)

text \<open>A client is measured by one bucket across the cluster: while its entry is in the table with the same
  rate and burst and is not due for cleanup, the decision of a call is the bucket's decision on all earlier
  calls for that key, and the call is added to them.\<close>

theorem check_limit_decision:
  assumes "check_limit_guard args c = None" "map_of (co_limiters c) (ca_key args) = Some e"
    and "cl_limit e = ca_limit args" "cl_burst e = ca_burst args"
    and "time_sub now (cl_last_seen e) \<le> co_entry_ttl c" "wf_assoc (co_limiters c)"
    and "check_limit bucket now args c = (res, c')"
  shows "res = Inr (bucket (lm_limit (cl_limiter e)) (lm_burst (cl_limiter e)) (lm_calls (cl_limiter e)) now) \<and>
         map_option (lm_calls \<circ> cl_limiter) (map_of (co_limiters c') (ca_key args)) = Some (lm_calls (cl_limiter e) @ [now])"
proof -
  have m: "map_of (co_limiters (cleanup_limiters now c)) (ca_key args) = Some e"
    using assms(2,5,6) by (auto simp: cleanup_limiters_def map_of_filter_wf)
  then have "touch_limiter now args (cleanup_limiters now c) =
      (e\<lparr>cl_last_seen := now\<rparr>, (cleanup_limiters now c)\<lparr>co_limiters :=
         assoc_put (ca_key args) (e\<lparr>cl_last_seen := now\<rparr>) (co_limiters (cleanup_limiters now c))\<rparr>)"
    using assms(3,4) by (simp add: touch_limiter_def Let_def)
  then show ?thesis
    using assms(1,7) by (auto simp: check_limit_def limiter_allow_def Let_def)
qed

theorem check_limit_decision_witness:
  "fst (check_limit sample_bucket 9 sample_args (fold (check_op sample_bucket) [(7, sample_args), (8, sample_args)] sample_coordinator))
   = Inr False"
proof -
  let ?c = "fold (check_op sample_bucket) [(7, sample_args), (8, sample_args)] sample_coordinator"
  let ?e = "\<lparr>cl_limiter = \<lparr>lm_limit = 1, lm_burst = 2, lm_calls = [7, 8]\<rparr>, cl_limit = 1, cl_burst = 2, cl_last_seen = 8\<rparr>"
  have h: "check_limit_guard sample_args ?c = None" "map_of (co_limiters ?c) (ca_key sample_args) = Some ?e"
    "cl_limit ?e = ca_limit sample_args" "cl_burst ?e = ca_burst sample_args"
    "time_sub 9 (cl_last_seen ?e) \<le> co_entry_ttl ?c" "wf_assoc (co_limiters ?c)"
    by code_simp+
  show ?thesis
    using check_limit_decision [OF h surjective_pairing] by (simp add: sample_bucket_def)
qed

text \<open>The leader serves at most 256 connections at a time, a slot is never lost, and shutting down leaves no
  connection behind: once the server is closed, every registered connection is closed or about to be closed.\<close>

theorem coordinator_connections_bounded:
  assumes "reachable accept_init accept_step s"
  shows "length (ac_connections s) \<le> 256 \<and>
         (ac_pending s = None \<and> ac_connections s = [] \<and> ac_finishing s = [] \<longrightarrow> ac_slots s = 0) \<and>
         (ac_server_closed s \<longrightarrow> set (ac_connections s) \<subseteq> ac_closing s \<union> ac_closed s)"
  using accept_loop.reachable_inv [OF assms]
  by (auto simp: accept_inv_def max_coordinator_connections_def split: if_splits)

definition idle_accept :: accept_state where
  "idle_accept = \<lparr>ac_slots = 0, ac_running = True, ac_pending = None, ac_connections = [], ac_finishing = [],
     ac_server_closed = False, ac_closing = {}, ac_closed = {}\<rparr>"

theorem coordinator_connections_bounded_witness:
  "\<exists>s. reachable accept_init accept_step s \<and> ac_server_closed s \<and> ac_connections s = [1] \<and> 1 \<in> ac_closing s \<union> ac_closed s"
proof -
  let ?s1 = "idle_accept\<lparr>ac_slots := ac_slots idle_accept + 1, ac_pending := Some 1\<rparr>"
  let ?s2 = "?s1\<lparr>ac_pending := None, ac_connections := 1 # ac_connections ?s1\<rparr>"
  let ?s3 = "?s2\<lparr>ac_server_closed := True, ac_closing := ac_closing ?s2 \<union> set (ac_connections ?s2)\<rparr>"
  have "reachable accept_init accept_step idle_accept"
    by (rule reachable_init) (simp add: accept_init_def idle_accept_def)
  then have "reachable accept_init accept_step ?s1"
    by (rule reachable_step) (rule accept_slot, simp_all add: idle_accept_def max_coordinator_connections_def)
  then have "reachable accept_init accept_step ?s2"
    by (rule reachable_step) (rule accept_register, simp_all add: idle_accept_def)
  then have r: "reachable accept_init accept_step ?s3"
    by (rule reachable_step) (rule close_begin)
  have c: "ac_server_closed ?s3" "ac_connections ?s3 = [1]" by (simp_all add: idle_accept_def)
  then have "1 \<in> ac_closing ?s3 \<union> ac_closed ?s3"
    using coordinator_connections_bounded [OF r] by simp
  then show ?thesis using r c by (intro exI [of _ ?s3]) simp
qed

end
