(* ===== verification/RateLimit.thy ===== *)
theory RateLimit
  imports Coordinator
begin

text \<open>
  The per-client rate limit of \<open>internal/waf/middleware.go\<close>: the cluster-wide
  limiter first, the local table when that fails.

  The expiring LRU caches of \<open>hashicorp/golang-lru\<close> are association lists; the
  parameter \<open>evict\<close> stands for what the library drops by age or capacity before
  it answers.  The documented behaviour that theorems rely on is that it drops
  entries and changes nothing else.
\<close>

type_synonym ('k, 'v) evict = "('k \<times> 'v) list \<Rightarrow> ('k \<times> 'v) list"

definition lru_get :: "('k, 'v) evict \<Rightarrow> 'k \<Rightarrow> ('k \<times> 'v) list \<Rightarrow> 'v option" where
  "lru_get evict k c = map_of (evict c) k"

definition lru_add :: "('k, 'v) evict \<Rightarrow> 'k \<Rightarrow> 'v \<Rightarrow> ('k \<times> 'v) list \<Rightarrow> ('k \<times> 'v) list" where
  "lru_add evict k v c = evict (assoc_put k v c)"

definition drops_only :: "('k, 'v) evict \<Rightarrow> bool" where
  "drops_only evict \<longleftrightarrow> (\<forall>c. set (evict c) \<subseteq> set c)"

definition keep_all :: "('k, 'v) evict" where
  "keep_all c = c"

(* src: internal/waf/middleware.go:85-89 rateLimiterState *)
record rate_limiter_state =
  rls_requests_per_minute :: int
  rls_burst :: int
  rls_limiter :: limiter

record rate_state =
  rt_coordinator :: "coordinator option"
  rt_limiters :: "(string \<times> rate_limiter_state) list"

text \<open>A limiter object of the local table that fits the policy, and its call of \<open>Allow\<close>.\<close>

(* src: internal/waf/middleware.go:1462-1466 allowRateLimitedRequest (lookup) *)
definition matching_limiter ::
  "(string, rate_limiter_state) evict \<Rightarrow> string \<Rightarrow> rate_limit_policy \<Rightarrow> rate_state \<Rightarrow> rate_limiter_state option" where
  "matching_limiter evict key policy st =
     (case lru_get evict key (rt_limiters st) of
        None \<Rightarrow> None
      | Some e \<Rightarrow> if rls_requests_per_minute e = rl_requests_per_minute policy \<and> rls_burst e = rl_burst policy
                  then Some e else None)"

definition use_limiter :: "bucket \<Rightarrow> time \<Rightarrow> string \<Rightarrow> rate_limiter_state \<Rightarrow> rate_state \<Rightarrow> bool \<times> rate_state" where
  "use_limiter bucket now key e st =
     (let (allowed, l) = limiter_allow bucket now (rls_limiter e)
      in (allowed, st\<lparr>rt_limiters := assoc_put key (e\<lparr>rls_limiter := l\<rparr>) (rt_limiters st)\<rparr>))"

(* src: internal/waf/middleware.go:1462-1483 allowRateLimitedRequest (local fallback) *)
definition allow_local ::
  "bucket \<Rightarrow> (string, rate_limiter_state) evict \<Rightarrow> time \<Rightarrow> string \<Rightarrow> rate_limit_policy \<Rightarrow> rate_state \<Rightarrow> bool \<times> rate_state" where
  "allow_local bucket evict now key policy st =
     (case matching_limiter evict key policy st of
        Some e \<Rightarrow> use_limiter bucket now key e st
      | None \<Rightarrow>
          let per_second = real_of_int (rl_requests_per_minute policy) / 60;
              replacement = \<lparr>rls_requests_per_minute = rl_requests_per_minute policy, rls_burst = rl_burst policy,
                             rls_limiter = new_limiter per_second (rl_burst policy)\<rparr>;
              (allowed, l) = limiter_allow bucket now (rls_limiter replacement)
          in (allowed, st\<lparr>rt_limiters := lru_add evict key (replacement\<lparr>rls_limiter := l\<rparr>) (rt_limiters st)\<rparr>))"

(* src: internal/waf/middleware.go:1446 allowRateLimitedRequest (key) *)
definition rate_limit_key :: "string \<Rightarrow> string \<Rightarrow> string" where
  "rate_limit_key tenant client_ip = tenant @ '':'' @ rate_limit_client_key client_ip"

(* src: internal/waf/middleware.go:1441-1484 ProxyHandler.allowRateLimitedRequest *)
definition allow_rate_limited_request ::
  "bucket \<Rightarrow> (string, rate_limiter_state) evict \<Rightarrow> rpc_env \<Rightarrow> time \<Rightarrow> string \<Rightarrow> string \<Rightarrow> rate_limit_policy \<Rightarrow>
   rate_state \<Rightarrow> bool \<times> rate_state" where
  "allow_rate_limited_request bucket evict env now tenant client_ip policy st =
     (if rl_requests_per_minute policy \<le> 0 then (True, st)
      else
        let key = rate_limit_key tenant client_ip
        in case rt_coordinator st of
             None \<Rightarrow> allow_local bucket evict now key policy st
           | Some coord \<Rightarrow>
               let per_second = real_of_int (rl_requests_per_minute policy) / 60;
                   (res, coord') = coordinator_allow bucket env key per_second (rl_burst policy) coord;
                   st = st\<lparr>rt_coordinator := Some coord'\<rparr>
               in case res of
                    Inr allowed \<Rightarrow> (allowed, st)
                  | Inl _ \<Rightarrow> allow_local bucket evict now key policy st)"

subsection \<open>Lemmas\<close>

text \<open>The decisions for requests of one client at the given times.\<close>

fun allow_times ::
  "bucket \<Rightarrow> (string, rate_limiter_state) evict \<Rightarrow> rpc_env \<Rightarrow> string \<Rightarrow> string \<Rightarrow> rate_limit_policy \<Rightarrow>
   time list \<Rightarrow> rate_state \<Rightarrow> bool list" where
  "allow_times bucket evict env tenant ip policy [] st = []"
| "allow_times bucket evict env tenant ip policy (t # ts) st =
     (let (a, st') = allow_rate_limited_request bucket evict env t tenant ip policy st
      in a # allow_times bucket evict env tenant ip policy ts st')"

lemma allow_times_local:
  assumes "0 < rl_requests_per_minute policy" "rt_coordinator st = None"
    and "map_of (rt_limiters st) (rate_limit_key tenant ip) =
      Some \<lparr>rls_requests_per_minute = rl_requests_per_minute policy, rls_burst = rl_burst policy,
        rls_limiter = \<lparr>lm_limit = r, lm_burst = b, lm_calls = cs\<rparr>\<rparr>"
  shows "allow_times bucket keep_all env tenant ip policy ts st = map (\<lambda>i. bucket r b (cs @ take i ts) (ts ! i)) [0..<length ts]"
  using assms
proof (induction ts arbitrary: st cs)
  case Nil
  then show ?case by simp
next
  case (Cons t ts)
  let ?k = "rate_limit_key tenant ip"
  let ?e = "\<lparr>rls_requests_per_minute = rl_requests_per_minute policy, rls_burst = rl_burst policy,
        rls_limiter = \<lparr>lm_limit = r, lm_burst = b, lm_calls = cs @ [t]\<rparr>\<rparr>"
  let ?st = "st\<lparr>rt_limiters := assoc_put ?k ?e (rt_limiters st)\<rparr>"
  have "allow_rate_limited_request bucket keep_all env t tenant ip policy st = (bucket r b cs t, ?st)"
    using Cons.prems
    by (simp add: allow_rate_limited_request_def allow_local_def matching_limiter_def use_limiter_def
        lru_get_def keep_all_def limiter_allow_def Let_def)
  moreover have "allow_times bucket keep_all env tenant ip policy ts ?st =
      map (\<lambda>i. bucket r b ((cs @ [t]) @ take i ts) (ts ! i)) [0..<length ts]"
    using Cons.prems by (intro Cons.IH) simp_all
  ultimately show ?case
    by (simp add: upt_conv_Cons map_Suc_upt [symmetric] del: upt_Suc)
qed

subsection \<open>Properties\<close>


definition no_rpc :: rpc_env where
  "no_rpc = \<lparr>re_dial = None, re_deadline_before = True, re_call = (\<lambda>_. None), re_deadline_after = True, re_time = (\<lambda>_. 0)\<rparr>"


text \<open>C19: the cluster decides when it answers, and its failure never opens or closes the gate: with a coordinator,
  an answer is the decision, and after any error the decision is that of the local limiter.\<close>

theorem rate_limit_coordinator_fallback:
  assumes "0 < rl_requests_per_minute policy" "rt_coordinator st = Some coord"
    and "coordinator_allow bucket env (rate_limit_key tenant ip) (real_of_int (rl_requests_per_minute policy) / 60)
           (rl_burst policy) coord = (res, coord')"
  shows "fst (allow_rate_limited_request bucket evict env now tenant ip policy st) =
    (case res of Inr allowed \<Rightarrow> allowed
     | Inl _ \<Rightarrow> fst (allow_rate_limited_request bucket evict env now tenant ip policy (st\<lparr>rt_coordinator := None\<rparr>)))"
  using assms
  by (auto simp: allow_rate_limited_request_def allow_local_def matching_limiter_def use_limiter_def Let_def
      split: sum.splits option.splits prod.splits)

theorem rate_limit_coordinator_fallback_witness:
  "fst (allow_rate_limited_request sample_bucket keep_all no_rpc 5 ''a.com'' ''192.0.2.1'' \<lparr>rl_requests_per_minute = 60, rl_burst = 0\<rparr>
     \<lparr>rt_coordinator = Some (new_coordinator ''follower'' '':1'' ''s''), rt_limiters = []\<rparr>) = False"
proof -
  let ?p = "\<lparr>rl_requests_per_minute = 60, rl_burst = 0\<rparr>"
  let ?c = "new_coordinator ''follower'' '':1'' ''s''"
  have "coordinator_allow sample_bucket no_rpc (rate_limit_key ''a.com'' ''192.0.2.1'')
      (real_of_int (rl_requests_per_minute ?p) / 60) (rl_burst ?p) ?c = (Inl DialFailed, ?c)"
    by (simp add: coordinator_allow_def new_coordinator_def no_rpc_def dial_follower_def)
  from rate_limit_coordinator_fallback [OF _ _ this, of "\<lparr>rt_coordinator = Some ?c, rt_limiters = []\<rparr>" keep_all 5]
  show ?thesis
    by (simp add: allow_rate_limited_request_def allow_local_def matching_limiter_def lru_get_def keep_all_def
        limiter_allow_def new_limiter_def sample_bucket_def)
qed

end
