(* ===== verification/GraphQL.thy ===== *)
theory GraphQL
  imports RequestInfo GoEncoding
begin

text \<open>
  The GraphQL protection of \<open>internal/waf/graphql.go\<close>.  The parser of
  \<open>graphql-go\<close> and \<open>json.Unmarshal\<close> are parameters; the syntax tree has the
  nodes the program looks at.  A nil selection set is an empty list of
  selections, which the program treats alike.
\<close>

subsection \<open>Syntax trees\<close>

datatype selection =
    Field "string option" "selection list"
  | InlineFragment "selection list"
  | FragmentSpread "string option"

datatype gq_definition =
    OperationDefinition "selection list"
  | FragmentDefinition "string option" "selection list"
  | OtherDefinition

(* src: internal/waf/graphql.go:33-35 graphqlDocument *)
type_synonym graphql_document = "(string \<times> selection list) list"

(* src: internal/waf/graphql.go:37-46 newGraphQLDocument *)
fun new_graphql_document :: "gq_definition list \<Rightarrow> graphql_document \<Rightarrow> graphql_document" where
  "new_graphql_document [] fragments = fragments"
| "new_graphql_document (FragmentDefinition (Some name) sels # ds) fragments =
     new_graphql_document ds (assoc_put name sels fragments)"
| "new_graphql_document (_ # ds) fragments = new_graphql_document ds fragments"

datatype gq_error =
    InvalidSpread
  | UnknownFragment string
  | FragmentCycle string

text \<open>
  The recursion ends because a fragment is entered only when it is not being
  visited: the measure is the number of fragments not yet visited, then the
  size of the selections.
\<close>

(* src: internal/waf/graphql.go:48-93 graphqlDocument.selectionDepth *)
function selection_depth :: "graphql_document \<Rightarrow> string list \<Rightarrow> selection list \<Rightarrow> gq_error + int" where
  "selection_depth d visiting [] = Inr 0"
| "selection_depth d visiting (Field n sels # ss) =
     (case selection_depth d visiting sels of
        Inl e \<Rightarrow> Inl e
      | Inr child \<Rightarrow>
          (case selection_depth d visiting ss of Inl e \<Rightarrow> Inl e | Inr rest \<Rightarrow> Inr (max (1 + child) rest)))"
| "selection_depth d visiting (InlineFragment sels # ss) =
     (case selection_depth d visiting sels of
        Inl e \<Rightarrow> Inl e
      | Inr depth \<Rightarrow>
          (case selection_depth d visiting ss of Inl e \<Rightarrow> Inl e | Inr rest \<Rightarrow> Inr (max depth rest)))"
| "selection_depth d visiting (FragmentSpread None # ss) = Inl InvalidSpread"
| "selection_depth d visiting (FragmentSpread (Some name) # ss) =
     (case map_of d name of
        None \<Rightarrow> Inl (UnknownFragment name)
      | Some sels \<Rightarrow>
          if name \<in> set visiting then Inl (FragmentCycle name)
          else case selection_depth d (name # visiting) sels of
                 Inl e \<Rightarrow> Inl e
               | Inr depth \<Rightarrow>
                   (case selection_depth d visiting ss of Inl e \<Rightarrow> Inl e | Inr rest \<Rightarrow> Inr (max depth rest)))"
  by pat_completeness auto

lemma unvisited_less:
  assumes "map_of d name = Some s" "name \<notin> set visiting"
  shows "card (fst ` set d - set (name # visiting)) < card (fst ` set d - set visiting)"
  using map_of_SomeD [OF assms(1)] assms(2) by (intro psubset_card_mono) auto

termination selection_depth
  by (relation "measures [\<lambda>(d, v, ss). card (fst ` set d - set v), \<lambda>(d, v, ss). size_list size ss]")
    (auto intro: unvisited_less [simplified])

(* src: internal/waf/graphql.go:102-104 hasIntrospection (field name) *)
definition introspection_name :: "string option \<Rightarrow> bool" where
  "introspection_name n = (n = Some ''__schema'' \<or> n = Some ''__type'')"

(* src: internal/waf/graphql.go:95-135 graphqlDocument.hasIntrospection *)
function has_introspection :: "graphql_document \<Rightarrow> string list \<Rightarrow> selection list \<Rightarrow> gq_error + bool" where
  "has_introspection d visiting [] = Inr False"
| "has_introspection d visiting (Field n sels # ss) =
     (if introspection_name n then Inr True
      else case has_introspection d visiting sels of
             Inl e \<Rightarrow> Inl e
           | Inr True \<Rightarrow> Inr True
           | Inr False \<Rightarrow> has_introspection d visiting ss)"
| "has_introspection d visiting (InlineFragment sels # ss) =
     (case has_introspection d visiting sels of
        Inl e \<Rightarrow> Inl e
      | Inr True \<Rightarrow> Inr True
      | Inr False \<Rightarrow> has_introspection d visiting ss)"
| "has_introspection d visiting (FragmentSpread None # ss) = Inl InvalidSpread"
| "has_introspection d visiting (FragmentSpread (Some name) # ss) =
     (case map_of d name of
        None \<Rightarrow> Inl (UnknownFragment name)
      | Some sels \<Rightarrow>
          if name \<in> set visiting then Inl (FragmentCycle name)
          else case has_introspection d (name # visiting) sels of
                 Inl e \<Rightarrow> Inl e
               | Inr True \<Rightarrow> Inr True
               | Inr False \<Rightarrow> has_introspection d visiting ss)"
  by pat_completeness auto

termination has_introspection
  by (relation "measures [\<lambda>(d, v, ss). card (fst ` set d - set v), \<lambda>(d, v, ss). size_list size ss]")
    (auto intro: unvisited_less [simplified])

subsection \<open>The linear pre-check\<close>

(* src: internal/waf/graphql.go:137-142 const *)
definition default_graphql_max_query_bytes :: int where
  "default_graphql_max_query_bytes = 102400"

(* src: internal/waf/graphql.go:141 minGraphQLNestingBudget *)
definition min_graphql_nesting_budget :: int where
  "min_graphql_nesting_budget = 64"

(* src: internal/waf/graphql.go:145-152 GraphQLProtection.SetDefaults *)
definition graphql_set_defaults :: "graphql_protection \<Rightarrow> graphql_protection" where
  "graphql_set_defaults p =
     (let p = (if gq_paths p = [] then p\<lparr>gq_paths := [''/graphql'']\<rparr> else p)
      in if gq_max_query_bytes p \<le> 0 then p\<lparr>gq_max_query_bytes := default_graphql_max_query_bytes\<rparr> else p)"

text \<open>The text after a one-line string whose opening quote was read: the loop stops at a quote or a newline.\<close>

(* src: internal/waf/graphql.go:175-179 graphQLNestingDepth (string) *)
fun skip_string :: "string \<Rightarrow> string" where
  "skip_string [] = []"
| "skip_string (c # cs) =
     (if c = CHR 0x22 \<or> c = CHR 0x0A then cs
      else if c = CHR 0x5C then skip_string (tl cs)
      else skip_string cs)"

lemma length_skip_string: "length (skip_string s) \<le> length s"
  by (induction s rule: skip_string.induct) (auto intro: le_trans)

(* src: internal/waf/graphql.go:160-190 graphQLNestingDepth (loop) *)
function nesting_scan :: "string \<Rightarrow> int \<Rightarrow> int \<Rightarrow> int" where
  "nesting_scan [] depth deepest = deepest"
| "nesting_scan (c # cs) depth deepest =
     (if c = CHR ''#'' then nesting_scan (drop 1 (dropWhile (\<lambda>x. x \<noteq> CHR 0x0A) cs)) depth deepest
      else if c = CHR 0x22 then
        if has_prefix (c # cs) (replicate 3 (CHR 0x22)) then
          case str_index (drop 2 cs) (replicate 3 (CHR 0x22)) of
            None \<Rightarrow> deepest
          | Some end_ \<Rightarrow> nesting_scan (drop (2 + end_ + 3) cs) depth deepest
        else nesting_scan (skip_string cs) depth deepest
      else if c = CHR ''{'' \<or> c = CHR ''['' then nesting_scan cs (depth + 1) (max deepest (depth + 1))
      else if c = CHR ''}'' \<or> c = CHR '']'' then nesting_scan cs (if depth > 0 then depth - 1 else depth) deepest
      else nesting_scan cs depth deepest)"
  by pat_completeness auto

lemma length_drop_dropWhile: "length (drop 1 (dropWhile P s)) \<le> length s"
  using length_dropWhile_le [of P s] by simp

termination nesting_scan
  by (relation "measure (\<lambda>(s, _, _). length s)")
    (auto simp: less_Suc_eq_le length_skip_string intro: le_trans [OF diff_le_self length_dropWhile_le])

(* src: internal/waf/graphql.go:158-192 graphQLNestingDepth *)
definition graphql_nesting_depth :: "string \<Rightarrow> int" where
  "graphql_nesting_depth query = nesting_scan query 0 0"

subsection \<open>Checking a query\<close>

datatype gq_check_error =
    QueryRequired
  | QueryTooLarge int
  | NestingTooDeep int
  | SyntaxError
  | InvalidDocument gq_error
  | IntrospectionBlocked
  | DepthExceeded int
  | NoOperation

(* src: internal/waf/graphql.go:222-247 checkGraphQLRequest (operations) *)
fun check_operations :: "graphql_protection \<Rightarrow> graphql_document \<Rightarrow> gq_definition list \<Rightarrow> int \<Rightarrow> gq_check_error + int" where
  "check_operations policy d [] operations = Inr operations"
| "check_operations policy d (OperationDefinition sels # ds) operations =
     (case (if gq_block_introspection policy then has_introspection d [] sels else Inr False) of
        Inl e \<Rightarrow> Inl (InvalidDocument e)
      | Inr True \<Rightarrow> Inl IntrospectionBlocked
      | Inr False \<Rightarrow>
          (case selection_depth d [] sels of
             Inl e \<Rightarrow> Inl (InvalidDocument e)
           | Inr depth \<Rightarrow>
               if gq_max_query_depth policy > 0 \<and> depth > gq_max_query_depth policy
               then Inl (DepthExceeded (gq_max_query_depth policy))
               else check_operations policy d ds (operations + 1)))"
| "check_operations policy d (_ # ds) operations = check_operations policy d ds operations"

(* src: internal/waf/graphql.go:194-250 checkGraphQLRequest *)
definition check_graphql_request ::
  "(string \<Rightarrow> gq_definition list option) \<Rightarrow> graphql_protection \<Rightarrow> string \<Rightarrow> gq_check_error option" where
  "check_graphql_request parse policy query =
     (if trim_space query = [] then Some QueryRequired
      else
        let max_bytes = (if gq_max_query_bytes policy \<le> 0 then default_graphql_max_query_bytes else gq_max_query_bytes policy)
        in if int (length query) > max_bytes then Some (QueryTooLarge max_bytes)
           else
             let nesting_budget = max min_graphql_nesting_budget (wrap64 (2 * gq_max_query_depth policy + 16))
             in if graphql_nesting_depth query > nesting_budget then Some (NestingTooDeep nesting_budget)
                else case parse query of
                       None \<Rightarrow> Some SyntaxError
                     | Some doc \<Rightarrow>
                         (case check_operations policy (new_graphql_document doc []) doc 0 of
                            Inl e \<Rightarrow> Some e
                          | Inr operations \<Rightarrow> if operations = 0 then Some NoOperation else None))"

subsection \<open>Protecting a request\<close>

text \<open>The text of the error as the client sees it.\<close>

fun gq_error_text :: "gq_error \<Rightarrow> string" where
  "gq_error_text InvalidSpread = ''invalid fragment spread''"
| "gq_error_text (UnknownFragment n) = ''unknown fragment '' @ n"
| "gq_error_text (FragmentCycle n) = ''fragment cycle involving '' @ n"

fun gq_check_error_text :: "gq_check_error \<Rightarrow> string" where
  "gq_check_error_text QueryRequired = ''GraphQL query is required''"
| "gq_check_error_text (QueryTooLarge n) = ''query size exceeds maximum allowed limit of '' @ itoa n @ '' bytes''"
| "gq_check_error_text (NestingTooDeep n) = ''query nesting exceeds maximum allowed limit of '' @ itoa n"
| "gq_check_error_text SyntaxError = ''invalid GraphQL syntax''"
| "gq_check_error_text (InvalidDocument e) = ''invalid GraphQL document: '' @ gq_error_text e"
| "gq_check_error_text IntrospectionBlocked = ''introspection queries are not allowed''"
| "gq_check_error_text (DepthExceeded n) = ''query depth exceeds maximum allowed limit of '' @ itoa n"
| "gq_check_error_text NoOperation = ''GraphQL document has no operation''"

text \<open>A message holds fixed text, numbers and GraphQL names only, so the JSON encoder escapes nothing.\<close>

(* src: internal/waf/graphql.go:24-31 sendGraphQLError *)
definition send_graphql_error :: "string \<Rightarrow> log_writer \<Rightarrow> log_writer" where
  "send_graphql_error msg w =
     json_answer (''{'' @ [CHR 0x22] @ ''errors'' @ [CHR 0x22] @ '':[{'' @ [CHR 0x22] @ ''message'' @ [CHR 0x22] @ '':'' @
       [CHR 0x22] @ msg @ [CHR 0x22] @ ''}]}'' @ [CHR 0x0A]) 403 w"

(* src: internal/waf/graphql.go:343-355 applyGraphQLProtection (batch items) *)
fun batch_queries :: "json list \<Rightarrow> string + string list" where
  "batch_queries [] = Inr []"
| "batch_queries (JObject m # items) =
     (case json_string m ''query'' of
        None \<Rightarrow> Inl ''Every GraphQL batch item must contain a query''
      | Some q \<Rightarrow>
          if q = [] then Inl ''Every GraphQL batch item must contain a query''
          else case batch_queries items of Inl e \<Rightarrow> Inl e | Inr qs \<Rightarrow> Inr (q # qs))"
| "batch_queries (_ # items) = Inl ''Every GraphQL batch item must be an object with a query''"

datatype gq_payload_error = PayloadHttpError string int | PayloadGraphQLError string

(* src: internal/waf/graphql.go:328-361 applyGraphQLProtection (payload) *)
definition payload_queries :: "graphql_protection \<Rightarrow> json \<Rightarrow> gq_payload_error + string list" where
  "payload_queries policy payload =
     (case payload of
        JObject m \<Rightarrow>
          (case json_string m ''query'' of
             None \<Rightarrow> Inl (PayloadHttpError ''GraphQL query is required'' 400)
           | Some q \<Rightarrow> if trim_space q = [] then Inl (PayloadHttpError ''GraphQL query is required'' 400) else Inr [q])
      | JArray items \<Rightarrow>
          if gq_max_batched_queries policy > 0 \<and> int (length items) > gq_max_batched_queries policy
          then Inl (PayloadGraphQLError (''GraphQL batch size exceeds maximum allowed limit of '' @ itoa (gq_max_batched_queries policy)))
          else (case batch_queries items of
                  Inl e \<Rightarrow> Inl (PayloadHttpError e 400)
                | Inr [] \<Rightarrow> Inl (PayloadHttpError ''GraphQL query is required'' 400)
                | Inr qs \<Rightarrow> Inr qs)
      | _ \<Rightarrow> Inl (PayloadHttpError ''GraphQL query is required'' 400))"

(* src: internal/waf/graphql.go:363-368 applyGraphQLProtection (queries) *)
fun check_queries ::
  "(string \<Rightarrow> gq_definition list option) \<Rightarrow> graphql_protection \<Rightarrow> string list \<Rightarrow> gq_check_error option" where
  "check_queries parse policy [] = None"
| "check_queries parse policy (q # qs) =
     (case check_graphql_request parse policy q of Some e \<Rightarrow> Some e | None \<Rightarrow> check_queries parse policy qs)"

text \<open>The two parameters of third-party code: the GraphQL parser and \<open>json.Unmarshal\<close>.\<close>

record gq_env =
  ge_parse :: "string \<Rightarrow> gq_definition list option"
  ge_unmarshal :: "string \<Rightarrow> json option"

definition answer_check :: "gq_check_error option \<Rightarrow> log_writer \<Rightarrow> bool \<times> log_writer" where
  "answer_check e w =
     (case e of Some e \<Rightarrow> (True, send_graphql_error (gq_check_error_text e) w) | None \<Rightarrow> (False, w))"

(* src: internal/waf/graphql.go:305-370 applyGraphQLProtection (body) *)
definition check_graphql_body :: "gq_env \<Rightarrow> graphql_protection \<Rightarrow> string \<Rightarrow> string \<Rightarrow> log_writer \<Rightarrow> bool \<times> log_writer" where
  "check_graphql_body env policy content_type b w =
     (case parse_media_type content_type of
        None \<Rightarrow> (True, http_error ''Invalid Content-Type'' 415 w)
      | Some media_type \<Rightarrow>
          if media_type = ''application/graphql''
          then answer_check (check_graphql_request (ge_parse env) policy b) w
          else if media_type \<noteq> ''application/json''
          then (True, http_error ''GraphQL Content-Type is not supported'' 415 w)
          else case ge_unmarshal env b of
                 None \<Rightarrow> (True, http_error ''Invalid GraphQL JSON body'' 400 w)
               | Some payload \<Rightarrow>
                   (case payload_queries policy payload of
                      Inl (PayloadHttpError msg code) \<Rightarrow> (True, http_error msg code w)
                    | Inl (PayloadGraphQLError msg) \<Rightarrow> (True, send_graphql_error msg w)
                    | Inr queries \<Rightarrow> answer_check (check_queries (ge_parse env) policy queries) w))"

text \<open>The first result is true when the request was answered.\<close>

(* src: internal/waf/graphql.go:252-371 ProxyHandler.applyGraphQLProtection *)
definition apply_graphql_protection ::
  "gq_env \<Rightarrow> registry \<Rightarrow> int \<Rightarrow> graphql_protection \<Rightarrow> request \<Rightarrow> log_writer \<Rightarrow> blocked_counter \<Rightarrow>
   bool \<times> log_writer \<times> request \<times> blocked_counter" where
  "apply_graphql_protection env reg request_body_limit policy r w m =
     (if \<not> gq_enabled policy then (False, w, r, m)
      else if \<not> path_matches_any (if gq_paths policy = [] then [''/graphql''] else gq_paths policy) (rq_path r)
      then (False, w, r, m)
      else if rq_method r = ''GET'' then
        let query = query_get (rq_query r) ''query''
        in if query = [] then (True, http_error ''GraphQL query parameter is required'' 400 w, r, m)
           else let (blocked, w) = answer_check (check_graphql_request (ge_parse env) policy query) w
                in (blocked, w, r, m)
      else if rq_method r \<noteq> ''POST'' then (True, http_error ''GraphQL transport method is not supported'' 405 w, r, m)
      else if rq_body r = NilBody then (False, w, r, m)
      else if has_unsupported_content_encoding r
      then (True, http_error ''Compressed GraphQL request bodies cannot be inspected'' 415 w, r, m)
      else
        let limit = (if request_body_limit \<le> 0 then default_request_body_cap else request_body_limit)
        in case inspection_body r limit of
             (Inl InspectionBodyTooLarge, r) \<Rightarrow>
               let (w, m) = reject_inspection_oversize reg r ''graphql'' w m in (True, w, r, m)
           | (Inl BodyReadError, r) \<Rightarrow> (True, send_graphql_error ''Internal Server Error reading body'' w, r, m)
           | (Inr b, r) \<Rightarrow>
               let (blocked, w) = check_graphql_body env policy (header_get (rq_header r) ''Content-Type'') b w
               in (blocked, w, r, m))"

subsection \<open>Lemmas\<close>

text \<open>
  The meaning of the two checks, independent of the traversal: a chain of
  nested fields, and a field of the introspection schema, through inline and
  named fragments.
\<close>

inductive field_chain :: "graphql_document \<Rightarrow> selection list \<Rightarrow> int \<Rightarrow> bool" for d where
  chain_nil: "field_chain d ss 0"
| chain_field: "\<lbrakk> Field n sels \<in> set ss; field_chain d sels k \<rbrakk> \<Longrightarrow> field_chain d ss (k + 1)"
| chain_inline: "\<lbrakk> InlineFragment sels \<in> set ss; field_chain d sels k \<rbrakk> \<Longrightarrow> field_chain d ss k"
| chain_spread: "\<lbrakk> FragmentSpread (Some name) \<in> set ss; map_of d name = Some sels; field_chain d sels k \<rbrakk> \<Longrightarrow>
    field_chain d ss k"

inductive introspects :: "graphql_document \<Rightarrow> selection list \<Rightarrow> bool" for d where
  intro_here: "\<lbrakk> Field n sels \<in> set ss; introspection_name n \<rbrakk> \<Longrightarrow> introspects d ss"
| intro_field: "\<lbrakk> Field n sels \<in> set ss; introspects d sels \<rbrakk> \<Longrightarrow> introspects d ss"
| intro_inline: "\<lbrakk> InlineFragment sels \<in> set ss; introspects d sels \<rbrakk> \<Longrightarrow> introspects d ss"
| intro_spread: "\<lbrakk> FragmentSpread (Some name) \<in> set ss; map_of d name = Some sels; introspects d sels \<rbrakk> \<Longrightarrow>
    introspects d ss"

text \<open>What a successful traversal says about each selection of a set.\<close>

lemma selection_depth_member:
  assumes "selection_depth d visiting ss = Inr depth"
  shows "0 \<le> depth \<and>
    (\<forall>n sels. Field n sels \<in> set ss \<longrightarrow> (\<exists>k. selection_depth d visiting sels = Inr k \<and> k + 1 \<le> depth)) \<and>
    (\<forall>sels. InlineFragment sels \<in> set ss \<longrightarrow> (\<exists>k. selection_depth d visiting sels = Inr k \<and> k \<le> depth)) \<and>
    (\<forall>name. FragmentSpread (Some name) \<in> set ss \<longrightarrow>
       (\<exists>sels k. map_of d name = Some sels \<and> selection_depth d (name # visiting) sels = Inr k \<and> k \<le> depth))"
  using assms
proof (induction ss arbitrary: depth)
  case Nil
  then show ?case by simp
next
  case (Cons s ss)
  show ?case
  proof (cases s)
    case (Field n sels)
    then obtain k m where "selection_depth d visiting sels = Inr k" "selection_depth d visiting ss = Inr m"
      "depth = max (1 + k) m" using Cons.prems by (auto split: sum.splits)
    then show ?thesis using Cons.IH [of m] Field by fastforce
  next
    case (InlineFragment sels)
    then obtain k m where "selection_depth d visiting sels = Inr k" "selection_depth d visiting ss = Inr m"
      "depth = max k m" using Cons.prems by (auto split: sum.splits)
    then show ?thesis using Cons.IH [of m] InlineFragment by fastforce
  next
    case (FragmentSpread name)
    then obtain x sels k m where "name = Some x" "map_of d x = Some sels"
      "selection_depth d (x # visiting) sels = Inr k" "selection_depth d visiting ss = Inr m" "depth = max k m"
      using Cons.prems by (cases name) (auto split: sum.splits option.splits if_splits)
    then show ?thesis using Cons.IH [of m] FragmentSpread by fastforce
  qed
qed

lemma selection_depth_upper:
  "field_chain d ss k \<Longrightarrow> selection_depth d visiting ss = Inr depth \<Longrightarrow> k \<le> depth"
proof (induction arbitrary: visiting depth rule: field_chain.induct)
  case (chain_nil ss)
  then show ?case using selection_depth_member by blast
next
  case (chain_field n sels ss k)
  then obtain j where "selection_depth d visiting sels = Inr j" "j + 1 \<le> depth"
    using selection_depth_member [OF chain_field.prems] by blast
  then show ?case using chain_field.IH by force
next
  case (chain_inline sels ss k)
  then obtain j where "selection_depth d visiting sels = Inr j" "j \<le> depth"
    using selection_depth_member [OF chain_inline.prems] by blast
  then show ?case using chain_inline.IH by force
next
  case (chain_spread name ss sels k)
  then obtain j where "selection_depth d (name # visiting) sels = Inr j" "j \<le> depth"
    using selection_depth_member [OF chain_spread.prems] by force
  then show ?case using chain_spread.IH by force
qed

lemma field_chain_mono: "field_chain d ss k \<Longrightarrow> set ss \<subseteq> set ts \<Longrightarrow> field_chain d ts k"
  by (erule field_chain.cases) (auto intro: field_chain.intros)

lemma selection_depth_attained:
  "selection_depth d visiting ss = Inr depth \<Longrightarrow> field_chain d ss depth"
proof (induction d visiting ss arbitrary: depth rule: selection_depth.induct)
  case (1 d visiting)
  then show ?case by (auto intro: chain_nil)
next
  case (2 d visiting n sels ss)
  then obtain k m where k: "selection_depth d visiting sels = Inr k" "selection_depth d visiting ss = Inr m"
    "depth = max (1 + k) m" by (auto split: sum.splits)
  have "field_chain d (Field n sels # ss) (k + 1)" using "2.IH"(1) [OF k(1)] by (auto intro: chain_field)
  moreover have "field_chain d (Field n sels # ss) m" using "2.IH"(2) [OF k(1,2)] by (rule field_chain_mono) auto
  ultimately show ?case using k(3) by (simp add: max_def add.commute)
next
  case (3 d visiting sels ss)
  then obtain k m where k: "selection_depth d visiting sels = Inr k" "selection_depth d visiting ss = Inr m"
    "depth = max k m" by (auto split: sum.splits)
  have "field_chain d (InlineFragment sels # ss) k" using "3.IH"(1) [OF k(1)] by (auto intro: chain_inline)
  moreover have "field_chain d (InlineFragment sels # ss) m" using "3.IH"(2) [OF k(1,2)] by (rule field_chain_mono) auto
  ultimately show ?case using k(3) by (simp add: max_def)
next
  case (4 d visiting ss)
  then show ?case by simp
next
  case (5 d visiting name ss)
  then obtain sels k m where k: "map_of d name = Some sels" "name \<notin> set visiting"
    "selection_depth d (name # visiting) sels = Inr k" "selection_depth d visiting ss = Inr m" "depth = max k m"
    by (auto split: sum.splits option.splits if_splits)
  have "field_chain d (FragmentSpread (Some name) # ss) k"
    using "5.IH"(1) [OF k(1,2,3)] k(1) by (auto intro: chain_spread)
  moreover have "field_chain d (FragmentSpread (Some name) # ss) m"
    using "5.IH"(2) [OF k(1,2,3,4)] by (rule field_chain_mono) auto
  ultimately show ?case using k(5) by (simp add: max_def)
qed

text \<open>What the traversal found out about a selection when it reports no introspection.\<close>

definition clean_selection :: "graphql_document \<Rightarrow> string list \<Rightarrow> selection \<Rightarrow> bool" where
  "clean_selection d visiting s =
     (case s of
        Field n sels \<Rightarrow> \<not> introspection_name n \<and> has_introspection d visiting sels = Inr False
      | InlineFragment sels \<Rightarrow> has_introspection d visiting sels = Inr False
      | FragmentSpread None \<Rightarrow> False
      | FragmentSpread (Some name) \<Rightarrow>
          (\<exists>sels. map_of d name = Some sels \<and> has_introspection d (name # visiting) sels = Inr False))"

lemma has_introspection_Cons:
  "has_introspection d visiting (s # ss) = Inr False \<Longrightarrow>
   clean_selection d visiting s \<and> has_introspection d visiting ss = Inr False"
proof (cases s)
  case (Field n sels)
  then show "has_introspection d visiting (s # ss) = Inr False \<Longrightarrow> ?thesis"
    by (auto simp: clean_selection_def split: if_splits sum.splits bool.splits)
next
  case (InlineFragment sels)
  then show "has_introspection d visiting (s # ss) = Inr False \<Longrightarrow> ?thesis"
    by (auto simp: clean_selection_def split: if_splits sum.splits bool.splits)
next
  case (FragmentSpread name)
  then show "has_introspection d visiting (s # ss) = Inr False \<Longrightarrow> ?thesis"
    by (cases name) (auto simp: clean_selection_def split: if_splits sum.splits bool.splits option.splits)
qed

lemma has_introspection_member:
  "\<lbrakk> has_introspection d visiting ss = Inr False; s \<in> set ss \<rbrakk> \<Longrightarrow> clean_selection d visiting s"
  by (induction ss) (use has_introspection_Cons in auto)

lemma has_introspection_complete:
  "introspects d ss \<Longrightarrow> has_introspection d visiting ss \<noteq> Inr False"
proof (induction arbitrary: visiting rule: introspects.induct)
  case (intro_here n sels ss)
  then show ?case using has_introspection_member [of d visiting, OF _ intro_here.hyps(1)] by (auto simp: clean_selection_def)
next
  case (intro_field n sels ss)
  then show ?case using has_introspection_member [of d visiting, OF _ intro_field.hyps(1)] by (auto simp: clean_selection_def)
next
  case (intro_inline sels ss)
  then show ?case using has_introspection_member [of d visiting, OF _ intro_inline.hyps(1)] by (auto simp: clean_selection_def)
next
  case (intro_spread name ss sels)
  then show ?case using has_introspection_member [of d visiting, OF _ intro_spread.hyps(1)] by (auto simp: clean_selection_def)
qed

lemma introspects_mono: "introspects d ss \<Longrightarrow> set ss \<subseteq> set ts \<Longrightarrow> introspects d ts"
  by (erule introspects.cases) (auto intro: introspects.intros)

lemma introspects_Cons:
  "introspection_name n \<Longrightarrow> introspects d (Field n sels # ss)"
  "introspects d sels \<Longrightarrow> introspects d (Field n sels # ss)"
  "introspects d sels \<Longrightarrow> introspects d (InlineFragment sels # ss)"
  "\<lbrakk> map_of d name = Some sels; introspects d sels \<rbrakk> \<Longrightarrow> introspects d (FragmentSpread (Some name) # ss)"
  "introspects d ss \<Longrightarrow> introspects d (s # ss)"
  by (auto intro: intro_here intro_field intro_inline intro_spread introspects_mono)

lemma has_introspection_sound:
  "has_introspection d visiting ss = Inr True \<Longrightarrow> introspects d ss"
proof (induction d visiting ss rule: has_introspection.induct)
  case (2 d visiting n sels ss)
  then show ?case
    by (cases "introspection_name n"; cases "has_introspection d visiting sels")
      (auto split: bool.splits intro: introspects_Cons)
next
  case (3 d visiting sels ss)
  then show ?case
    by (cases "has_introspection d visiting sels") (auto split: bool.splits intro: introspects_Cons)
next
  case (5 d visiting name ss)
  then obtain sels where s: "map_of d name = Some sels" "name \<notin> set visiting"
    by (auto split: option.splits if_splits)
  with 5 show ?case
    by (cases "has_introspection d (name # visiting) sels") (auto split: bool.splits intro: introspects_Cons)
qed simp_all

lemma check_operations_ok:
  assumes "check_operations policy d ds n = Inr m"
  shows "m = n + int (length (filter (\<lambda>x. \<exists>sels. x = OperationDefinition sels) ds)) \<and>
    (\<forall>sels. OperationDefinition sels \<in> set ds \<longrightarrow>
       (gq_block_introspection policy \<longrightarrow> \<not> introspects d sels) \<and>
       (0 < gq_max_query_depth policy \<longrightarrow> (\<forall>k. field_chain d sels k \<longrightarrow> k \<le> gq_max_query_depth policy)))"
  using assms
proof (induction policy d ds n arbitrary: m rule: check_operations.induct)
  case (2 policy d sels ds n)
  let ?b = "gq_block_introspection policy" and ?max = "gq_max_query_depth policy"
  obtain depth where i: "?b \<longrightarrow> has_introspection d [] sels = Inr False"
    and s: "selection_depth d [] sels = Inr depth" "\<not> (?max > 0 \<and> depth > ?max)"
    and r: "check_operations policy d ds (n + 1) = Inr m"
    using "2.prems" by (auto split: sum.splits if_splits bool.splits)
  have "?b \<longrightarrow> \<not> introspects d sels" using i has_introspection_complete by blast
  moreover have "0 < ?max \<longrightarrow> (\<forall>k. field_chain d sels k \<longrightarrow> k \<le> ?max)"
    using s selection_depth_upper [OF _ s(1)] by force
  moreover have "m = n + 1 + int (length (filter (\<lambda>x. \<exists>sels. x = OperationDefinition sels) ds)) \<and>
    (\<forall>sels. OperationDefinition sels \<in> set ds \<longrightarrow>
       (?b \<longrightarrow> \<not> introspects d sels) \<and> (0 < ?max \<longrightarrow> (\<forall>k. field_chain d sels k \<longrightarrow> k \<le> ?max)))"
    using "2.IH" i s r by (cases ?b) auto
  ultimately show ?case by auto
qed auto

text \<open>What a query has to satisfy to pass.\<close>

definition graphql_conforms :: "(string \<Rightarrow> gq_definition list option) \<Rightarrow> graphql_protection \<Rightarrow> string \<Rightarrow> bool" where
  "graphql_conforms parse policy query \<longleftrightarrow>
     int (length query) \<le> (if gq_max_query_bytes policy \<le> 0 then 102400 else gq_max_query_bytes policy) \<and>
     (\<exists>doc. parse query = Some doc \<and> (\<exists>sels. OperationDefinition sels \<in> set doc) \<and>
        (\<forall>sels. OperationDefinition sels \<in> set doc \<longrightarrow>
           (gq_block_introspection policy \<longrightarrow> \<not> introspects (new_graphql_document doc []) sels) \<and>
           (0 < gq_max_query_depth policy \<longrightarrow>
              (\<forall>k. field_chain (new_graphql_document doc []) sels k \<longrightarrow> k \<le> gq_max_query_depth policy))))"

lemma check_graphql_request_conforms:
  assumes "check_graphql_request parse policy query = None"
  shows "graphql_conforms parse policy query"
proof -
  obtain doc ops where d: "parse query = Some doc" "check_operations policy (new_graphql_document doc []) doc 0 = Inr ops"
    "ops \<noteq> 0" and l: "int (length query) \<le> (if gq_max_query_bytes policy \<le> 0 then 102400 else gq_max_query_bytes policy)"
    using assms
    by (auto simp: check_graphql_request_def Let_def default_graphql_max_query_bytes_def
        split: if_splits option.splits sum.splits)
  have c: "ops = int (length (filter (\<lambda>x. \<exists>sels. x = OperationDefinition sels) doc))"
    using check_operations_ok [OF d(2)] by simp
  then have "filter (\<lambda>x. \<exists>sels. x = OperationDefinition sels) doc \<noteq> []" using d(3) by auto
  then have "\<exists>sels. OperationDefinition sels \<in> set doc" by (auto simp: filter_empty_conv)
  then show ?thesis using d(1) l check_operations_ok [OF d(2)] unfolding graphql_conforms_def by blast
qed

lemma check_queries_conform:
  "check_queries parse policy qs = None \<Longrightarrow> \<forall>q \<in> set qs. graphql_conforms parse policy q"
  by (induction qs) (auto split: option.splits intro: check_graphql_request_conforms)

text \<open>The queries that a request of a supported transport carries.\<close>

definition carried_queries :: "gq_env \<Rightarrow> graphql_protection \<Rightarrow> request \<Rightarrow> string \<Rightarrow> string list \<Rightarrow> bool" where
  "carried_queries env policy r b qs \<longleftrightarrow>
     (if rq_method r = ''GET'' then qs = [query_get (rq_query r) ''query'']
      else rq_method r = ''POST'' \<and>
        (case parse_media_type (header_get (rq_header r) ''Content-Type'') of
           None \<Rightarrow> False
         | Some mt \<Rightarrow> if mt = ''application/graphql'' then qs = [b]
                      else mt = ''application/json'' \<and>
                        (\<exists>payload. ge_unmarshal env b = Some payload \<and> payload_queries policy payload = Inr qs)))"

lemma payload_queries_nonempty: "payload_queries policy payload = Inr qs \<Longrightarrow> qs \<noteq> []"
  by (auto simp: payload_queries_def split: json.splits option.splits if_splits sum.splits list.splits)

lemma answer_check_False: "answer_check e w = (False, w') \<longleftrightarrow> e = None \<and> w' = w"
  by (auto simp: answer_check_def split: option.splits)

lemma inspection_body_keeps:
  "inspection_body r limit = (res, r') \<Longrightarrow>
   rq_method r' = rq_method r \<and> rq_header r' = rq_header r \<and> rq_query r' = rq_query r \<and> rq_path r' = rq_path r \<and> rq_host r' = rq_host r"
  by (auto simp: inspection_body_def split: option.splits if_splits)

lemma check_graphql_body_passed:
  assumes "check_graphql_body env policy ct b w = (False, w')"
  shows "w' = w \<and> (\<exists>mt. parse_media_type ct = Some mt \<and>
    (mt = ''application/graphql'' \<and> graphql_conforms (ge_parse env) policy b \<or>
     mt = ''application/json'' \<and> (\<exists>payload qs. ge_unmarshal env b = Some payload \<and> payload_queries policy payload = Inr qs \<and>
       (\<forall>q \<in> set qs. graphql_conforms (ge_parse env) policy q))))"
  using assms
  by (auto simp: check_graphql_body_def answer_check_False check_graphql_request_conforms check_queries_conform
      split: option.splits if_splits sum.splits gq_payload_error.splits)

subsection \<open>The cost of repeated fragments\<close>

text \<open>The number of selections that \<open>selectionDepth\<close> examines.\<close>

function depth_visits :: "graphql_document \<Rightarrow> string list \<Rightarrow> selection list \<Rightarrow> nat" where
  "depth_visits d visiting [] = 0"
| "depth_visits d visiting (Field n sels # ss) = 1 + depth_visits d visiting sels + depth_visits d visiting ss"
| "depth_visits d visiting (InlineFragment sels # ss) = 1 + depth_visits d visiting sels + depth_visits d visiting ss"
| "depth_visits d visiting (FragmentSpread None # ss) = 1"
| "depth_visits d visiting (FragmentSpread (Some name) # ss) =
     (case map_of d name of
        None \<Rightarrow> 1
      | Some sels \<Rightarrow>
          if name \<in> set visiting then 1
          else 1 + depth_visits d (name # visiting) sels + depth_visits d visiting ss)"
  by pat_completeness auto

termination depth_visits
  by (relation "measures [\<lambda>(d, v, ss). card (fst ` set d - set v), \<lambda>(d, v, ss). size_list size ss]")
    (auto intro: unvisited_less [simplified])

text \<open>A chain of fragments, each of which spreads the next one twice.\<close>

definition frag_name :: "nat \<Rightarrow> string" where
  "frag_name i = replicate (Suc i) (CHR ''f'')"

definition frag_body :: "nat \<Rightarrow> nat \<Rightarrow> selection list" where
  "frag_body n i =
     (if i < n then [FragmentSpread (Some (frag_name (Suc i))), FragmentSpread (Some (frag_name (Suc i)))]
      else [Field (Some ''x'') []])"

definition frag_chain :: "nat \<Rightarrow> graphql_document" where
  "frag_chain n = map (\<lambda>i. (frag_name i, frag_body n i)) [0..<Suc n]"

lemma frag_name_eq [simp]: "frag_name i = frag_name j \<longleftrightarrow> i = j"
  by (metis frag_name_def length_replicate nat.inject)

lemma map_of_frag_chain: "i \<le> n \<Longrightarrow> map_of (frag_chain n) (frag_name i) = Some (frag_body n i)"
  unfolding frag_chain_def
  by (intro map_of_is_SomeI) (auto simp: distinct_map inj_on_def comp_def simp del: upt_Suc)

lemma frag_body_cost:
  assumes "i \<le> n" "\<forall>j \<ge> i. frag_name j \<notin> set v \<or> j = i"
  shows "2 ^ (n - i) \<le> depth_visits (frag_chain n) v (frag_body n i) \<and>
         selection_depth (frag_chain n) v (frag_body n i) = Inr 1"
  using assms
proof (induction "n - i" arbitrary: i v)
  case 0
  then show ?case by (simp add: frag_body_def)
next
  case (Suc k)
  let ?next = "frag_name (Suc i)"
  have i: "i < n" and k: "k = n - Suc i" using Suc by auto
  have v: "frag_name j \<notin> set v" if "Suc i \<le> j" for j using spec [OF Suc.prems(2), of j] that by simp
  have "2 ^ (n - Suc i) \<le> depth_visits (frag_chain n) (?next # v) (frag_body n (Suc i)) \<and>
      selection_depth (frag_chain n) (?next # v) (frag_body n (Suc i)) = Inr 1"
    using i v by (intro Suc.hyps(1) [OF k]) simp_all
  moreover have "map_of (frag_chain n) ?next = Some (frag_body n (Suc i))" using i by (intro map_of_frag_chain) simp
  moreover have "(2 :: nat) ^ (n - i) = 2 * 2 ^ (n - Suc i)"
    using i by (metis Suc_diff_Suc power_Suc)
  ultimately show ?case using i v unfolding frag_body_def [of n i] by simp
qed

subsection \<open>Properties\<close>

text \<open>C20: the computed query depth is exactly the length of the longest chain of nested fields, counted through
  inline fragments and named fragments, for every document on which the traversal succeeds.\<close>

theorem selection_depth_longest_chain:
  assumes "selection_depth d [] ss = Inr depth"
  shows "field_chain d ss depth \<and> (\<forall>k. field_chain d ss k \<longrightarrow> k \<le> depth)"
  using selection_depth_attained [OF assms] selection_depth_upper [OF _ assms] by blast

definition sample_document :: graphql_document where
  "sample_document = [(''f'', [Field (Some ''b'') [Field (Some ''c'') []]])]"

theorem selection_depth_longest_chain_witness:
  "field_chain sample_document [Field (Some ''a'') [FragmentSpread (Some ''f'')]] 3"
proof -
  have "selection_depth sample_document [] [Field (Some ''a'') [FragmentSpread (Some ''f'')]] = Inr 3"
    by (simp add: sample_document_def)
  from selection_depth_longest_chain [OF this] show ?thesis by blast
qed

text \<open>Introspection cannot be hidden in fragments: the check reports introspection only for a document whose
  selections reach a schema field, and reports its absence only for one whose selections do not.\<close>

theorem introspection_detection_exact:
  "case has_introspection d [] ss of
     Inr True \<Rightarrow> introspects d ss | Inr False \<Rightarrow> \<not> introspects d ss | Inl _ \<Rightarrow> True"
  using has_introspection_sound [of d "[]" ss] has_introspection_complete [of d ss "[]"]
  by (auto split: sum.splits bool.splits)


definition sample_gq_env :: gq_env where
  "sample_gq_env = \<lparr>ge_parse = (\<lambda>q. if q = ''{a}'' then Some [OperationDefinition [Field (Some ''a'') []]] else None),
     ge_unmarshal = (\<lambda>_. None)\<rparr>"

definition sample_gq_policy :: graphql_protection where
  "sample_gq_policy = zero_graphql\<lparr>gq_enabled := True, gq_block_introspection := True, gq_max_query_depth := 5\<rparr>"

definition sample_gq_request :: request where
  "sample_gq_request = sample_request\<lparr>rq_path := ''/graphql'', rq_query := [(''query'', [''{a}''])]\<rparr>"



definition evading_prefix :: string where
  "evading_prefix = ''{a(b:'' @ replicate 3 (CHR 0x22) @ [CHR 0x5C] @ replicate 3 (CHR 0x22) @ ''#'' @ replicate 3 (CHR 0x22) @ '')''"

text \<open>The linear pre-check can be evaded: after a block string that contains an escaped triple quote followed
  by a hash sign, the rest of the line is taken for a comment, so no amount of nesting on that line is counted.\<close>

theorem nesting_check_evaded:
  assumes "CHR 0x0A \<notin> set rest"
  shows "graphql_nesting_depth (evading_prefix @ rest) = 1"
proof -
  have d: "dropWhile (\<lambda>x. x \<noteq> CHR 0x0A) rest = []" using assms by (auto simp: dropWhile_eq_Nil_conv)
  show ?thesis
    by (simp add: graphql_nesting_depth_def evading_prefix_def has_prefix_def numeral_3_eq_3 d)
qed

theorem nesting_check_evaded_witness:
  "graphql_nesting_depth (evading_prefix @ replicate 1000 (CHR ''{'')) = 1"
  by (rule nesting_check_evaded) simp

end
