(* ===== verification/Llm.thy ===== *)
theory Llm
  imports RateLimit GoEncoding
begin

text \<open>
  The prompt-injection protection of \<open>internal/waf/llm_protection.go\<close>: the
  texts of a request are cut into chunks, scored by a sidecar or from a cache,
  and the highest score decides.

  Parameters: \<open>gjson.Get\<close>, \<open>json.Valid\<close>, the sidecar's HTTP endpoint and the
  decoding of its answer, SHA-256, the formatting of a score and the LRU cache.
  Scores are real numbers: a JSON number that Go decodes is neither NaN nor infinite.
\<close>

subsection \<open>Chunks\<close>

(* src: internal/waf/llm_protection.go:85 defaultLLMSidecarTimeout *)
definition default_llm_sidecar_timeout :: duration where
  "default_llm_sidecar_timeout = 500 * millisecond"

(* src: internal/waf/llm_protection.go:86 defaultLLMMaxTextBytes *)
definition default_llm_max_text_bytes :: int where
  "default_llm_max_text_bytes = 8192"

(* src: internal/waf/llm_protection.go:87 defaultLLMSidecarMaxBatch *)
definition default_llm_sidecar_max_batch :: int where
  "default_llm_sidecar_max_batch = 32"

(* src: internal/waf/llm_protection.go:88 llmTextChunkOverlapBytes *)
definition llm_text_chunk_overlap_bytes :: nat where
  "llm_text_chunk_overlap_bytes = 256"

(* src: internal/waf/llm_protection.go:97-128 LLMProtectionConfig.SetDefaults *)
definition llm_set_defaults :: "llm_protection_config \<Rightarrow> llm_protection_config" where
  "llm_set_defaults p =
     (let p = (if llm_mode p = [] then p\<lparr>llm_mode := ''hybrid''\<rparr> else p);
          p = (if llm_action p = [] then p\<lparr>llm_action := ''audit''\<rparr> else p);
          p = (if llm_fail_mode p = [] then p\<lparr>llm_fail_mode := ''open''\<rparr> else p);
          p = (if llm_threshold p = 0 then p\<lparr>llm_threshold := 85 / 100\<rparr> else p);
          p = (if llm_timeout p \<le> 0 then p\<lparr>llm_timeout := default_llm_sidecar_timeout\<rparr> else p);
          p = (if llm_max_text_bytes p \<le> 0 then p\<lparr>llm_max_text_bytes := default_llm_max_text_bytes\<rparr> else p);
          p = (if llm_sidecar_max_batch p \<le> 0 then p\<lparr>llm_sidecar_max_batch := default_llm_sidecar_max_batch\<rparr> else p);
          p = (if llm_sidecar_url p = [] then p\<lparr>llm_sidecar_url := ''http://localhost:5001/v1/detect''\<rparr> else p);
          p = (if llm_inspect_paths p = [] then p\<lparr>llm_inspect_paths := [''/v1/chat/completions'', ''/v1/messages'']\<rparr> else p)
      in if llm_inspect_json_fields p = []
         then p\<lparr>llm_inspect_json_fields := [''prompt'', ''input'', ''query'', ''messages[].content'']\<rparr> else p)"

text \<open>The inner loop that moves the end of a chunk back to the start of a rune, but not before \<open>start\<close>.\<close>

(* src: internal/waf/llm_protection.go:140-142 splitLLMText (end) *)
fun back_end :: "string \<Rightarrow> nat \<Rightarrow> nat \<Rightarrow> nat" where
  "back_end text start 0 = 0"
| "back_end text start (Suc e) =
     (if Suc e < length text \<and> Suc e > start \<and> \<not> rune_start (text ! Suc e) then back_end text start e else Suc e)"

(* src: internal/waf/llm_protection.go:148-150 splitLLMText (next) *)
fun back_next :: "string \<Rightarrow> nat \<Rightarrow> nat \<Rightarrow> nat" where
  "back_next text start 0 = 0"
| "back_next text start (Suc n) =
     (if Suc n > start \<and> \<not> rune_start (text ! Suc n) then back_next text start n else Suc n)"

(* src: internal/waf/llm_protection.go:139-142 splitLLMText (chunk end) *)
definition llm_chunk_end :: "nat \<Rightarrow> string \<Rightarrow> nat \<Rightarrow> nat" where
  "llm_chunk_end max_bytes text start = back_end text start (min (start + max_bytes) (length text))"

text \<open>\<open>end - overlap\<close> may be negative in the source; it is then not after \<open>start\<close>, as zero is.\<close>

(* src: internal/waf/llm_protection.go:147-154 splitLLMText (next start) *)
definition llm_chunk_next :: "nat \<Rightarrow> string \<Rightarrow> nat \<Rightarrow> nat" where
  "llm_chunk_next max_bytes text start =
     (let e = llm_chunk_end max_bytes text start;
          overlap = min llm_text_chunk_overlap_bytes (max_bytes div 4);
          n = back_next text start (e - overlap)
      in if n \<le> start then e else n)"

text \<open>The loop may run forever: then the value is \<open>None\<close>.\<close>

(* src: internal/waf/llm_protection.go:138-155 splitLLMText (loop) *)
partial_function (option) split_llm_loop :: "nat \<Rightarrow> string \<Rightarrow> nat \<Rightarrow> string list option" where
  "split_llm_loop max_bytes text start =
     (if start < length text then
        let e = llm_chunk_end max_bytes text start
        in if e = length text then Some [slice text start e]
           else Option.bind (split_llm_loop max_bytes text (llm_chunk_next max_bytes text start))
                  (\<lambda>rest. Some (slice text start e # rest))
      else Some [])"

declare split_llm_loop.simps [code]

(* src: internal/waf/llm_protection.go:132-157 splitLLMText *)
definition split_llm_text :: "string \<Rightarrow> int \<Rightarrow> string list option" where
  "split_llm_text text max_bytes =
     (if max_bytes \<le> 0 \<or> int (length text) \<le> max_bytes then Some [text]
      else split_llm_loop (nat max_bytes) text 0)"

subsection \<open>The sidecar\<close>

(* src: internal/waf/llm_protection.go:68-73 DetectRequest *)
record detect_request =
  dr_tenant :: string
  dr_path :: string
  dr_texts :: "string list"
  dr_max_latency_ms :: int

(* src: internal/waf/llm_protection.go:94 errSidecarRejectedInput *)
datatype sidecar_error =
    SidecarRejectedInput int
  | SidecarUnreachable
  | SidecarStatus int
  | SidecarBadAnswer
  | SidecarScoreCount
  | SidecarInvalidScore

datatype gjson_result = GAbsent | GArray "string list" | GValue string

text \<open>
  \<open>le_gjson\<close> gives the strings of the elements of an array, or the string of
  any other value; \<open>le_send\<close> the status and body of the sidecar's answer;
  \<open>le_remaining\<close> the time left until the deadline at the n-th batch.
\<close>

record llm_env =
  le_gjson :: "string \<Rightarrow> string \<Rightarrow> gjson_result"
  le_valid_json :: "string \<Rightarrow> bool"
  le_send :: "string \<Rightarrow> string \<Rightarrow> detect_request \<Rightarrow> (int \<times> string) option"
  le_decode :: "string \<Rightarrow> real list option"
  le_remaining :: "nat \<Rightarrow> duration"
  le_sha256_hex :: "string \<Rightarrow> string"
  le_format :: "real \<Rightarrow> string"
  le_evict :: "(string, real) evict"

(* src: internal/waf/llm_protection.go:376-435 ProxyHandler.querySidecar *)
definition query_sidecar ::
  "llm_env \<Rightarrow> llm_protection_config \<Rightarrow> string \<Rightarrow> string \<Rightarrow> nat \<Rightarrow> string list \<Rightarrow> sidecar_error + real list" where
  "query_sidecar env policy tenant path n texts =
     (let max_latency = min (llm_timeout policy) (le_remaining env n);
          req = \<lparr>dr_tenant = tenant, dr_path = path, dr_texts = texts,
                 dr_max_latency_ms = max (max_latency div millisecond) 0\<rparr>
      in case le_send env (llm_sidecar_url policy) (''Bearer '' @ llm_sidecar_token policy) req of
           None \<Rightarrow> Inl SidecarUnreachable
         | Some (status, b) \<Rightarrow>
             if status = 400 \<or> status = 413 \<or> status = 422 then Inl (SidecarRejectedInput status)
             else if status \<noteq> 200 then Inl (SidecarStatus status)
             else case le_decode env (take 65536 b) of
                    None \<Rightarrow> Inl SidecarBadAnswer
                  | Some scores \<Rightarrow>
                      if length scores \<noteq> length texts then Inl SidecarScoreCount
                      else if list_ex (\<lambda>score. score < 0 \<or> score > 1) scores then Inl SidecarInvalidScore
                      else Inr scores)"

(* src: internal/waf/llm_protection.go:365-372 querySidecarBatched (loop) *)
function query_batches ::
  "llm_env \<Rightarrow> llm_protection_config \<Rightarrow> string \<Rightarrow> string \<Rightarrow> nat \<Rightarrow> nat \<Rightarrow> string list \<Rightarrow> sidecar_error + real list" where
  "query_batches env policy tenant path batch_size n texts =
     (if texts = [] \<or> batch_size = 0 then Inr []
      else case query_sidecar env policy tenant path n (take batch_size texts) of
             Inl e \<Rightarrow> Inl e
           | Inr batch \<Rightarrow>
               (case query_batches env policy tenant path batch_size (Suc n) (drop batch_size texts) of
                  Inl e \<Rightarrow> Inl e
                | Inr rest \<Rightarrow> Inr (batch @ rest)))"
  by pat_completeness auto

termination query_batches
  by (relation "measure (\<lambda>(_, _, _, _, _, _, texts). length texts)") auto

declare query_batches.simps [simp del]

(* src: internal/waf/llm_protection.go:356-374 ProxyHandler.querySidecarBatched *)
definition query_sidecar_batched ::
  "llm_env \<Rightarrow> llm_protection_config \<Rightarrow> string \<Rightarrow> string \<Rightarrow> string list \<Rightarrow> sidecar_error + real list" where
  "query_sidecar_batched env policy tenant path texts =
     (let batch_size = (if llm_sidecar_max_batch policy \<le> 0 then default_llm_sidecar_max_batch else llm_sidecar_max_batch policy)
      in query_batches env policy tenant path (nat batch_size) 0 texts)"

subsection \<open>The check of a request\<close>

(* src: internal/waf/llm_protection.go:348-352 hashText *)
definition hash_text :: "llm_env \<Rightarrow> string \<Rightarrow> string" where
  "hash_text env text = le_sha256_hex env text"

(* src: internal/waf/llm_protection.go:344-346 llmCacheKey *)
definition llm_cache_key :: "llm_env \<Rightarrow> string \<Rightarrow> string \<Rightarrow> string \<Rightarrow> string \<Rightarrow> string" where
  "llm_cache_key env sidecar_url tenant path prompt =
     hash_text env (sidecar_url @ [CHR 0x00] @ tenant @ [CHR 0x00] @ path @ [CHR 0x00] @ prompt)"

text \<open>The cache of scores, the counters of blocked requests and of events in audit mode.\<close>

record llm_state =
  ls_cache :: "(string \<times> real) list"
  ls_blocked :: blocked_counter
  ls_audit :: "(string \<times> int) list"

(* src: internal/waf/llm_protection.go:224-241 applyLLMProtection (JSON fields) *)
fun json_texts :: "llm_env \<Rightarrow> string \<Rightarrow> string list \<Rightarrow> string list" where
  "json_texts env body_str [] = []"
| "json_texts env body_str (field # fs) =
     (case le_gjson env body_str (replace_all field ''[]'' ''.#'') of
        GAbsent \<Rightarrow> []
      | GArray vs \<Rightarrow> filter (\<lambda>v. v \<noteq> []) vs
      | GValue v \<Rightarrow> if v \<noteq> [] then [v] else []) @ json_texts env body_str fs"

text \<open>\<open>None\<close> when the split of one of the texts does not end.\<close>

(* src: internal/waf/llm_protection.go:258-261 applyLLMProtection (chunks) *)
fun split_texts :: "int \<Rightarrow> string list \<Rightarrow> string list option" where
  "split_texts max_bytes [] = Some []"
| "split_texts max_bytes (text # texts) =
     (case split_llm_text text max_bytes of
        None \<Rightarrow> None
      | Some cs \<Rightarrow> map_option ((@) cs) (split_texts max_bytes texts))"

text \<open>The highest cached score and the texts to query, in order; \<open>queued\<close> holds their keys.\<close>

(* src: internal/waf/llm_protection.go:267-277 applyLLMProtection (cache lookup) *)
fun scan_chunks ::
  "(string, real) evict \<Rightarrow> (string \<Rightarrow> string) \<Rightarrow> (string \<times> real) list \<Rightarrow> string list \<Rightarrow> real \<Rightarrow> string list \<Rightarrow>
   real \<times> string list" where
  "scan_chunks evict key cache [] highest queued = (highest, [])"
| "scan_chunks evict key cache (text # texts) highest queued =
     (case lru_get evict (key text) cache of
        Some score \<Rightarrow> scan_chunks evict key cache texts (if score > highest then score else highest) queued
      | None \<Rightarrow>
          if key text \<in> set queued then scan_chunks evict key cache texts highest queued
          else let (h, qs) = scan_chunks evict key cache texts highest (key text # queued) in (h, text # qs))"

(* src: internal/waf/llm_protection.go:302-309 applyLLMProtection (scores) *)
fun store_scores ::
  "(string, real) evict \<Rightarrow> (string \<Rightarrow> string) \<Rightarrow> (string \<times> real) list \<Rightarrow> (string \<times> real) list \<Rightarrow> real \<Rightarrow>
   (string \<times> real) list \<times> real" where
  "store_scores evict key [] cache highest = (cache, highest)"
| "store_scores evict key ((text, score) # rest) cache highest =
     store_scores evict key rest (lru_add evict (key text) score cache) (if score > highest then score else highest)"

(* src: internal/waf/llm_protection.go:312-341 applyLLMProtection (verdict) *)
definition llm_verdict ::
  "llm_env \<Rightarrow> llm_protection_config \<Rightarrow> string \<Rightarrow> real \<Rightarrow> log_writer \<Rightarrow> llm_state \<Rightarrow> bool \<times> log_writer \<times> llm_state" where
  "llm_verdict env policy tenant highest w st =
     (if highest \<ge> llm_threshold policy then
        if llm_action policy = ''audit'' then (False, w, st\<lparr>ls_audit := counter_inc tenant (ls_audit st)\<rparr>)
        else (True,
              json_answer (''{'' @ [CHR 0x22] @ ''error'' @ [CHR 0x22] @ '': '' @ [CHR 0x22] @ ''Forbidden'' @ [CHR 0x22] @
                '', '' @ [CHR 0x22] @ ''message'' @ [CHR 0x22] @ '': '' @ [CHR 0x22] @
                ''Potential prompt injection detected (score: '' @ le_format env highest @ '')'' @ [CHR 0x22] @ ''}'') 403 w,
              st\<lparr>ls_blocked := counter_inc (''llm_protection'', tenant) (ls_blocked st)\<rparr>)
      else (False, w, st))"

(* src: internal/waf/llm_protection.go:263-341 applyLLMProtection (scoring) *)
definition score_chunks ::
  "llm_env \<Rightarrow> llm_protection_config \<Rightarrow> string \<Rightarrow> string \<Rightarrow> string list \<Rightarrow> log_writer \<Rightarrow> llm_state \<Rightarrow>
   bool \<times> log_writer \<times> llm_state" where
  "score_chunks env policy tenant path chunks w st =
     (let key = llm_cache_key env (llm_sidecar_url policy) tenant path;
          (highest, to_query) = scan_chunks (le_evict env) key (ls_cache st) chunks 0 []
      in if to_query = [] then llm_verdict env policy tenant highest w st
         else case query_sidecar_batched env policy tenant path to_query of
                Inl (SidecarRejectedInput _) \<Rightarrow>
                  if llm_action policy = ''audit'' then (False, w, st\<lparr>ls_audit := counter_inc tenant (ls_audit st)\<rparr>)
                  else (True, http_error ''LLM request cannot be inspected'' 422 w,
                        st\<lparr>ls_blocked := counter_inc (''llm_protection_uninspectable'', tenant) (ls_blocked st)\<rparr>)
              | Inl _ \<Rightarrow>
                  if llm_fail_mode policy = ''closed'' then (True, http_error ''Security dependency failure'' 403 w, st)
                  else (False, w, st)
              | Inr scores \<Rightarrow>
                  let (cache, highest) = store_scores (le_evict env) key (zip to_query scores) (ls_cache st) highest
                  in llm_verdict env policy tenant highest w (st\<lparr>ls_cache := cache\<rparr>))"

(* src: internal/waf/llm_protection.go:216-261 applyLLMProtection (texts) *)
definition inspect_llm_body ::
  "llm_env \<Rightarrow> llm_protection_config \<Rightarrow> string \<Rightarrow> string \<Rightarrow> bool \<Rightarrow> string \<Rightarrow> log_writer \<Rightarrow> llm_state \<Rightarrow>
   (bool \<times> log_writer \<times> llm_state) option" where
  "inspect_llm_body env policy tenant path is_json b w st =
     (if is_json \<and> \<not> le_valid_json env b then Some (True, http_error ''Invalid JSON request body'' 400 w, st)
      else
        let texts = (if is_json then json_texts env b (llm_inspect_json_fields policy) else [b])
        in if texts = [] then Some (False, w, st)
           else if llm_mode policy = ''rules'' then Some (False, w, st)
           else map_option (\<lambda>chunks. score_chunks env policy tenant path chunks w st)
                  (split_texts (llm_max_text_bytes policy) texts))"

(* src: internal/waf/llm_protection.go:173-179 applyLLMProtection (limit) *)
definition llm_body_limit :: "llm_protection_config \<Rightarrow> int \<Rightarrow> int" where
  "llm_body_limit policy request_body_limit =
     (let limit = llm_max_body_bytes policy;
          limit = (if limit \<le> 0 then request_body_limit else limit)
      in if limit \<le> 0 then default_request_body_cap else limit)"

text \<open>The first result is true when the request was answered; \<open>None\<close> when the handler never returns.\<close>

(* src: internal/waf/llm_protection.go:161-342 ProxyHandler.applyLLMProtection *)
definition apply_llm_protection ::
  "llm_env \<Rightarrow> registry \<Rightarrow> int \<Rightarrow> llm_protection_config \<Rightarrow> request \<Rightarrow> log_writer \<Rightarrow> llm_state \<Rightarrow>
   (bool \<times> log_writer \<times> request \<times> llm_state) option" where
  "apply_llm_protection env reg request_body_limit policy r w st =
     (if \<not> llm_enabled policy then Some (False, w, r, st)
      else if \<not> path_matches_any (llm_inspect_paths policy) (rq_path r) then Some (False, w, r, st)
      else case parse_media_type (header_get (rq_header r) ''Content-Type'') of
             None \<Rightarrow> Some (True, http_error ''Invalid Content-Type'' 415 w, r, st)
           | Some mt \<Rightarrow>
               let is_json = (to_lower mt = ''application/json'');
                   is_text = (to_lower mt = ''text/plain'')
               in if \<not> is_json \<and> \<not> is_text then Some (False, w, r, st)
                  else if rq_body r = NilBody then Some (False, w, r, st)
                  else if has_unsupported_content_encoding r
                  then Some (True, http_error ''Compressed LLM request bodies cannot be inspected'' 415 w, r, st)
                  else case inspection_body r (llm_body_limit policy request_body_limit) of
                         (Inl InspectionBodyTooLarge, r) \<Rightarrow>
                           let (w, m) = reject_inspection_oversize reg r ''llm_protection'' w (ls_blocked st)
                           in Some (True, w, r, st\<lparr>ls_blocked := m\<rparr>)
                       | (Inl BodyReadError, r) \<Rightarrow>
                           if llm_fail_mode policy = ''closed''
                           then Some (True, http_error ''Security dependency failure'' 403 w, r, st)
                           else Some (False, w, r, st)
                       | (Inr b, r) \<Rightarrow>
                           map_option (\<lambda>(blocked, w, st). (blocked, w, r, st))
                             (inspect_llm_body env policy (metric_tenant reg r) (rq_path r) is_json b w st))"

subsection \<open>Lemmas: chunks\<close>

text \<open>No four consecutive continuation bytes, as in every valid UTF-8 string.\<close>

definition short_runs :: "string \<Rightarrow> bool" where
  "short_runs t \<longleftrightarrow> (\<forall>i. i + 3 < length t \<longrightarrow> (\<exists>j \<in> {i..i + 3}. rune_start (t ! j)))"

lemma back_end_le: "back_end t s e \<le> e"
  by (induction e) auto

lemma back_end_ge: "s \<le> e \<Longrightarrow> s \<le> back_end t s e"
  by (induction e) auto

lemma back_next_le: "back_next t s n \<le> n"
  by (induction n) auto

lemma back_end_stop:
  "\<lbrakk> s < j; j \<le> e; rune_start (t ! j) \<rbrakk> \<Longrightarrow> j \<le> back_end t s e"
  by (induction e) (auto simp: le_Suc_eq)

lemma back_next_stop:
  "\<lbrakk> j \<le> n; rune_start (t ! j) \<rbrakk> \<Longrightarrow> j \<le> back_next t s n"
  by (induction n) (auto simp: le_Suc_eq)

lemma short_runs_before:
  assumes "short_runs t" "e < length t" "3 \<le> e"
  obtains j where "e - 3 \<le> j" "j \<le> e" "rune_start (t ! j)"
  using assms unfolding short_runs_def by (metis add.commute atLeastAtMost_iff le_add_diff_inverse)

lemma llm_chunk_end_length: "llm_chunk_end m t s = length t" if "length t \<le> s + m" "s < length t"
  using that by (cases "length t") (auto simp: llm_chunk_end_def min_def)

lemma llm_chunk_end_bounds:
  assumes "short_runs t" "16 \<le> m" "s + m < length t"
  shows "s + m - 3 \<le> llm_chunk_end m t s" "llm_chunk_end m t s \<le> s + m"
proof -
  from assms have e: "s + m < length t" "3 \<le> s + m" by auto
  obtain j where j: "s + m - 3 \<le> j" "j \<le> s + m" "rune_start (t ! j)"
    using short_runs_before [OF assms(1) e] .
  then have "j \<le> back_end t s (s + m)" using assms(2) by (intro back_end_stop) auto
  then show "s + m - 3 \<le> llm_chunk_end m t s" "llm_chunk_end m t s \<le> s + m"
    using j assms(3) back_end_le [of t s "s + m"] by (auto simp: llm_chunk_end_def min_def)
qed

definition llm_overlap :: "nat \<Rightarrow> nat" where
  "llm_overlap m = min llm_text_chunk_overlap_bytes (m div 4)"

lemma llm_chunk_next_bounds:
  assumes "short_runs t" "16 \<le> m" "s < length t" "llm_chunk_end m t s < length t"
  shows "s < llm_chunk_next m t s" "llm_chunk_next m t s + llm_overlap m \<le> llm_chunk_end m t s"
proof -
  let ?e = "llm_chunk_end m t s"
  have lt: "s + m < length t" using assms(3,4) llm_chunk_end_length by (metis leI less_irrefl)
  note b = llm_chunk_end_bounds [OF assms(1,2) lt]
  have o: "llm_overlap m * 4 \<le> m" by (auto simp: llm_overlap_def min_def)
  have n: "?e - llm_overlap m < length t" "3 \<le> ?e - llm_overlap m"
    using b o assms(2,4) by linarith+
  obtain j where j: "?e - llm_overlap m - 3 \<le> j" "j \<le> ?e - llm_overlap m" "rune_start (t ! j)"
    using short_runs_before [OF assms(1) n] .
  have "s < j" using j(1) b o assms(2) by linarith
  moreover have "j \<le> back_next t s (?e - llm_overlap m)" using j by (intro back_next_stop)
  ultimately have g: "s < back_next t s (?e - llm_overlap m)" by linarith
  then have "llm_chunk_next m t s = back_next t s (?e - llm_overlap m)"
    by (simp add: llm_chunk_next_def Let_def flip: llm_overlap_def)
  then show "s < llm_chunk_next m t s" "llm_chunk_next m t s + llm_overlap m \<le> ?e"
    using g back_next_le [of t s "?e - llm_overlap m"] b o assms(2) by linarith+
qed

interpretation llm: chunker "\<lambda>t. short_runs t \<and> 16 \<le> m" "llm_chunk_end m" "llm_chunk_next m" "split_llm_loop m"
  m "llm_overlap m" for m
proof unfold_locales
  fix t s
  assume a: "short_runs t \<and> 16 \<le> m" "s < length t"
  then show "s < llm_chunk_end m t s \<and> llm_chunk_end m t s \<le> length t \<and> llm_chunk_end m t s \<le> s + m"
  proof (cases "s + m < length t")
    case True
    then show ?thesis using llm_chunk_end_bounds [of t m s] a by auto
  next
    case False
    then show ?thesis using llm_chunk_end_length [of t s m] a by auto
  qed
  show "split_llm_loop m t s =
      (if llm_chunk_end m t s = length t then Some [slice t s (llm_chunk_end m t s)]
       else map_option ((#) (slice t s (llm_chunk_end m t s))) (split_llm_loop m t (llm_chunk_next m t s)))"
    using a by (subst split_llm_loop.simps) (simp add: Let_def map_conv_bind_option o_def)
next
  fix t s
  assume "short_runs t \<and> 16 \<le> m" "s < length t" "llm_chunk_end m t s < length t"
  then show "s < llm_chunk_next m t s \<and> llm_chunk_next m t s + llm_overlap m \<le> llm_chunk_end m t s"
    using llm_chunk_next_bounds by blast
qed

text \<open>A run of continuation bytes as long as a chunk: the end of the chunk falls back to its start.\<close>

lemma back_end_run:
  "\<lbrakk> \<forall>i \<in> {s<..e}. \<not> rune_start (t ! i); s \<le> e; e < length t \<rbrakk> \<Longrightarrow> back_end t s e = s"
  by (induction e) (auto simp: le_Suc_eq)

lemma split_llm_loop_stuck:
  assumes "s < length t" "llm_chunk_end m t s = s" "llm_chunk_next m t s = s"
  shows "split_llm_loop m t s = None"
proof (rule ccontr)
  assume "split_llm_loop m t s \<noteq> None"
  then obtain cs where cs: "split_llm_loop m t s = Some cs" by blast
  have "split_llm_loop m t s = Option.bind (split_llm_loop m t s) (\<lambda>rest. Some (slice t s s # rest))"
    using assms by (subst split_llm_loop.simps) (simp add: Let_def)
  then show False using cs by simp
qed

subsection \<open>Lemmas: scores\<close>

lemma query_sidecar_scores:
  "query_sidecar env policy tenant path n texts = Inr scores \<Longrightarrow>
   length scores = length texts \<and> (\<forall>x \<in> set scores. 0 \<le> x \<and> x \<le> 1)"
  by (force simp: query_sidecar_def Let_def list_ex_iff split: option.splits if_splits)

lemma query_batches_scores:
  "\<lbrakk> query_batches env policy tenant path k n texts = Inr scores; 0 < k \<rbrakk> \<Longrightarrow>
   length scores = length texts \<and> (\<forall>x \<in> set scores. 0 \<le> x \<and> x \<le> 1)"
proof (induction env policy tenant path k n texts arbitrary: scores rule: query_batches.induct)
  case (1 env policy tenant path k n texts)
  show ?case
  proof (cases "texts = []")
    case True
    then show ?thesis using "1.prems" by (simp add: query_batches.simps)
  next
    case False
    then obtain b rest where b: "query_sidecar env policy tenant path n (take k texts) = Inr b"
      and rest: "query_batches env policy tenant path k (Suc n) (drop k texts) = Inr rest" and s: "scores = b @ rest"
      using "1.prems" by (subst (asm) query_batches.simps) (auto split: sum.splits)
    have "length rest = length (drop k texts) \<and> (\<forall>x \<in> set rest. 0 \<le> x \<and> x \<le> 1)"
      using "1.IH" [OF _ b rest] "1.prems"(2) False by simp
    then show ?thesis using query_sidecar_scores [OF b] s by auto
  qed
qed

lemma query_sidecar_batched_scores:
  "query_sidecar_batched env policy tenant path texts = Inr scores \<Longrightarrow>
   length scores = length texts \<and> (\<forall>x \<in> set scores. 0 \<le> x \<and> x \<le> 1)"
  by (rule query_batches_scores [of env policy tenant path _ 0])
    (auto simp: query_sidecar_batched_def default_llm_sidecar_max_batch_def Let_def)

text \<open>What the scan of the chunks found: every chunk is cached below the maximum or its key is queried.\<close>

lemma scan_chunks_covers:
  "\<lbrakk> scan_chunks evict key cache cs h q = (h', qs) \<rbrakk> \<Longrightarrow>
   h \<le> h' \<and> (\<forall>c \<in> set cs. (\<exists>x \<le> h'. lru_get evict (key c) cache = Some x) \<or> key c \<in> set q \<or> key c \<in> key ` set qs)"
proof (induction cs arbitrary: h q qs)
  case Nil
  then show ?case by simp
next
  case (Cons c cs)
  show ?case
  proof (cases "lru_get evict (key c) cache")
    case (Some x)
    then have "scan_chunks evict key cache cs (if x > h then x else h) q = (h', qs)" using Cons.prems by simp
    from Cons.IH [OF this] show ?thesis using Some by (auto split: if_splits)
  next
    case None
    show ?thesis
    proof (cases "key c \<in> set q")
      case True
      then have "scan_chunks evict key cache cs h q = (h', qs)" using Cons.prems None by simp
      from Cons.IH [OF this] True show ?thesis by auto
    next
      case False
      then obtain qs' where qs': "scan_chunks evict key cache cs h (key c # q) = (h', qs')" "qs = c # qs'"
        using Cons.prems None by (auto split: prod.splits)
      from Cons.IH [OF qs'(1)] show ?thesis using qs'(2) by auto
    qed
  qed
qed

lemma store_scores_highest:
  "store_scores evict key ps cache h = (cache', h') \<Longrightarrow> h \<le> h' \<and> (\<forall>p \<in> set ps. snd p \<le> h')"
  by (induction evict key ps cache h rule: store_scores.induct) (force split: if_splits)+

lemma split_texts_chunks:
  "\<lbrakk> split_texts m ts = Some cs; t \<in> set ts \<rbrakk> \<Longrightarrow> \<exists>ks. split_llm_text t m = Some ks \<and> set ks \<subseteq> set cs"
  by (induction ts arbitrary: cs) (fastforce split: option.splits)+

text \<open>The chunk was scored below the threshold, from the cache or as one of the queried texts.\<close>

definition scored_below ::
  "llm_env \<Rightarrow> llm_protection_config \<Rightarrow> string \<Rightarrow> string \<Rightarrow> (string \<times> real) list \<Rightarrow> string \<Rightarrow> bool" where
  "scored_below env policy tenant path cache c \<longleftrightarrow>
     (let key = llm_cache_key env (llm_sidecar_url policy) tenant path
      in (\<exists>x < llm_threshold policy. lru_get (le_evict env) (key c) cache = Some x) \<or>
         (\<exists>qs scores i. query_sidecar_batched env policy tenant path qs = Inr scores \<and> length scores = length qs \<and>
            i < length qs \<and> key (qs ! i) = key c \<and> scores ! i < llm_threshold policy))"

lemma score_chunks_passed:
  assumes "score_chunks env policy tenant path cs w st = (False, w', st')"
    and "llm_action policy \<noteq> ''audit''" "llm_fail_mode policy = ''closed''"
  shows "w' = w \<and> (\<forall>c \<in> set cs. scored_below env policy tenant path (ls_cache st) c)"
proof -
  let ?key = "llm_cache_key env (llm_sidecar_url policy) tenant path"
  obtain h qs where s: "scan_chunks (le_evict env) ?key (ls_cache st) cs 0 [] = (h, qs)" by fastforce
  note sc = scan_chunks_covers [OF s]
  show ?thesis
  proof (cases "qs = []")
    case True
    then have "llm_verdict env policy tenant h w st = (False, w', st')" using assms(1) s by (simp add: score_chunks_def)
    then have "h < llm_threshold policy" "w' = w" using assms(2) by (auto simp: llm_verdict_def split: if_splits)
    then show ?thesis using sc True unfolding scored_below_def Let_def by fastforce
  next
    case False
    then obtain scores where q: "query_sidecar_batched env policy tenant path qs = Inr scores"
      using assms s by (auto simp: score_chunks_def split: sum.splits sidecar_error.splits)
    obtain cache h' where st: "store_scores (le_evict env) ?key (zip qs scores) (ls_cache st) h = (cache, h')" by fastforce
    have "llm_verdict env policy tenant h' w (st\<lparr>ls_cache := cache\<rparr>) = (False, w', st')"
      using assms(1) s False q st by (simp add: score_chunks_def)
    then have t: "h' < llm_threshold policy" "w' = w" using assms(2) by (auto simp: llm_verdict_def split: if_splits)
    have len: "length scores = length qs" using query_sidecar_batched_scores [OF q] by blast
    have below: "scores ! i < llm_threshold policy" if "i < length qs" for i
    proof -
      have "(qs ! i, scores ! i) \<in> set (zip qs scores)" using that len by (auto simp: set_zip)
      then show ?thesis using store_scores_highest [OF st] t(1) by fastforce
    qed
    have "scored_below env policy tenant path (ls_cache st) c" if "c \<in> set cs" for c
    proof (cases "\<exists>x \<le> h. lru_get (le_evict env) (?key c) (ls_cache st) = Some x")
      case True
      then obtain x where "x \<le> h" "lru_get (le_evict env) (?key c) (ls_cache st) = Some x" by blast
      moreover have "h \<le> h'" using store_scores_highest [OF st] by blast
      ultimately show ?thesis using t(1) unfolding scored_below_def Let_def by fastforce
    next
      case False
      then have "?key c \<in> ?key ` set qs" using sc that by auto
      then obtain i where "i < length qs" "?key (qs ! i) = ?key c" by (auto simp: in_set_conv_nth)
      then show ?thesis using q len below unfolding scored_below_def Let_def by blast
    qed
    then show ?thesis using t(2) by blast
  qed
qed

lemma short_runs_starts: "list_all rune_start t \<Longrightarrow> short_runs t"
  unfolding short_runs_def list_all_length by (intro allI impI bexI [where x = i for i]) auto

subsection \<open>Properties\<close>

text \<open>C24: splitting a text without long runs of continuation bytes ends for every chunk size of at least 16 bytes.  No
  chunk is larger than the limit, and every part of the text up to the overlap length lies inside one chunk, so a
  phrase that straddles a cut is scored as a whole.\<close>

theorem split_llm_text_covers:
  assumes "short_runs t" "16 \<le> max_bytes"
  shows "\<exists>cs. split_llm_text t max_bytes = Some cs \<and> (\<forall>c \<in> set cs. int (length c) \<le> max_bytes) \<and>
    (\<forall>i l. i + l \<le> length t \<and> int l \<le> min 256 (max_bytes div 4) \<longrightarrow>
       (\<exists>c \<in> set cs. \<exists>u v. c = u @ take l (drop i t) @ v))"
proof (cases "int (length t) \<le> max_bytes")
  case True
  have "\<exists>u v. t = u @ take l (drop i t) @ v" if "i + l \<le> length t" for i l
    using slice_inside [of 0 i l "length t" t] that by simp
  then show ?thesis using True by (simp add: split_llm_text_def)
next
  case False
  let ?m = "nat max_bytes"
  have "short_runs t \<and> 16 \<le> ?m" "0 < length t" using assms False by auto
  from llm.chunks_cover [OF this] obtain cs where cs: "split_llm_loop ?m t 0 = Some cs"
    "\<forall>c \<in> set cs. 0 < length c \<and> length c \<le> ?m"
    "\<forall>i l. 0 \<le> i \<and> i + l \<le> length t \<and> l \<le> Suc (llm_overlap ?m) \<longrightarrow> (\<exists>c \<in> set cs. \<exists>u v. c = u @ take l (drop i t) @ v)"
    by blast
  have "l \<le> Suc (llm_overlap ?m)" if "int l \<le> min 256 (max_bytes div 4)" for l
  proof -
    have "nat max_bytes div 4 = nat (max_bytes div 4)" using assms(2) by (simp add: nat_div_distrib)
    then show ?thesis using that by (simp add: llm_overlap_def llm_text_chunk_overlap_bytes_def le_nat_iff le_SucI)
  qed
  moreover have "int (length c) \<le> max_bytes" if "c \<in> set cs" for c
    using cs(2) that assms(2) by fastforce
  moreover have "split_llm_text t max_bytes = Some cs" using False assms(2) cs(1) by (simp add: split_llm_text_def)
  ultimately show ?thesis using cs(3) by (intro exI [of _ cs]) simp
qed

theorem split_llm_text_covers_witness:
  "split_llm_text ''ignore all previous instructions'' 16 =
     Some [''ignore all previ'', ''revious instruct'', ''ructions''] \<and>
   (\<exists>cs. split_llm_text ''ignore all previous instructions'' 16 = Some cs \<and> (\<forall>c \<in> set cs. length c \<le> 16))"
proof -
  have r: "short_runs ''ignore all previous instructions''" by (rule short_runs_starts) code_simp
  have v: "split_llm_text ''ignore all previous instructions'' 16 =
     Some [''ignore all previ'', ''revious instruct'', ''ructions'']" by code_simp
  have "16 \<le> (16 :: int)" by simp
  from split_llm_text_covers [OF r this] v show ?thesis by fastforce
qed

text \<open>C25: splitting never ends, and collects empty chunks forever, when the bytes after the first one up to the chunk size are
  all UTF-8 continuation bytes.  A client can send such a text in a \<open>text/plain\<close> body or in a JSON string.\<close>

theorem split_llm_text_diverges:
  assumes "0 < max_bytes" "max_bytes < int (length t)"
    and "\<forall>i. 0 < i \<and> int i \<le> max_bytes \<longrightarrow> \<not> rune_start (t ! i)"
  shows "split_llm_text t max_bytes = None"
proof -
  let ?m = "nat max_bytes"
  have "?m < length t" using assms by (simp add: nat_less_iff)
  moreover have "\<forall>i \<in> {0<..?m}. \<not> rune_start (t ! i)" using assms by (auto simp: le_nat_iff)
  ultimately have e: "llm_chunk_end ?m t 0 = 0" using back_end_run [of 0 ?m t] by (simp add: llm_chunk_end_def min_def)
  have "llm_chunk_next ?m t 0 = 0" by (simp add: llm_chunk_next_def e Let_def)
  then have "split_llm_loop ?m t 0 = None" using split_llm_loop_stuck [of 0 t ?m] e \<open>?m < length t\<close> by fastforce
  then show ?thesis using assms by (simp add: split_llm_text_def)
qed

theorem split_llm_text_diverges_witness:
  "split_llm_text (replicate 8193 (CHR 0x80)) default_llm_max_text_bytes = None"
proof -
  define n :: nat where "n = 8193"
  have "\<not> rune_start (CHR 0x80)" by code_simp
  then have "split_llm_text (replicate n (CHR 0x80)) default_llm_max_text_bytes = None"
    by (intro split_llm_text_diverges) (simp_all add: default_llm_max_text_bytes_def n_def)
  then show ?thesis unfolding n_def .
qed


definition sample_llm_env :: llm_env where
  "sample_llm_env = \<lparr>le_gjson = (\<lambda>_ _. GAbsent), le_valid_json = (\<lambda>_. True), le_send = (\<lambda>_ _ _. Some (200, ''ok'')),
     le_decode = (\<lambda>_. Some [1 / 2]), le_remaining = (\<lambda>_. second), le_sha256_hex = (\<lambda>s. s), le_format = (\<lambda>_. []),
     le_evict = keep_all\<rparr>"

definition sample_llm_policy :: llm_protection_config where
  "sample_llm_policy = (llm_set_defaults zero_llm)\<lparr>llm_enabled := True, llm_action := ''deny'', llm_fail_mode := ''closed''\<rparr>"

definition sample_llm_request :: request where
  "sample_llm_request = sample_request\<lparr>rq_method := ''POST'', rq_path := ''/v1/messages'',
     rq_header := [(''Content-Type'', [''text/plain''])], rq_content_length := 5, rq_body := Stream ''hello'' False\<rparr>"

lemma sample_llm_scores:
  "fst (score_chunks sample_llm_env sample_llm_policy tenant path [''hello''] w \<lparr>ls_cache = [], ls_blocked = [], ls_audit = []\<rparr>) = False"
  by (simp add: score_chunks_def sample_llm_env_def sample_llm_policy_def llm_set_defaults_def zero_llm_def lru_get_def keep_all_def
      query_sidecar_batched_def query_batches.simps query_sidecar_def default_llm_sidecar_max_batch_def llm_verdict_def)


text \<open>The sidecar's answers are used only when they are complete and in range: a successful query of any number of texts,
  in batches, gives exactly one score between 0 and 1 for each text.\<close>

theorem sidecar_scores_valid:
  assumes "query_sidecar_batched env policy tenant path texts = Inr scores"
  shows "length scores = length texts \<and> (\<forall>x \<in> set scores. 0 \<le> x \<and> x \<le> 1)"
  using query_sidecar_batched_scores [OF assms] .

theorem sidecar_scores_valid_witness:
  "\<exists>scores. query_sidecar_batched sample_llm_env (sample_llm_policy\<lparr>llm_sidecar_max_batch := 1\<rparr>) [] [] [''a'', ''b''] = Inr scores \<and>
     length scores = 2 \<and> (\<forall>x \<in> set scores. 0 \<le> x \<and> x \<le> 1)"
proof -
  have "(case query_sidecar_batched sample_llm_env (sample_llm_policy\<lparr>llm_sidecar_max_batch := 1\<rparr>) [] [] [''a'', ''b''] of
     Inr scores \<Rightarrow> True | Inl _ \<Rightarrow> False)" 
    by (simp add: query_sidecar_batched_def query_batches.simps query_sidecar_def sample_llm_env_def sample_llm_policy_def
        default_llm_sidecar_max_batch_def)
  then obtain scores where q: "query_sidecar_batched sample_llm_env (sample_llm_policy\<lparr>llm_sidecar_max_batch := 1\<rparr>) [] []
     [''a'', ''b''] = Inr scores" by (auto split: sum.splits)
  from sidecar_scores_valid [OF q] q show ?thesis by auto
qed

text \<open>The key of the score cache does not separate the path from the text: moving a NUL byte and what follows it
  from the end of the path to the front of the text gives the same key, so the cached score of one is used for the other.\<close>

theorem llm_cache_key_ambiguous:
  "llm_cache_key env url tenant (p @ [CHR 0x00] @ q) x = llm_cache_key env url tenant p (q @ [CHR 0x00] @ x) \<and>
   (p @ [CHR 0x00] @ q, x) \<noteq> (p, q @ [CHR 0x00] @ x)"
  by (simp add: llm_cache_key_def)

end
