(* ===== verification/Guard.thy ===== *)
theory Guard
  imports Llm
begin

text \<open>
  The classification sidecar \<open>services/synit-llm-guard/main.go\<close>: its chunking, the
  mapping of model labels to scores, the slot that serialises inferences, the
  detection handler and its configuration.

  Parameters: the model pipeline, the JSON decoder on a bounded reader, the
  environment variables and the parsers of floating-point numbers and
  durations.  Scores are real numbers.  The request type has the fields of
  \<open>detect_request\<close>.
\<close>

subsection \<open>Chunks\<close>

(* src: services/synit-llm-guard/main.go:381-385 runeBoundary (loop) *)
fun rune_boundary_loop :: "string \<Rightarrow> nat \<Rightarrow> nat \<Rightarrow> nat \<Rightarrow> nat" where
  "rune_boundary_loop text index 0 n = index"
| "rune_boundary_loop text index (Suc i) 0 = index"
| "rune_boundary_loop text index (Suc i) (Suc n) =
     (if rune_start (text ! Suc i) then Suc i else rune_boundary_loop text index i n)"

(* src: services/synit-llm-guard/main.go:380-387 runeBoundary *)
definition rune_boundary :: "string \<Rightarrow> nat \<Rightarrow> nat" where
  "rune_boundary text index = rune_boundary_loop text index index 4"

text \<open>
  \<open>utf8.DecodeRuneInString\<close>: the width of the first rune; an invalid encoding has
  width 1 and the empty string width 0.
\<close>

definition in_range :: "int \<Rightarrow> int \<Rightarrow> char \<Rightarrow> bool" where
  "in_range lo hi c = (lo \<le> byte_val c \<and> byte_val c \<le> hi)"

fun decode_rune_size :: "string \<Rightarrow> nat" where
  "decode_rune_size [] = 0"
| "decode_rune_size (a # s) =
     (case s of
        b # s' \<Rightarrow>
          if in_range 0xC2 0xDF a \<and> in_range 0x80 0xBF b then 2
          else (case s' of
            c # s'' \<Rightarrow>
              if (in_range 0xE0 0xE0 a \<and> in_range 0xA0 0xBF b \<or> in_range 0xE1 0xEC a \<and> in_range 0x80 0xBF b \<or>
                  in_range 0xED 0xED a \<and> in_range 0x80 0x9F b \<or> in_range 0xEE 0xEF a \<and> in_range 0x80 0xBF b) \<and>
                 in_range 0x80 0xBF c then 3
              else (case s'' of
                d # _ \<Rightarrow>
                  if (in_range 0xF0 0xF0 a \<and> in_range 0x90 0xBF b \<or> in_range 0xF1 0xF3 a \<and> in_range 0x80 0xBF b \<or>
                      in_range 0xF4 0xF4 a \<and> in_range 0x80 0x8F b) \<and> in_range 0x80 0xBF c \<and> in_range 0x80 0xBF d
                  then 4 else 1
              | [] \<Rightarrow> 1)
          | [] \<Rightarrow> 1)
      | [] \<Rightarrow> 1)"

(* src: services/synit-llm-guard/main.go:362-365 splitChunks (end) *)
definition guard_cut :: "nat \<Rightarrow> string \<Rightarrow> nat \<Rightarrow> nat" where
  "guard_cut chunk_bytes text start =
     (let e = rune_boundary text (start + chunk_bytes) in if e \<le> start then start + chunk_bytes else e)"

text \<open>\<open>end - overlapBytes\<close> may be negative in the source; it is then not after \<open>start\<close>, as zero is.\<close>

(* src: services/synit-llm-guard/main.go:367-373 splitChunks (next) *)
definition guard_next :: "nat \<Rightarrow> nat \<Rightarrow> string \<Rightarrow> nat \<Rightarrow> nat" where
  "guard_next chunk_bytes overlap_bytes text start =
     (let e = guard_cut chunk_bytes text start;
          n = rune_boundary text (e - overlap_bytes)
      in if n \<le> start then min (start + decode_rune_size (drop start text)) e else n)"

lemma rune_boundary_loop_bounds: "i \<le> index \<Longrightarrow> rune_boundary_loop t index i n \<le> index"
  by (induction t index i n rule: rune_boundary_loop.induct) auto

lemma rune_boundary_le: "rune_boundary t index \<le> index"
  by (simp add: rune_boundary_def rune_boundary_loop_bounds)

lemma decode_rune_size_pos: "s \<noteq> [] \<Longrightarrow> 0 < decode_rune_size s"
  by (cases s) (auto split: list.split)

lemma guard_cut_bounds:
  "0 < chunk_bytes \<Longrightarrow> start < guard_cut chunk_bytes t start \<and> guard_cut chunk_bytes t start \<le> start + chunk_bytes"
  using rune_boundary_le [of t "start + chunk_bytes"] by (auto simp: guard_cut_def Let_def)

lemma guard_next_progress:
  assumes "0 < chunk_bytes" "start < length t"
  shows "start < guard_next chunk_bytes overlap_bytes t start"
    and "guard_next chunk_bytes overlap_bytes t start \<le> guard_cut chunk_bytes t start"
  using guard_cut_bounds [OF assms(1), of start t] decode_rune_size_pos [of "drop start t"] assms(2)
    rune_boundary_le [of t "guard_cut chunk_bytes t start - overlap_bytes"]
  by (auto simp: guard_next_def Let_def)

(* src: services/synit-llm-guard/main.go:361-375 splitChunks (loop) *)
function guard_chunks :: "nat \<Rightarrow> nat \<Rightarrow> string \<Rightarrow> nat \<Rightarrow> string list" where
  "guard_chunks chunk_bytes overlap_bytes text start =
     (if 0 < chunk_bytes \<and> start + chunk_bytes < length text
      then slice text start (guard_cut chunk_bytes text start) #
           guard_chunks chunk_bytes overlap_bytes text (guard_next chunk_bytes overlap_bytes text start)
      else [drop start text])"
  by pat_completeness auto

termination guard_chunks
proof (relation "measure (\<lambda>(_, _, t, start). length t - start)")
  fix chunk_bytes overlap_bytes start :: nat and t :: string
  assume "0 < chunk_bytes \<and> start + chunk_bytes < length t"
  then have "0 < chunk_bytes" "start < length t" by auto
  from guard_next_progress(1) [OF this, of overlap_bytes]
  show "((chunk_bytes, overlap_bytes, t, guard_next chunk_bytes overlap_bytes t start),
         (chunk_bytes, overlap_bytes, t, start)) \<in> measure (\<lambda>(_, _, t, start). length t - start)"
    using \<open>start < length t\<close> by simp
qed simp

declare guard_chunks.simps [simp del]

text \<open>The configuration admits only a positive overlap.\<close>

(* src: services/synit-llm-guard/main.go:355-376 splitChunks *)
definition split_chunks :: "string \<Rightarrow> int \<Rightarrow> int \<Rightarrow> string list" where
  "split_chunks text chunk_bytes overlap_bytes =
     (if chunk_bytes \<le> 0 \<or> int (length text) \<le> chunk_bytes then [text]
      else guard_chunks (nat chunk_bytes) (nat overlap_bytes) text 0)"

subsection \<open>Labels and inference\<close>

text \<open>A label set is the list of the keys that map to true.\<close>

(* src: services/synit-llm-guard/main.go:596-605 parseLabelSet *)
definition parse_label_set :: "string \<Rightarrow> string list" where
  "parse_label_set raw =
     filter (\<lambda>label. label \<noteq> []) (map (\<lambda>label. to_upper (trim_space label)) (str_split (CHR '','') raw))"

datatype label_error = NotTwoLabels | LabelNotInOneSet string | NotOneOfEach

(* src: services/synit-llm-guard/main.go:101-111 validateModelLabels (loop) *)
fun count_labels :: "string list \<Rightarrow> string list \<Rightarrow> string list \<Rightarrow> int \<Rightarrow> int \<Rightarrow> label_error + int \<times> int" where
  "count_labels injection safe [] i s = Inr (i, s)"
| "count_labels injection safe (raw # raws) i s =
     (let label = to_upper (trim_space raw)
      in if (label \<in> set injection) = (label \<in> set safe) then Inl (LabelNotInOneSet raw)
         else if label \<in> set injection then count_labels injection safe raws (i + 1) s
         else count_labels injection safe raws i (s + 1))"

(* src: services/synit-llm-guard/main.go:95-116 validateModelLabels *)
definition validate_model_labels :: "(int \<times> string) list \<Rightarrow> string list \<Rightarrow> string list \<Rightarrow> label_error option" where
  "validate_model_labels labels injection safe =
     (if length labels \<noteq> 2 then Some NotTwoLabels
      else case count_labels injection safe (map snd labels) 0 0 of
             Inl e \<Rightarrow> Some e
           | Inr (i, s) \<Rightarrow> if i \<noteq> 1 \<or> s \<noteq> 1 then Some NotOneOfEach else None)"

text \<open>What a run of the model pipeline does; an output is a label with its score.\<close>

datatype pipeline_outcome =
    PipelinePanic | PipelineError | PipelineNil | PipelineOutputs "(string \<times> real) list list"

datatype infer_error =
    InferencePanicked | PipelineFailed | NoResult | OutputCount | OutputLabels nat | UnknownLabel string | DeadlineExceeded

(* src: services/synit-llm-guard/main.go:53-61 hugotClassifier *)
record hugot_classifier =
  hc_run_pipeline :: "string list \<Rightarrow> pipeline_outcome"
  hc_injection_labels :: "string list"
  hc_safe_labels :: "string list"

(* src: services/synit-llm-guard/main.go:166-180 hugotClassifier.infer (scores) *)
fun label_scores :: "hugot_classifier \<Rightarrow> nat \<Rightarrow> (string \<times> real) list list \<Rightarrow> infer_error + real list" where
  "label_scores c i [] = Inr []"
| "label_scores c i (outputs # rest) =
     (case outputs of
        [(raw, score)] \<Rightarrow>
          let label = to_upper (trim_space raw)
          in if label \<in> set (hc_injection_labels c)
             then (case label_scores c (Suc i) rest of Inl e \<Rightarrow> Inl e | Inr ss \<Rightarrow> Inr (score # ss))
             else if label \<in> set (hc_safe_labels c)
             then (case label_scores c (Suc i) rest of Inl e \<Rightarrow> Inl e | Inr ss \<Rightarrow> Inr ((1 - score) # ss))
             else Inl (UnknownLabel raw)
      | _ \<Rightarrow> Inl (OutputLabels i))"

(* src: services/synit-llm-guard/main.go:148-182 hugotClassifier.infer *)
definition infer :: "hugot_classifier \<Rightarrow> string list \<Rightarrow> infer_error + real list" where
  "infer c texts =
     (case hc_run_pipeline c texts of
        PipelinePanic \<Rightarrow> Inl InferencePanicked
      | PipelineError \<Rightarrow> Inl PipelineFailed
      | PipelineNil \<Rightarrow> Inl NoResult
      | PipelineOutputs outs \<Rightarrow> if length outs \<noteq> length texts then Inl OutputCount else label_scores c 0 outs)"

subsection \<open>The inference slot\<close>

text \<open>
  Callers of \<open>Classify\<close>, the goroutines they start and \<open>Close\<close> interleave.
  \<open>sl_used\<close> is the number of tokens in the channel \<open>slot\<close> of capacity one.  An
  inference is identified by a number; it runs in \<open>sl_running\<close>, and has sent its
  result but not yet freed the slot in \<open>sl_finished\<close>.
\<close>

datatype classify_pc = Idle | Queued | Awaiting nat

datatype close_pc = CloseWaiting | CloseTimedOut | CloseHolding | Destroyed

record slot_sys =
  sl_used :: nat
  sl_pc :: "nat \<Rightarrow> classify_pc"
  sl_running :: "nat set"
  sl_finished :: "nat set"
  sl_next :: nat
  sl_close :: close_pc

(* src: services/synit-llm-guard/main.go:118-195 hugotClassifier.Classify, hugotClassifier.Close *)
inductive slot_step :: "slot_sys \<Rightarrow> slot_sys \<Rightarrow> bool" where
  classify_call: "sl_pc s g = Idle \<Longrightarrow> slot_step s (s\<lparr>sl_pc := (sl_pc s)(g := Queued)\<rparr>)"
| classify_start: "\<lbrakk> sl_pc s g = Queued; sl_used s < 1 \<rbrakk> \<Longrightarrow>
    slot_step s (s\<lparr>sl_used := sl_used s + 1, sl_pc := (sl_pc s)(g := Awaiting (sl_next s)),
                   sl_running := insert (sl_next s) (sl_running s), sl_next := sl_next s + 1\<rparr>)"
| classify_cancel: "sl_pc s g = Queued \<or> sl_pc s g = Awaiting i \<Longrightarrow>
    slot_step s (s\<lparr>sl_pc := (sl_pc s)(g := Idle)\<rparr>)"
| infer_end: "i \<in> sl_running s \<Longrightarrow>
    slot_step s (s\<lparr>sl_running := sl_running s - {i}, sl_finished := insert i (sl_finished s)\<rparr>)"
| infer_release: "i \<in> sl_finished s \<Longrightarrow>
    slot_step s (s\<lparr>sl_used := sl_used s - 1, sl_finished := sl_finished s - {i}\<rparr>)"
| classify_return: "\<lbrakk> sl_pc s g = Awaiting i; i \<notin> sl_running s \<rbrakk> \<Longrightarrow>
    slot_step s (s\<lparr>sl_pc := (sl_pc s)(g := Idle)\<rparr>)"
| close_take: "\<lbrakk> sl_close s = CloseWaiting; sl_used s < 1 \<rbrakk> \<Longrightarrow>
    slot_step s (s\<lparr>sl_used := sl_used s + 1, sl_close := CloseHolding\<rparr>)"
| close_timeout: "sl_close s = CloseWaiting \<Longrightarrow> slot_step s (s\<lparr>sl_close := CloseTimedOut\<rparr>)"
| close_destroy: "sl_close s = CloseHolding \<Longrightarrow> slot_step s (s\<lparr>sl_close := Destroyed\<rparr>)"

definition slot_init :: "slot_sys \<Rightarrow> bool" where
  "slot_init s = (sl_used s = 0 \<and> sl_pc s = (\<lambda>_. Idle) \<and> sl_running s = {} \<and> sl_finished s = {} \<and> sl_close s = CloseWaiting)"

subsection \<open>The detection handler\<close>

(* src: services/synit-llm-guard/main.go:197-209 guardServer *)
record guard_server =
  gs_model_name :: string
  gs_auth_token :: string
  gs_threshold :: real
  gs_max_request_bytes :: int
  gs_max_texts :: int
  gs_max_text_bytes :: int
  gs_chunk_bytes :: int
  gs_chunk_overlap :: int
  gs_max_inference_time :: duration
  gs_admission :: "int option"

(* src: services/synit-llm-guard/main.go:37-43 DetectResponse *)
record detect_response =
  dp_verdict :: string
  dp_score :: real
  dp_scores :: "real list"
  dp_model :: string
  dp_reason :: string

text \<open>
  \<open>gd_decode\<close> is the JSON decoder on a reader that fails past the limit: the first
  value and whether something other than the end of the input follows it.
\<close>

datatype detect_decoding = DecodeTooLarge | DecodeFailed | DecodeTrailing | Decoded detect_request

record guard_env =
  gd_decode :: "body \<Rightarrow> int \<Rightarrow> detect_decoding"
  gd_encode :: "detect_response \<Rightarrow> string"

type_synonym classify_fn = "duration \<Rightarrow> nat \<Rightarrow> string list \<Rightarrow> infer_error + real list"

(* src: services/synit-llm-guard/main.go:258-267 handleDetect (texts) *)
fun check_texts :: "int \<Rightarrow> int \<Rightarrow> string list \<Rightarrow> (string \<times> int) option" where
  "check_texts limit i [] = None"
| "check_texts limit i (t # ts) =
     (if t = [] then Some (''Detection text must not be empty'', 400)
      else if int (length t) > limit
      then Some (''text too large: text '' @ itoa i @ '' has '' @ itoa (int (length t)) @ '' bytes, the limit is '' @ itoa limit, 413)
      else check_texts limit (i + 1) ts)"

(* src: services/synit-llm-guard/main.go:284-291 handleDetect (owners) *)
fun owned_chunks :: "int \<Rightarrow> int \<Rightarrow> nat \<Rightarrow> string list \<Rightarrow> (nat \<times> string) list" where
  "owned_chunks chunk_bytes overlap i [] = []"
| "owned_chunks chunk_bytes overlap i (t # ts) =
     map (Pair i) (split_chunks t chunk_bytes overlap) @ owned_chunks chunk_bytes overlap (Suc i) ts"

(* src: services/synit-llm-guard/main.go:318-326 handleDetect (batch scores) *)
fun merge_scores :: "(nat \<times> real) list \<Rightarrow> real list \<Rightarrow> real list option" where
  "merge_scores [] scores = Some scores"
| "merge_scores ((owner, score) # rest) scores =
     (if score < 0 \<or> score > 1 then None
      else merge_scores rest (if score > scores ! owner then scores[owner := score] else scores))"

datatype detect_failure = InferenceTimedOut | InferenceFailed | InvalidResult

(* src: services/synit-llm-guard/main.go:302-327 handleDetect (batches) *)
function classify_batches ::
  "(nat \<Rightarrow> string list \<Rightarrow> infer_error + real list) \<Rightarrow> nat \<Rightarrow> nat \<Rightarrow> (nat \<times> string) list \<Rightarrow> real list \<Rightarrow>
   detect_failure + real list" where
  "classify_batches classify k n chunks scores =
     (if chunks = [] \<or> k = 0 then Inr scores
      else case classify n (map snd (take k chunks)) of
             Inl e \<Rightarrow> Inl (if e = DeadlineExceeded then InferenceTimedOut else InferenceFailed)
           | Inr batch \<Rightarrow>
               if length batch \<noteq> length (take k chunks) then Inl InvalidResult
               else case merge_scores (zip (map fst (take k chunks)) batch) scores of
                      None \<Rightarrow> Inl InvalidResult
                    | Some scores \<Rightarrow> classify_batches classify k (Suc n) (drop k chunks) scores)"
  by pat_completeness auto

termination classify_batches
  by (relation "measure (\<lambda>(_, _, _, chunks, _). length chunks)") auto

declare classify_batches.simps [simp del]

(* src: services/synit-llm-guard/main.go:328-333 handleDetect (maximum) *)
definition max_score :: "real list \<Rightarrow> real" where
  "max_score scores = foldl (\<lambda>m score. if score > m then score else m) 0 scores"

(* src: services/synit-llm-guard/main.go:249-349 handleDetect (detection) *)
definition detect_texts ::
  "guard_env \<Rightarrow> classify_fn \<Rightarrow> guard_server \<Rightarrow> int \<Rightarrow> detect_request \<Rightarrow> log_writer \<Rightarrow> log_writer" where
  "detect_texts env classify s used req w =
     (if dr_tenant req = [] \<or> dr_path req = [] \<or> dr_max_latency_ms req < 0 \<or> dr_texts req = []
      then http_error ''Invalid detection request'' 400 w
      else if int (length (dr_texts req)) > gs_max_texts s
      then http_error (''too many texts: '' @ itoa (int (length (dr_texts req))) @ '' exceeds the limit of '' @ itoa (gs_max_texts s)) 400 w
      else case check_texts (gs_max_text_bytes s) 0 (dr_texts req) of
             Some (msg, code) \<Rightarrow> http_error msg code w
           | None \<Rightarrow>
               if (case gs_admission s of Some cap \<Rightarrow> \<not> used < cap | None \<Rightarrow> False)
               then http_error ''Inference capacity exhausted'' 503 (lw_set_header ''Retry-After'' ''1'' w)
               else
                 let timeout = (if dr_max_latency_ms req > 0 \<and> dr_max_latency_ms req < gs_max_inference_time s div millisecond
                                then dr_max_latency_ms req * millisecond else gs_max_inference_time s);
                     chunks = owned_chunks (gs_chunk_bytes s) (gs_chunk_overlap s) 0 (dr_texts req)
                 in case classify_batches (classify timeout) (nat (gs_max_texts s)) 0 chunks
                           (replicate (length (dr_texts req)) 0) of
                      Inl InferenceTimedOut \<Rightarrow> http_error ''Inference timed out'' 504 w
                    | Inl InferenceFailed \<Rightarrow> http_error ''Inference failed'' 503 w
                    | Inl InvalidResult \<Rightarrow> http_error ''Invalid inference result'' 503 w
                    | Inr scores \<Rightarrow>
                        lw_write (gd_encode env
                          \<lparr>dp_verdict = (if max_score scores \<ge> gs_threshold s then ''injection'' else ''safe''),
                           dp_score = max_score scores, dp_scores = scores, dp_model = gs_model_name s,
                           dp_reason = ''text_classification''\<rparr>)
                          (lw_set_header ''Content-Type'' ''application/json'' w))"

text \<open>\<open>used\<close> is the number of requests that hold an admission token when this one asks for its own.\<close>

(* src: services/synit-llm-guard/main.go:211-349 guardServer.handleDetect *)
definition handle_detect ::
  "guard_env \<Rightarrow> classify_fn \<Rightarrow> guard_server \<Rightarrow> int \<Rightarrow> request \<Rightarrow> log_writer \<Rightarrow> log_writer" where
  "handle_detect env classify s used r w =
     (if rq_method r \<noteq> ''POST'' then http_error ''Method not allowed'' 405 (lw_set_header ''Allow'' ''POST'' w)
      else if cut_prefix (header_get (rq_header r) ''Authorization'') ''Bearer '' \<noteq> Some (gs_auth_token s)
      then http_error ''Unauthorized'' 401 w
      else if parse_media_type (header_get (rq_header r) ''Content-Type'') \<noteq> Some ''application/json''
      then http_error ''Content-Type must be application/json'' 415 w
      else if rq_content_length r > gs_max_request_bytes s then http_error ''Request body too large'' 413 w
      else case gd_decode env (rq_body r) (gs_max_request_bytes s) of
             DecodeTooLarge \<Rightarrow> http_error ''Request body too large'' 413 w
           | DecodeFailed \<Rightarrow> http_error ''Bad request'' 400 w
           | DecodeTrailing \<Rightarrow> http_error ''Bad request'' 400 w
           | Decoded req \<Rightarrow> detect_texts env classify s used req w)"

(* src: services/synit-llm-guard/main.go:389-397 guardServer.handleHealth *)
definition handle_health :: "request \<Rightarrow> log_writer \<Rightarrow> log_writer" where
  "handle_health r w =
     (if rq_method r \<noteq> ''GET'' \<and> rq_method r \<noteq> ''HEAD''
      then http_error ''Method not allowed'' 405 (lw_set_header ''Allow'' ''GET, HEAD'' w)
      else lw_write ''ok'' (lw_write_header 200 w))"

subsection \<open>Configuration\<close>

text \<open>Environment variables and the parsers of the standard library for numbers and durations.\<close>

datatype go_float = FNaN | FInf | FReal real

record guard_os =
  os_getenv :: "string \<Rightarrow> string"
  os_parse_float :: "string \<Rightarrow> go_float option"
  os_parse_duration :: "string \<Rightarrow> duration option"

datatype guard_config_error = MissingVariable string | BadValue string | LimitsInvalid | ChunksInvalid

(* src: services/synit-llm-guard/main.go:553-558 envString *)
definition guard_env_string :: "guard_os \<Rightarrow> string \<Rightarrow> string \<Rightarrow> string" where
  "guard_env_string os name fallback =
     (let v = trim_space (os_getenv os name) in if v \<noteq> [] then v else fallback)"

(* src: services/synit-llm-guard/main.go:560-570 envInt64 *)
definition guard_env_int64 :: "guard_os \<Rightarrow> string \<Rightarrow> int \<Rightarrow> guard_config_error + int" where
  "guard_env_int64 os name fallback =
     (let v = trim_space (os_getenv os name)
      in if v = [] then Inr fallback else case parse_int64 v of None \<Rightarrow> Inl (BadValue name) | Some n \<Rightarrow> Inr n)"

(* src: services/synit-llm-guard/main.go:572-582 envFloat *)
definition guard_env_float :: "guard_os \<Rightarrow> string \<Rightarrow> go_float \<Rightarrow> guard_config_error + go_float" where
  "guard_env_float os name fallback =
     (let v = trim_space (os_getenv os name)
      in if v = [] then Inr fallback else case os_parse_float os v of None \<Rightarrow> Inl (BadValue name) | Some x \<Rightarrow> Inr x)"

(* src: services/synit-llm-guard/main.go:584-594 envDuration *)
definition guard_env_duration :: "guard_os \<Rightarrow> string \<Rightarrow> duration \<Rightarrow> guard_config_error + duration" where
  "guard_env_duration os name fallback =
     (let v = trim_space (os_getenv os name)
      in if v = [] then Inr fallback else case os_parse_duration os v of None \<Rightarrow> Inl (BadValue name) | Some d \<Rightarrow> Inr d)"

(* src: services/synit-llm-guard/main.go:452-468 loadConfig (limits) *)
fun guard_env_ints :: "guard_os \<Rightarrow> (string \<times> int) list \<Rightarrow> guard_config_error + int list" where
  "guard_env_ints os [] = Inr []"
| "guard_env_ints os ((name, fallback) # rest) =
     (case guard_env_int64 os name fallback of
        Inl e \<Rightarrow> Inl e
      | Inr v \<Rightarrow> (case guard_env_ints os rest of Inl e \<Rightarrow> Inl e | Inr vs \<Rightarrow> Inr (v # vs)))"

text \<open>The server that \<open>run\<close> builds from the configuration is its field \<open>gc_server\<close>.\<close>

(* src: services/synit-llm-guard/main.go:406-421 guardConfig *)
record guard_config =
  gc_model_path :: string
  gc_port :: string
  gc_injection_labels :: "string list"
  gc_safe_labels :: "string list"
  gc_server :: guard_server
  gc_max_concurrent_requests :: int

(* src: services/synit-llm-guard/main.go:423-476 loadConfig *)
definition guard_load_config :: "guard_os \<Rightarrow> guard_config_error + guard_config" where
  "guard_load_config os =
     (let model_path = trim_space (os_getenv os ''MODEL_PATH'');
          model_name = trim_space (os_getenv os ''MODEL_NAME'');
          auth_token = trim_space (os_getenv os ''AUTH_TOKEN'')
      in if model_path = [] then Inl (MissingVariable ''MODEL_PATH'')
         else if auth_token = [] then Inl (MissingVariable ''AUTH_TOKEN'')
         else case guard_env_float os ''INJECTION_THRESHOLD'' (FReal (1 / 2)) of Inl e \<Rightarrow> Inl e | Inr threshold \<Rightarrow>
         (case guard_env_int64 os ''MAX_REQUEST_BYTES'' 1048576 of Inl e \<Rightarrow> Inl e | Inr max_request_bytes \<Rightarrow>
         (case guard_env_duration os ''MAX_INFERENCE_TIMEOUT'' (10 * second) of Inl e \<Rightarrow> Inl e | Inr max_inference_time \<Rightarrow>
         (case guard_env_ints os [(''MAX_TEXTS'', 32), (''MAX_TEXT_BYTES'', 8192), (''CHUNK_BYTES'', 510),
                (''CHUNK_OVERLAP_BYTES'', 64), (''MAX_CONCURRENT_REQUESTS'', 8)] of
            Inl e \<Rightarrow> Inl e
          | Inr [max_texts, max_text_bytes, chunk_bytes, chunk_overlap, max_concurrent] \<Rightarrow>
              (case threshold of
                 FReal th \<Rightarrow>
                   if th \<le> 0 \<or> th \<ge> 1 \<or> max_request_bytes \<le> 0 \<or> max_texts \<le> 0 \<or> max_text_bytes \<le> 0 \<or>
                      max_inference_time \<le> 0 \<or> max_concurrent \<le> 0 then Inl LimitsInvalid
                   else if chunk_bytes \<le> 0 \<or> chunk_overlap \<le> 0 \<or> chunk_overlap \<ge> chunk_bytes then Inl ChunksInvalid
                   else Inr \<lparr>gc_model_path = model_path, gc_port = guard_env_string os ''PORT'' ''5001'',
                             gc_injection_labels =
                               parse_label_set (guard_env_string os ''INJECTION_LABELS'' ''INJECTION,LABEL_1,MALICIOUS''),
                             gc_safe_labels = parse_label_set (guard_env_string os ''SAFE_LABELS'' ''SAFE,LABEL_0,BENIGN''),
                             gc_server =
                               \<lparr>gs_model_name = (if model_name = [] then filepath_base model_path else model_name),
                                gs_auth_token = auth_token, gs_threshold = th, gs_max_request_bytes = max_request_bytes,
                                gs_max_texts = max_texts, gs_max_text_bytes = max_text_bytes, gs_chunk_bytes = chunk_bytes,
                                gs_chunk_overlap = chunk_overlap, gs_max_inference_time = max_inference_time,
                                gs_admission = Some max_concurrent\<rparr>,
                             gc_max_concurrent_requests = max_concurrent\<rparr>
               | _ \<Rightarrow> Inl LimitsInvalid)
          | Inr _ \<Rightarrow> Inl LimitsInvalid))))"

subsection \<open>Lemmas: chunks\<close>

lemma rune_boundary_loop_near:
  "i \<le> index \<Longrightarrow> rune_boundary_loop t index i n = index \<or> i < rune_boundary_loop t index i n + n"
  by (induction t index i n rule: rune_boundary_loop.induct) auto

lemma rune_boundary_near: "index \<le> rune_boundary t index + 3"
  using rune_boundary_loop_near [of index index t 4] by (auto simp: rune_boundary_def)

definition guard_end :: "nat \<Rightarrow> string \<Rightarrow> nat \<Rightarrow> nat" where
  "guard_end k t s = (if s + k < length t then guard_cut k t s else length t)"

lemma guard_end_law:
  "\<lbrakk> 0 < k; s < length t \<rbrakk> \<Longrightarrow> s < guard_end k t s \<and> guard_end k t s \<le> length t \<and> guard_end k t s \<le> s + k"
  using guard_cut_bounds [of k s t] by (auto simp: guard_end_def)

lemma guard_chunks_law:
  assumes "0 < k" "s < length t"
  shows "Some (guard_chunks k ov t s) =
    (if guard_end k t s = length t then Some [slice t s (guard_end k t s)]
     else map_option ((#) (slice t s (guard_end k t s))) (Some (guard_chunks k ov t (guard_next k ov t s))))"
proof (cases "s + k < length t")
  case True
  then have "guard_end k t s \<noteq> length t" using guard_cut_bounds [OF assms(1), of s t] by (simp add: guard_end_def)
  then show ?thesis using True assms(1) by (subst guard_chunks.simps) (simp add: guard_end_def)
next
  case False
  then show ?thesis using assms by (subst guard_chunks.simps) (simp add: guard_end_def slice_def)
qed

lemma guard_end_cut: "guard_end k t s < length t \<Longrightarrow> guard_end k t s = guard_cut k t s"
  by (auto simp: guard_end_def split: if_splits)

lemma guard_next_law:
  "\<lbrakk> 0 < k; s < length t; guard_end k t s < length t \<rbrakk> \<Longrightarrow> s < guard_next k ov t s \<and> guard_next k ov t s \<le> guard_end k t s"
  using guard_next_progress [of k s t ov] guard_end_cut [of k t s] by simp

interpretation guard_bytes: chunker "\<lambda>_. 0 < k" "guard_end k" "guard_next k ov" "\<lambda>t s. Some (guard_chunks k ov t s)" k 0
  for k ov
  by unfold_locales (simp_all add: guard_end_law guard_chunks_law guard_next_law)

lemma guard_next_overlap:
  assumes "ov + 7 \<le> k" "s < length t"
  shows "guard_next k ov t s + ov \<le> guard_cut k t s"
proof -
  let ?e = "guard_cut k t s"
  have "s + k \<le> ?e + 3" using rune_boundary_near [of "s + k" t] by (auto simp: guard_cut_def Let_def)
  moreover have "?e - ov \<le> rune_boundary t (?e - ov) + 3" by (rule rune_boundary_near)
  ultimately have "s < rune_boundary t (?e - ov)" "ov \<le> ?e" using assms(1) by linarith+
  then show ?thesis using rune_boundary_le [of t "?e - ov"] by (simp add: guard_next_def Let_def)
qed

interpretation guard_overlap: chunker "\<lambda>_. ov + 7 \<le> k" "guard_end k" "guard_next k ov" "\<lambda>t s. Some (guard_chunks k ov t s)" k ov
  for k ov
proof unfold_locales
  fix t :: string and s :: nat
  assume k: "ov + 7 \<le> k" and s: "s < length t"
  then show "s < guard_end k t s \<and> guard_end k t s \<le> length t \<and> guard_end k t s \<le> s + k" by (simp add: guard_end_law)
  show "Some (guard_chunks k ov t s) =
    (if guard_end k t s = length t then Some [slice t s (guard_end k t s)]
     else map_option ((#) (slice t s (guard_end k t s))) (Some (guard_chunks k ov t (guard_next k ov t s))))"
    using k s by (intro guard_chunks_law) simp_all
  assume "guard_end k t s < length t"
  then show "s < guard_next k ov t s \<and> guard_next k ov t s + ov \<le> guard_end k t s"
    using guard_next_law [of k s t ov] guard_next_overlap [OF k s] guard_end_cut [of k t s] k s by simp
qed

lemma split_chunks_nonempty: "split_chunks t cb ov \<noteq> []"
  by (auto simp: split_chunks_def guard_chunks.simps [of _ _ _ 0])

subsection \<open>Lemmas: scores\<close>

definition raise_score :: "nat \<times> real \<Rightarrow> real list \<Rightarrow> real list" where
  "raise_score p xs = (if snd p > xs ! fst p then xs[fst p := snd p] else xs)"

lemma merge_scores_fold:
  "\<forall>p \<in> set ps. 0 \<le> snd p \<and> snd p \<le> 1 \<Longrightarrow> merge_scores ps xs = Some (fold raise_score ps xs)"
  by (induction ps xs rule: merge_scores.induct) (auto simp: raise_score_def)

text \<open>A classifier that scores each text on its own: the batches do not matter.\<close>

lemma classify_batches_pointwise:
  assumes c: "\<forall>n ts. classify n ts = Inr (map f ts)" and f: "\<forall>t. 0 \<le> f t \<and> f t \<le> 1" and k: "0 < k"
  shows "classify_batches classify k n chunks xs = Inr (fold raise_score (map (map_prod (\<lambda>i. i) f) chunks) xs)"
proof (induction "length chunks" arbitrary: n chunks xs rule: less_induct)
  case less
  show ?case
  proof (cases "chunks = []")
    case True
    then show ?thesis by (simp add: classify_batches.simps)
  next
    case False
    let ?b = "take k chunks"
    have z: "zip (map fst ?b) (map f (map snd ?b)) = map (map_prod (\<lambda>i. i) f) ?b"
      by (induction ?b) (auto simp: zip_map_map zip_same_conv_map map_prod_def case_prod_beta)
    have m: "merge_scores (map (map_prod (\<lambda>i. i) f) ?b) xs = Some (fold raise_score (map (map_prod (\<lambda>i. i) f) ?b) xs)"
      using f by (intro merge_scores_fold) auto
    have "length (drop k chunks) < length chunks" using False k by simp
    note IH = less [OF this]
    have "map (map_prod (\<lambda>i. i) f) chunks = map (map_prod (\<lambda>i. i) f) ?b @ map (map_prod (\<lambda>i. i) f) (drop k chunks)"
      by (metis append_take_drop_id map_append)
    then show ?thesis
      using False k IH m z by (subst classify_batches.simps) (simp add: c fold_append)
  qed
qed

lemma raise_score_block:
  "i < length xs \<Longrightarrow> fold raise_score (map (\<lambda>c. (i, f c)) cs) xs = xs[i := fold max (map f cs) (xs ! i)]"
  by (induction cs arbitrary: xs) (auto simp: raise_score_def max_def)

lemma owned_chunks_scores:
  assumes "length pre = i"
  shows "fold raise_score (map (map_prod (\<lambda>i. i) f) (owned_chunks cb ov i ts)) (pre @ replicate (length ts) 0) =
    pre @ map (\<lambda>t. fold max (map f (split_chunks t cb ov)) 0) ts"
  using assms
proof (induction ts arbitrary: i pre)
  case Nil
  then show ?case by simp
next
  case (Cons t ts)
  let ?m = "fold max (map f (split_chunks t cb ov)) 0"
  have "map (map_prod (\<lambda>i. i) f) (map (Pair i) (split_chunks t cb ov)) = map (\<lambda>c. (i, f c)) (split_chunks t cb ov)" by simp
  then have "fold raise_score (map (map_prod (\<lambda>i. i) f) (map (Pair i) (split_chunks t cb ov))) (pre @ 0 # replicate (length ts) 0) =
      (pre @ [?m]) @ replicate (length ts) 0"
    using raise_score_block [of i "pre @ 0 # replicate (length ts) 0" f "split_chunks t cb ov"] Cons.prems
    by (simp add: nth_append list_update_append o_def)
  then show ?case using Cons.IH [of "pre @ [?m]" "Suc i"] Cons.prems by (simp add: fold_append o_def)
qed

lemma fold_max_Max: "(\<forall>x \<in> set xs. a \<le> x) \<Longrightarrow> xs \<noteq> [] \<Longrightarrow> fold max xs a = Max (set xs)" for a :: real
proof -
  assume a: "\<forall>x \<in> set xs. a \<le> x" "xs \<noteq> []"
  then have "Max (set xs) \<in> set xs" by simp
  then have "a \<le> Max (set xs)" using a by blast
  then show ?thesis using a Max.set_eq_fold [of a xs] by simp
qed

subsection \<open>Lemmas: the slot\<close>

text \<open>The tokens in the channel are those of the inferences that have not freed theirs and of \<open>Close\<close>.\<close>

definition slot_inv :: "slot_sys \<Rightarrow> bool" where
  "slot_inv s \<longleftrightarrow> sl_used s \<le> 1 \<and> finite (sl_running s) \<and> finite (sl_finished s) \<and> sl_running s \<inter> sl_finished s = {} \<and>
     (\<forall>i \<in> sl_running s \<union> sl_finished s. i < sl_next s) \<and>
     sl_used s = card (sl_running s) + card (sl_finished s) + (if sl_close s = CloseHolding \<or> sl_close s = Destroyed then 1 else 0)"

lemma slot_inv_step:
  assumes "slot_inv s" "slot_step s t"
  shows "slot_inv t"
  using assms(2,1)
proof (induction rule: slot_step.induct)
  case (classify_start s g)
  then have "sl_next s \<notin> sl_running s" "sl_next s \<notin> sl_finished s" by (auto simp: slot_inv_def)
  then show ?case using classify_start by (auto simp: slot_inv_def)
next
  case (infer_end i s)
  then have "i \<notin> sl_finished s" "0 < card (sl_running s)" by (auto simp: slot_inv_def card_gt_0_iff)
  then show ?case using infer_end by (auto simp: slot_inv_def card_Diff_singleton)
next
  case (infer_release i s)
  let ?x = "if sl_close s = CloseHolding \<or> sl_close s = Destroyed then 1 else 0 :: nat"
  have f: "0 < card (sl_finished s)" using infer_release by (auto simp: slot_inv_def card_gt_0_iff)
  have u: "sl_used s \<le> 1" "sl_used s = card (sl_running s) + card (sl_finished s) + ?x" "finite (sl_running s)" "finite (sl_finished s)"
    using infer_release unfolding slot_inv_def by blast+
  then have z: "card (sl_running s) = 0" "card (sl_finished s) = 1" "?x = 0" "sl_used s = 1" using f by linarith+
  then have "sl_running s = {}" using u(3) by simp
  moreover have "sl_finished s = {i}" using z(2) infer_release.hyps by (auto simp: card_1_singleton_iff)
  moreover have "\<not> (sl_close s = CloseHolding \<or> sl_close s = Destroyed)" using z(3) by (auto split: if_splits)
  ultimately show ?case using z(4) by (simp add: slot_inv_def)
qed (auto simp: slot_inv_def)

interpretation slot: transition_system slot_init slot_step slot_inv
  by unfold_locales (simp add: slot_init_def slot_inv_def, rule slot_inv_step)

subsection \<open>Properties\<close>

text \<open>C26: the sidecar's splitting always ends, for every text and overlap.  No chunk is larger than the limit and
  every byte of the text is in some chunk; with an overlap at least 7 bytes below the chunk size, every part of
  the text up to the overlap plus one byte lies inside one chunk.\<close>

theorem split_chunks_covers:
  assumes "0 < chunk_bytes" "0 < overlap_bytes"
  shows "(\<forall>c \<in> set (split_chunks t chunk_bytes overlap_bytes). int (length c) \<le> chunk_bytes) \<and>
    (\<forall>i < length t. \<exists>c \<in> set (split_chunks t chunk_bytes overlap_bytes). \<exists>u v. c = u @ [t ! i] @ v) \<and>
    (overlap_bytes + 7 \<le> chunk_bytes \<longrightarrow> (\<forall>i l. i + l \<le> length t \<and> int l \<le> overlap_bytes + 1 \<longrightarrow>
       (\<exists>c \<in> set (split_chunks t chunk_bytes overlap_bytes). \<exists>u v. c = u @ take l (drop i t) @ v)))"
proof (cases "int (length t) \<le> chunk_bytes")
  case True
  have "\<exists>u v. t = u @ take l (drop i t) @ v" if "i + l \<le> length t" for i l
    using slice_inside [of 0 i l "length t" t] that by simp
  moreover have "\<exists>u v. t = u @ [t ! i] @ v" if "i < length t" for i
    using id_take_nth_drop [OF that] by auto
  ultimately show ?thesis using True by (simp add: split_chunks_def)
next
  case False
  let ?k = "nat chunk_bytes" and ?o = "nat overlap_bytes"
  let ?cs = "guard_chunks ?k ?o t 0"
  have cs: "split_chunks t chunk_bytes overlap_bytes = ?cs" using False assms by (simp add: split_chunks_def)
  have "0 < ?k" "0 < length t" using assms False by auto
  from guard_bytes.chunks_cover [OF this, of ?o]
  have b: "\<forall>c \<in> set ?cs. length c \<le> ?k"
    "\<And>i l. \<lbrakk> i + l \<le> length t; l \<le> Suc 0 \<rbrakk> \<Longrightarrow> \<exists>c \<in> set ?cs. \<exists>u v. c = u @ take l (drop i t) @ v" by auto
  have byte: "\<exists>c \<in> set ?cs. \<exists>u v. c = u @ [t ! i] @ v" if "i < length t" for i
    using b(2) [of i 1] that by (simp add: take_Suc hd_drop_conv_nth)
  have ov: "\<exists>c \<in> set ?cs. \<exists>u v. c = u @ take l (drop i t) @ v"
    if "overlap_bytes + 7 \<le> chunk_bytes" "i + l \<le> length t" "int l \<le> overlap_bytes + 1" for i l
  proof -
    have h: "?o + 7 \<le> ?k" and l: "l \<le> Suc ?o" using that assms by auto
    from guard_overlap.chunks_cover [OF h \<open>0 < length t\<close>] show ?thesis using l that(2) by auto
  qed
  have "int (length c) \<le> chunk_bytes" if "c \<in> set ?cs" for c using b(1) that assms(1) by fastforce
  then show ?thesis unfolding cs using byte ov by blast
qed

theorem split_chunks_covers_witness:
  "split_chunks ''ignore all previous'' 12 4 = [''ignore all p'', ''ll previous''] \<and>
   (\<exists>c \<in> set (split_chunks ''ignore all previous'' 12 4). \<exists>u v. c = u @ ''all p'' @ v)"
proof -
  have v: "split_chunks ''ignore all previous'' 12 4 = [''ignore all p'', ''ll previous'']"
    "take 5 (drop 7 ''ignore all previous'') = ''all p''" "7 + 5 \<le> length ''ignore all previous''" by code_simp+
  have "\<exists>c \<in> set (split_chunks ''ignore all previous'' 12 4). \<exists>u v. c = u @ take 5 (drop 7 ''ignore all previous'') @ v"
    by (rule split_chunks_covers [THEN conjunct2, THEN conjunct2, rule_format]) (use v(3) in simp_all)
  then show ?thesis using v by simp
qed

text \<open>C27: when the model scores each text on its own, the scores of a request are, for every number of texts and every
  batch size, the highest scores of the chunks of each text.\<close>

theorem detect_scores_chunk_maximum:
  assumes "\<forall>n ts. classify n ts = Inr (map f ts)" "\<forall>t. 0 \<le> f t \<and> f t \<le> 1" "0 < k"
  shows "classify_batches classify k 0 (owned_chunks chunk_bytes overlap_bytes 0 texts) (replicate (length texts) 0) =
    Inr (map (\<lambda>t. Max (f ` set (split_chunks t chunk_bytes overlap_bytes))) texts)"
proof -
  have "fold max (map f (split_chunks t chunk_bytes overlap_bytes)) 0 = Max (f ` set (split_chunks t chunk_bytes overlap_bytes))" for t
    using fold_max_Max [of "map f (split_chunks t chunk_bytes overlap_bytes)" 0] split_chunks_nonempty assms(2) by simp
  then show ?thesis
    using classify_batches_pointwise [OF assms] owned_chunks_scores [of "[]" 0 f chunk_bytes overlap_bytes texts] by simp
qed

theorem detect_scores_chunk_maximum_witness:
  "classify_batches (\<lambda>_ ts. Inr (map (\<lambda>t. if t = ''ll previous'' then 1 else 0) ts)) 1 0
     (owned_chunks 12 4 0 [''ignore all previous'', ''hi'']) (replicate 2 0) = Inr [1, 0]"
proof -
  have v: "split_chunks ''ignore all previous'' 12 4 = [''ignore all p'', ''ll previous'']" "split_chunks ''hi'' 12 4 = [''hi'']"
    by code_simp+
  show ?thesis
    using detect_scores_chunk_maximum [of "\<lambda>_ ts. Inr (map (\<lambda>t. if t = ''ll previous'' then 1 else 0) ts)"
      "\<lambda>t. if t = ''ll previous'' then 1 else 0" 1 12 4 "[''ignore all previous'', ''hi'']"] v by (simp add: numeral_2_eq_2)
qed

text \<open>C28: at most one inference uses the model session at any time, whichever callers have timed out meanwhile, and
  none runs once \<open>Close\<close> has the slot, so the session is never destroyed under a running inference.\<close>

theorem inference_exclusive:
  assumes "reachable slot_init slot_step s"
  shows "card (sl_running s) \<le> 1 \<and> finite (sl_running s) \<and>
    (sl_close s = CloseHolding \<or> sl_close s = Destroyed \<longrightarrow> sl_running s = {})"
  using slot.reachable_inv [OF assms] by (auto simp: slot_inv_def split: if_splits)

definition idle_slot :: slot_sys where
  "idle_slot = \<lparr>sl_used = 0, sl_pc = (\<lambda>_. Idle), sl_running = {}, sl_finished = {}, sl_next = 0, sl_close = CloseWaiting\<rparr>"

theorem inference_exclusive_witness:
  "\<exists>s. reachable slot_init slot_step s \<and> sl_running s = {0} \<and> sl_pc s 0 = Idle \<and> card (sl_running s) \<le> 1"
proof -
  let ?a = "idle_slot\<lparr>sl_pc := (\<lambda>_. Idle)(0 := Queued)\<rparr>"
  let ?b = "?a\<lparr>sl_used := 1, sl_pc := (sl_pc ?a)(0 := Awaiting 0), sl_running := {0}, sl_next := 1\<rparr>"
  let ?c = "?b\<lparr>sl_pc := (sl_pc ?b)(0 := Idle)\<rparr>"
  have "slot_init idle_slot" by (simp add: slot_init_def idle_slot_def)
  moreover have "slot_step idle_slot ?a" using classify_call [of idle_slot 0] by (simp add: idle_slot_def)
  moreover have "slot_step ?a ?b" using classify_start [of ?a 0] by (simp add: idle_slot_def)
  moreover have "slot_step ?b ?c" using classify_cancel [of ?b 0 0] by simp
  ultimately have r: "reachable slot_init slot_step ?c" by (meson reachable.intros)
  show ?thesis using r inference_exclusive [OF r] by (intro exI [of _ ?c]) simp
qed

subsection \<open>Accepted configurations\<close>

lemma guard_load_config_valid:
  "guard_load_config os = Inr cfg \<Longrightarrow>
   gs_auth_token (gc_server cfg) \<noteq> [] \<and> 0 < gs_threshold (gc_server cfg) \<and> gs_threshold (gc_server cfg) < 1 \<and>
   0 < gs_max_texts (gc_server cfg) \<and> 0 < gs_max_text_bytes (gc_server cfg) \<and> 0 < gs_max_inference_time (gc_server cfg) \<and>
   0 < gs_chunk_overlap (gc_server cfg) \<and> gs_chunk_overlap (gc_server cfg) < gs_chunk_bytes (gc_server cfg) \<and>
   (\<exists>n > 0. gs_admission (gc_server cfg) = Some n)"
  by (auto simp: guard_load_config_def Let_def split: if_splits sum.splits list.splits go_float.splits)

end
