(* ===== verification/Inspect.thy ===== *)
theory Inspect
  imports RequestInfo RateLimit GoEncoding
begin

text \<open>
  The per-request controls of \<open>internal/waf/middleware.go\<close> and
  \<open>middleware_serve.go\<close> other than rate limits, JWT, GraphQL and LLM: the Coraza
  transaction, basic authentication, CrowdSec, the country lookup and the
  development bypass.

  Parameters: Coraza (the record \<open>coraza_waf\<close>, functions of the events of a
  transaction), bcrypt, HMAC, the CrowdSec API, the country database and the
  LRU caches.
\<close>

subsection \<open>Disruptive rules\<close>

text \<open>\<open>quotedRuleValuePattern.ReplaceAllString(raw, "")\<close>: quoted values are removed, a lone quote stays.\<close>

(* src: internal/waf/middleware.go:1192 quotedRuleValuePattern *)
function strip_quoted :: "string \<Rightarrow> string" where
  "strip_quoted [] = []"
| "strip_quoted (c # s) =
     (if c = CHR 0x27 \<and> CHR 0x27 \<in> set s
      then strip_quoted (drop 1 (dropWhile (\<lambda>x. x \<noteq> CHR 0x27) s))
      else c # strip_quoted s)"
  by pat_completeness auto

termination strip_quoted
  by (relation "measure length") (auto intro: le_imp_less_Suc le_trans [OF diff_le_self length_dropWhile_le])

definition rule_space :: "char \<Rightarrow> bool" where
  "rule_space c = (c \<in> {CHR 0x09, CHR 0x0A, CHR 0x0C, CHR 0x0D, CHR 0x20})"

definition starts_action :: "string \<Rightarrow> bool" where
  "starts_action s =
     list_ex (\<lambda>a. has_prefix s a \<and>
                  (case drop (length a) s of
                     [] \<Rightarrow> True
                   | c # _ \<Rightarrow> c = CHR '','' \<or> c = CHR '':'' \<or> c = CHR 0x22 \<or> rule_space c))
       [''deny'', ''drop'', ''redirect'']"

text \<open>\<open>boundary\<close> tells whether an action may start here: at the front or after a separator.\<close>

(* src: internal/waf/middleware.go:1193 disruptiveActionPattern *)
fun match_action :: "bool \<Rightarrow> string \<Rightarrow> bool" where
  "match_action boundary [] = False"
| "match_action boundary (c # s) =
     (boundary \<and> starts_action (c # s) \<or> match_action (c = CHR '','' \<or> c = CHR 0x22 \<or> rule_space c) s)"

(* src: internal/waf/middleware.go:1199-1205 wouldDisrupt *)
definition would_disrupt :: "matched_rule \<Rightarrow> bool" where
  "would_disrupt rule = (mr_disruptive rule \<or> match_action True (strip_quoted (mr_raw rule)))"

subsection \<open>The Coraza transaction\<close>

(* src: internal/waf/middleware.go:73-77 wafTransactionMeta *)
record waf_transaction_meta =
  tm_tenant :: string
  tm_host :: string
  tm_audit :: bool

text \<open>The running transactions and the counters that the WAF stage writes.\<close>

record waf_state =
  wf_active :: "(string \<times> waf_transaction_meta) list"
  wf_blocked :: blocked_counter
  wf_audit :: "(string \<times> int) list"
  wf_rule_matches :: "((string \<times> string) \<times> int) list"

(* src: internal/waf/middleware.go:1209-1229 ProxyHandler.logMatchedRule *)
definition log_matched_rule :: "string \<Rightarrow> matched_rule \<Rightarrow> waf_state \<Rightarrow> waf_state" where
  "log_matched_rule tx_id rule st =
     (let tenant = (case map_of (wf_active st) tx_id of Some meta \<Rightarrow> tm_tenant meta | None \<Rightarrow> ''unmatched'')
      in st\<lparr>wf_rule_matches := counter_inc (tenant, itoa (mr_id rule)) (wf_rule_matches st)\<rparr>)"

(* src: internal/waf/middleware.go:1326-1341 ProxyHandler.recordAuditDetection *)
definition record_audit_detection :: "matched_rule list \<Rightarrow> string \<Rightarrow> waf_state \<Rightarrow> waf_state" where
  "record_audit_detection rules tenant st =
     (if list_ex would_disrupt rules then st\<lparr>wf_audit := counter_inc tenant (wf_audit st)\<rparr> else st)"

text \<open>\<open>html.EscapeString\<close>.\<close>

definition html_escape :: "string \<Rightarrow> string" where
  "html_escape s =
     concat (map (\<lambda>c. if c = CHR ''&'' then ''&amp;'' else if c = CHR 0x27 then ''&#39;'' else if c = CHR ''<'' then ''&lt;''
                      else if c = CHR ''>'' then ''&gt;'' else if c = CHR 0x22 then ''&#34;'' else [c]) s)"

text \<open>\<open>http.Redirect\<close> with status 302 to an absolute ASCII URL; a GET gets a short HTML body.\<close>

definition redirect_found :: "string \<Rightarrow> string \<Rightarrow> log_writer \<Rightarrow> log_writer" where
  "redirect_found req_method url w =
     (let had_ct = (map_of (w_header (lw_inner w)) ''Content-Type'' \<noteq> None);
          w = lw_set_header ''Location'' url w;
          w = (if \<not> had_ct \<and> (req_method = ''GET'' \<or> req_method = ''HEAD'')
               then lw_set_header ''Content-Type'' ''text/html; charset=utf-8'' w else w);
          w = lw_write_header 302 w
      in if \<not> had_ct \<and> req_method = ''GET''
         then lw_write (''<a href='' @ [CHR 0x22] @ html_escape url @ [CHR 0x22] @ ''>Found</a>.'' @ [CHR 0x0A, CHR 0x0A]) w
         else w)"

text \<open>The answer to a blocked request; \<open>phase\<close> and the rule only appear in the log.\<close>

(* src: internal/waf/middleware.go:1362-1407 ProxyHandler.blockRequest *)
definition block_request :: "registry \<Rightarrow> string \<Rightarrow> request \<Rightarrow> log_writer \<Rightarrow> waf_state \<Rightarrow> log_writer \<times> waf_state" where
  "block_request reg tx_id r w st =
     (let (entry, domain) = (case tenant_for reg r of Some (e, d) \<Rightarrow> (e, d) | None \<Rightarrow> (zero_entry, ''unmatched''));
          st = st\<lparr>wf_blocked := counter_inc (''waf'', domain) (wf_blocked st)\<rparr>;
          url = sp_block_page_url (tn_security (en_tenant entry))
      in if url \<noteq> [] then (redirect_found (rq_method r) url w, st)
         else if en_block_page entry \<noteq> [] then
           let page = replace_all (en_block_page entry) ''{{EVENT_ID}}'' (html_escape tx_id);
               page = replace_all page ''{{HOST}}'' (html_escape (rq_host r))
           in (lw_write page (lw_write_header 403 (lw_set_header ''Content-Type'' ''text/html; charset=utf-8'' w)), st)
         else (json_answer (''{'' @ [CHR 0x22] @ ''error'' @ [CHR 0x22] @ '': '' @ [CHR 0x22] @ ''Forbidden by security policy'' @
                 [CHR 0x22] @ '', '' @ [CHR 0x22] @ ''event_id'' @ [CHR 0x22] @ '': '' @ [CHR 0x22] @ tx_id @ [CHR 0x22] @ ''}'') 403 w, st))"

text \<open>The headers that a transaction is given, in the order of the map.\<close>

(* src: internal/waf/middleware.go:1266-1271 applyWAF (headers) *)
definition header_events :: "request \<Rightarrow> tx_event list" where
  "header_events r =
     TxHeader ''Host'' (rq_host r) # concat (map (\<lambda>(k, vs). map (TxHeader k) vs) (rq_header r))"

text \<open>The phases; the result has the events so far, for the deferred audit record.\<close>

(* src: internal/waf/middleware.go:1311-1321 applyWAF (phase 2) *)
definition waf_phase_two ::
  "registry \<Rightarrow> coraza_waf \<Rightarrow> string \<Rightarrow> tx_event list \<Rightarrow> request \<Rightarrow> log_writer \<Rightarrow> waf_state \<Rightarrow>
   bool \<times> tx_event list \<times> log_writer \<times> request \<times> waf_state" where
  "waf_phase_two reg waf tx_id ev r w st =
     (let ev = ev @ [TxRequestBody]
      in if waf_body_error waf ev then (True, ev, http_error ''Request body security inspection failed'' 500 w, r, st)
         else if waf_interrupted waf ev then let (w, st) = block_request reg tx_id r w st in (True, ev, w, r, st)
         else (False, ev, w, r, st))"

(* src: internal/waf/middleware.go:1278-1306 applyWAF (request body) *)
definition waf_body ::
  "registry \<Rightarrow> int \<Rightarrow> coraza_waf \<Rightarrow> string \<Rightarrow> string \<Rightarrow> tx_event list \<Rightarrow> request \<Rightarrow> log_writer \<Rightarrow> waf_state \<Rightarrow>
   bool \<times> tx_event list \<times> log_writer \<times> request \<times> waf_state" where
  "waf_body reg request_body_limit waf tx_id tenant ev r w st =
     (if rq_body r \<noteq> NilBody \<and> rq_content_length r \<noteq> 0 then
        if has_unsupported_content_encoding r
        then (True, ev, http_error ''Compressed request bodies cannot be inspected'' 415 w, r,
              st\<lparr>wf_blocked := counter_inc (''request_content_encoding'', tenant) (wf_blocked st)\<rparr>)
        else
          let limit = (if request_body_limit \<le> 0 then default_request_body_cap else request_body_limit)
          in case inspection_body r limit of
               (Inl InspectionBodyTooLarge, r) \<Rightarrow>
                 (True, ev, http_error ''Request body exceeds inspection limit'' 413 w, r,
                  st\<lparr>wf_blocked := counter_inc (''request_body_oversize'', tenant) (wf_blocked st)\<rparr>)
             | (Inl BodyReadError, r) \<Rightarrow> (True, ev, http_error ''Internal Server Error'' 500 w, r, st)
             | (Inr b, r) \<Rightarrow>
                 let ev = ev @ [TxWriteBody b]
                 in if waf_write_error waf ev then (True, ev, http_error ''Internal Server Error'' 500 w, r, st)
                    else waf_phase_two reg waf tx_id ev r w st
      else waf_phase_two reg waf tx_id ev r w st)"

(* src: internal/waf/middleware.go:1251-1321 applyWAF (phases) *)
definition waf_phases ::
  "registry \<Rightarrow> int \<Rightarrow> coraza_waf \<Rightarrow> string \<Rightarrow> string \<Rightarrow> string \<Rightarrow> request \<Rightarrow> log_writer \<Rightarrow> waf_state \<Rightarrow>
   bool \<times> tx_event list \<times> log_writer \<times> request \<times> waf_state" where
  "waf_phases reg request_body_limit waf tx_id tenant client_ip r w st =
     (let block = (\<lambda>ev. let (w, st) = block_request reg tx_id r w st in (True, ev, w, r, st));
          ev1 = [TxConnection client_ip];
          ev2 = ev1 @ [TxUri (rq_url r) (rq_method r) (rq_proto r)];
          ev3 = ev2 @ header_events r @ [TxRequestHeaders]
      in if waf_interrupted waf ev1 then block ev1
         else if waf_interrupted waf ev2 then block ev2
         else if waf_interrupted waf ev3 then block ev3
         else waf_body reg request_body_limit waf tx_id tenant ev3 r w st)"

text \<open>The first result is true when the request was answered.\<close>

(* src: internal/waf/middleware.go:1233-1322 ProxyHandler.applyWAF *)
definition apply_waf ::
  "registry \<Rightarrow> int \<Rightarrow> (request \<Rightarrow> string) \<Rightarrow> string \<Rightarrow> coraza_waf \<Rightarrow> request \<Rightarrow> log_writer \<Rightarrow> waf_state \<Rightarrow>
   bool \<times> log_writer \<times> request \<times> waf_state" where
  "apply_waf reg request_body_limit client_ip_of tx_id waf r w st =
     (let (tenant, audit_mode) =
            (case tenant_for reg r of
               Some (e, d) \<Rightarrow> (d, sp_audit_mode (tn_security (en_tenant e)))
             | None \<Rightarrow> (''unmatched'', False));
          st = st\<lparr>wf_active := assoc_put tx_id \<lparr>tm_tenant = tenant, tm_host = rq_host r, tm_audit = audit_mode\<rparr> (wf_active st)\<rparr>;
          (interrupted, ev, w, r, st) = waf_phases reg request_body_limit waf tx_id tenant (client_ip_of r) r w st;
          st = (if audit_mode then record_audit_detection (waf_matched waf ev) tenant st else st)
      in (interrupted, w, r, st\<lparr>wf_active := assoc_del tx_id (wf_active st)\<rparr>))"

subsection \<open>Development bypass\<close>

(* src: internal/waf/middleware_serve.go:25-30 devBypassGranted *)
definition dev_bypass_granted :: "request \<Rightarrow> string \<Rightarrow> bool" where
  "dev_bypass_granted r secret =
     (if secret = [] then False else header_get (rq_header r) ''X-Synit-Dev-Bypass'' = secret)"

subsection \<open>Basic authentication\<close>

text \<open>\<open>Request.BasicAuth\<close>: the scheme without regard to case, Base64, the first colon.\<close>

definition request_basic_auth :: "request \<Rightarrow> (string \<times> string) option" where
  "request_basic_auth r =
     (let auth = header_get (rq_header r) ''Authorization''
      in if length auth < 6 \<or> \<not> equal_fold (take 6 auth) ''Basic '' then None
         else case b64_decode False (drop 6 auth) of
                None \<Rightarrow> None
              | Some s \<Rightarrow> (case index_byte s (CHR '':'') of None \<Rightarrow> None | Some i \<Rightarrow> Some (take i s, drop (Suc i) s)))"

(* src: internal/waf/middleware.go:1136-1140 basicAuthCacheKey (message) *)
definition basic_auth_message :: "string \<Rightarrow> string \<Rightarrow> string \<Rightarrow> string" where
  "basic_auth_message user pass pw_hash =
     concat (map (\<lambda>part. itoa (int (length part)) @ [CHR 0x00] @ part) [user, pass, pw_hash])"

text \<open>\<open>ae_hmac\<close> is HMAC-SHA256, \<open>ae_bcrypt\<close> compares a bcrypt hash with a password.\<close>

record auth_env =
  ae_hmac :: "string \<Rightarrow> string \<Rightarrow> string"
  ae_bcrypt :: "string \<Rightarrow> string \<Rightarrow> bool"
  ae_evict :: "(string, unit) evict"

(* src: internal/waf/middleware.go:1134-1144 ProxyHandler.basicAuthCacheKey *)
definition basic_auth_cache_key :: "auth_env \<Rightarrow> string \<Rightarrow> string \<Rightarrow> string \<Rightarrow> string \<Rightarrow> string" where
  "basic_auth_cache_key env auth_key user pass pw_hash = ae_hmac env auth_key (basic_auth_message user pass pw_hash)"

(* src: internal/waf/middleware.go:1157-1174 checkBasicAuth (loop) *)
fun check_credentials ::
  "auth_env \<Rightarrow> string \<Rightarrow> string \<Rightarrow> string \<Rightarrow> basic_auth_credentials list \<Rightarrow> (string \<times> unit) list \<Rightarrow>
   bool \<times> (string \<times> unit) list" where
  "check_credentials env auth_key user pass [] cache = (False, cache)"
| "check_credentials env auth_key user pass (cred # creds) cache =
     (if user \<noteq> ba_user cred then check_credentials env auth_key user pass creds cache
      else
        let k = basic_auth_cache_key env auth_key user pass (ba_password cred)
        in if lru_get (ae_evict env) k cache \<noteq> None then (True, cache)
           else if ae_bcrypt env (ba_password cred) pass then (True, lru_add (ae_evict env) k () cache)
           else check_credentials env auth_key user pass creds cache)"

text \<open>The comparison with a dummy hash for an unknown user has no effect besides its running time.\<close>

(* src: internal/waf/middleware.go:1149-1187 ProxyHandler.checkBasicAuth *)
definition check_basic_auth ::
  "auth_env \<Rightarrow> string \<Rightarrow> basic_auth_credentials list \<Rightarrow> request \<Rightarrow> (string \<times> unit) list \<Rightarrow>
   bool \<times> request \<times> (string \<times> unit) list" where
  "check_basic_auth env auth_key creds r cache =
     (case request_basic_auth r of
        None \<Rightarrow> (False, r, cache)
      | Some (user, pass) \<Rightarrow>
          let (authenticated, cache) = check_credentials env auth_key user pass creds cache
          in if \<not> authenticated then (False, r, cache)
             else (True, r\<lparr>rq_info := map_option (\<lambda>i. i\<lparr>ri_user := user\<rparr>) (rq_info r)\<rparr>, cache))"

subsection \<open>CrowdSec\<close>

(* src: internal/waf/middleware.go:66-69 crowdsecDecision *)
record crowdsec_decision =
  cd_banned :: bool
  cd_expires :: time

text \<open>\<open>lapi\<close> gives the number of decisions for an address, or fails.\<close>

record crowdsec_state =
  cs_cache :: "(string \<times> crowdsec_decision) list"
  cs_healthy :: bool

(* src: internal/waf/middleware.go:1488-1508 ProxyHandler.crowdSecBanned *)
definition crowd_sec_banned ::
  "(string, crowdsec_decision) evict \<Rightarrow> (string \<Rightarrow> int option) \<Rightarrow> duration \<Rightarrow> time \<Rightarrow> string \<Rightarrow> crowdsec_state \<Rightarrow>
   (unit + bool) \<times> crowdsec_state" where
  "crowd_sec_banned evict lapi ttl now client_ip st =
     (let cached = (if ttl > 0 then lru_get evict client_ip (cs_cache st) else None)
      in if (case cached of Some d \<Rightarrow> now < cd_expires d | None \<Rightarrow> False) then (Inr (cd_banned (the cached)), st)
         else case lapi client_ip of
                None \<Rightarrow> (Inl (), st\<lparr>cs_healthy := False\<rparr>)
              | Some n \<Rightarrow>
                  let banned = (n > 0);
                      st = st\<lparr>cs_healthy := True\<rparr>
                  in (Inr banned,
                      if ttl > 0
                      then st\<lparr>cs_cache := lru_add evict client_ip \<lparr>cd_banned = banned, cd_expires = now + ttl\<rparr> (cs_cache st)\<rparr>
                      else st))"

subsection \<open>Country lookup\<close>

text \<open>A record of the country database: whether it has data, and the two ISO codes.\<close>

record country_record =
  cr_has_data :: bool
  cr_country :: string
  cr_registered :: string

datatype geo_error = GeoIPUnavailable | GeoIPReadError

(* src: internal/waf/geoip.go:48-61 maxMindCountryLookup.LookupCountry *)
definition lookup_country_record :: "('a \<Rightarrow> country_record option) \<Rightarrow> 'a \<Rightarrow> geo_error + string \<times> bool" where
  "lookup_country_record reader a =
     (case reader a of
        None \<Rightarrow> Inl GeoIPReadError
      | Some rec \<Rightarrow>
          if \<not> cr_has_data rec then Inr ([], False)
          else let code = to_upper (cr_country rec);
                   code = (if code = [] then to_upper (cr_registered rec) else code)
               in Inr (code, code \<noteq> []))"

text \<open>\<open>None\<close> is the zero address, which results from a client address that does not parse.\<close>

type_synonym geo_reader = "addr option \<Rightarrow> country_record option"

(* src: internal/waf/geoip.go:41-46 validateCountryDatabase *)
definition validate_country_database :: "geo_reader \<Rightarrow> bool" where
  "validate_country_database reader = (reader (Some (Addr4 0)) \<noteq> None)"

(* src: internal/waf/geoip.go:34-39 newCountryLookup *)
definition new_country_lookup :: "geo_reader \<Rightarrow> geo_reader option" where
  "new_country_lookup reader = (if validate_country_database reader then Some reader else None)"

(* src: internal/waf/geoip.go:26-32 openCountryLookup *)
definition open_country_lookup :: "(string \<Rightarrow> geo_reader option) \<Rightarrow> string \<Rightarrow> geo_reader option" where
  "open_country_lookup open_db path = Option.bind (open_db path) new_country_lookup"

(* src: internal/waf/middleware_serve.go:259-266 ProxyHandler.lookupCountry *)
definition lookup_country :: "geo_reader option \<Rightarrow> addr option \<Rightarrow> geo_error + string \<times> bool" where
  "lookup_country geo a = (case geo of None \<Rightarrow> Inl GeoIPUnavailable | Some reader \<Rightarrow> lookup_country_record reader a)"

subsection \<open>Lemmas: basic authentication\<close>

definition framed :: "string \<Rightarrow> string" where
  "framed part = itoa (int (length part)) @ [CHR 0x00] @ part"

text \<open>A length prefix ends at the first NUL byte, so a framed part can be read off the front.\<close>

lemma framed_inject:
  assumes "framed a @ x = framed b @ y"
  shows "a = b \<and> x = y"
proof -
  have nul: "\<not> is_digit_byte (CHR 0x00)" by code_simp
  have n: "x \<noteq> CHR 0x00" if "x \<in> set (itoa (int (length p)))" for x p
    using itoa_no_byte [OF nul, of "int (length p)"] that by auto
  have t: "takeWhile (\<lambda>c. c \<noteq> CHR 0x00) (framed p @ z) = itoa (int (length p))"
    "dropWhile (\<lambda>c. c \<noteq> CHR 0x00) (framed p @ z) = CHR 0x00 # p @ z" for p z
    using takeWhile_append2 [of "itoa (int (length p))" "\<lambda>c. c \<noteq> CHR 0x00" "CHR 0x00 # p @ z", OF n]
      dropWhile_append2 [of "itoa (int (length p))" "\<lambda>c. c \<noteq> CHR 0x00" "CHR 0x00 # p @ z", OF n]
    by (simp_all add: framed_def)
  have "itoa (int (length a)) = itoa (int (length b))" using assms t(1) by metis
  then have "length a = length b" using itoa_inject by fastforce
  moreover have "a @ x = b @ y" using assms t(2) by (metis list.inject)
  ultimately show ?thesis by simp
qed

lemma basic_auth_message_inject:
  "basic_auth_message u p h = basic_auth_message u' p' h' \<Longrightarrow> u = u' \<and> p = p' \<and> h = h'"
  using framed_inject [of u "framed p @ framed h @ []" u' "framed p' @ framed h' @ []"]
    framed_inject [of p "framed h @ []" p' "framed h' @ []"] framed_inject [of h "[]" h' "[]"]
  by (simp add: basic_auth_message_def framed_def)

text \<open>Every cached key stands for a user, a password and a hash that bcrypt accepted.\<close>

definition auth_cache_ok :: "auth_env \<Rightarrow> string \<Rightarrow> (string \<times> unit) list \<Rightarrow> bool" where
  "auth_cache_ok env auth_key cache \<longleftrightarrow>
     (\<forall>k \<in> fst ` set cache. \<exists>u p h. k = basic_auth_cache_key env auth_key u p h \<and> ae_bcrypt env h p)"

lemma set_assoc_put: "fst ` set (assoc_put k v m) = insert k (fst ` set m)"
  by (induction m) auto

lemma check_credentials_iff:
  assumes "inj (ae_hmac env auth_key)" "drops_only (ae_evict env)" "auth_cache_ok env auth_key cache"
    and "check_credentials env auth_key user pass creds cache = (ok, cache')"
  shows "(ok \<longleftrightarrow> (\<exists>cred \<in> set creds. ba_user cred = user \<and> ae_bcrypt env (ba_password cred) pass)) \<and>
         auth_cache_ok env auth_key cache'"
  using assms(4)
proof (induction creds)
  case Nil
  then show ?case using assms(3) by simp
next
  case (Cons cred creds)
  let ?k = "basic_auth_cache_key env auth_key user pass (ba_password cred)"
  show ?case
  proof (cases "user = ba_user cred")
    case False
    then show ?thesis using Cons by simp
  next
    case user: True
    have cached: "ae_bcrypt env (ba_password cred) pass" if "lru_get (ae_evict env) ?k cache \<noteq> None"
    proof -
      have "?k \<in> fst ` set (ae_evict env cache)"
        using that by (auto simp: lru_get_def dest: map_of_SomeD intro: rev_image_eqI)
      then have "?k \<in> fst ` set cache" using assms(2) by (auto simp: drops_only_def)
      then obtain u p h where k: "?k = basic_auth_cache_key env auth_key u p h" "ae_bcrypt env h p"
        using assms(3) by (auto simp: auth_cache_ok_def)
      then have "basic_auth_message user pass (ba_password cred) = basic_auth_message u p h"
        using assms(1) by (simp add: basic_auth_cache_key_def inj_eq)
      then show ?thesis using basic_auth_message_inject k(2) by blast
    qed
    have added: "auth_cache_ok env auth_key (lru_add (ae_evict env) ?k () cache)" if "ae_bcrypt env (ba_password cred) pass"
      using that assms(2,3) set_assoc_put [of ?k "()" cache] unfolding auth_cache_ok_def drops_only_def lru_add_def
      by (metis (no_types, lifting) image_iff image_mono insertE subsetD)
    consider (hit) "lru_get (ae_evict env) ?k cache \<noteq> None"
      | (match) "lru_get (ae_evict env) ?k cache = None" "ae_bcrypt env (ba_password cred) pass"
      | (miss) "lru_get (ae_evict env) ?k cache = None" "\<not> ae_bcrypt env (ba_password cred) pass" by blast
    then show ?thesis
    proof cases
      case hit
      then show ?thesis using Cons.prems user cached assms(3) by (auto simp: Let_def)
    next
      case match
      then show ?thesis using Cons.prems user added by (auto simp: Let_def)
    next
      case miss
      then show ?thesis using Cons user by (simp add: Let_def)
    qed
  qed
qed

subsection \<open>Properties\<close>

text \<open>C29: basic authentication accepts a request exactly when its user is configured with a hash that bcrypt accepts for its
  password, whatever is in the cache of earlier successes: the length-prefixed cache key of one triple is never that of
  another.  HMAC is taken to be collision free, and the cache library only to drop entries.\<close>

theorem basic_auth_sound:
  assumes "inj (ae_hmac env auth_key)" "drops_only (ae_evict env)" "auth_cache_ok env auth_key cache"
    and "check_basic_auth env auth_key creds r cache = (ok, r', cache')"
  shows "(ok \<longleftrightarrow> (\<exists>user pass. request_basic_auth r = Some (user, pass) \<and>
            (\<exists>cred \<in> set creds. ba_user cred = user \<and> ae_bcrypt env (ba_password cred) pass))) \<and>
         auth_cache_ok env auth_key cache'"
proof (cases "request_basic_auth r")
  case None
  then show ?thesis using assms by (simp add: check_basic_auth_def)
next
  case (Some up)
  obtain user pass where up: "up = (user, pass)" by fastforce
  obtain ok' c' where c: "check_credentials env auth_key user pass creds cache = (ok', c')" by fastforce
  then have "ok = ok'" "cache' = c'"
    using assms(4) Some up by (auto simp: check_basic_auth_def Let_def split: if_splits)
  then show ?thesis using check_credentials_iff [OF assms(1-3) c] Some up by simp
qed

definition sample_auth_env :: auth_env where
  "sample_auth_env = \<lparr>ae_hmac = (\<lambda>k m. k @ m), ae_bcrypt = (\<lambda>h p. h = ''hash:'' @ p), ae_evict = keep_all\<rparr>"

theorem basic_auth_sound_witness:
  "\<exists>r' cache'. check_basic_auth sample_auth_env ''k'' [\<lparr>ba_user = ''bob'', ba_password = ''hash:pw''\<rparr>]
      (sample_request\<lparr>rq_header := [(''Authorization'', [''Basic Ym9iOnB3''])]\<rparr>) [] = (True, r', cache') \<and>
    auth_cache_ok sample_auth_env ''k'' cache' \<and> length cache' = 1"
proof -
  let ?r = "sample_request\<lparr>rq_header := [(''Authorization'', [''Basic Ym9iOnB3''])]\<rparr>"
  let ?c = "check_basic_auth sample_auth_env ''k'' [\<lparr>ba_user = ''bob'', ba_password = ''hash:pw''\<rparr>] ?r []"
  have v: "fst ?c = True" "length (snd (snd ?c)) = 1" by code_simp+
  obtain ok r' cache' where c0: "?c = (ok, r', cache')" by (rule prod_cases3)
  have ok: "ok = True" "length cache' = 1" using v unfolding c0 by (simp_all only: fst_conv snd_conv)
  note c = c0 [unfolded ok(1)]
  have "inj (ae_hmac sample_auth_env ''k'')" by (simp add: sample_auth_env_def inj_def)
  moreover have "drops_only (ae_evict sample_auth_env)" by (simp add: sample_auth_env_def drops_only_def keep_all_def)
  moreover have "auth_cache_ok sample_auth_env ''k'' []" by (simp add: auth_cache_ok_def)
  ultimately have "auth_cache_ok sample_auth_env ''k'' cache'" using basic_auth_sound [OF _ _ _ c] by blast
  then show ?thesis using c ok(2) by blast
qed

subsection \<open>Lemmas: the Coraza transaction\<close>

text \<open>What the body phases saw when they let a request pass.\<close>

definition body_events :: "int \<Rightarrow> request \<Rightarrow> tx_event list \<Rightarrow> request \<Rightarrow> bool" where
  "body_events limit r b r' \<longleftrightarrow>
     (if rq_body r \<noteq> NilBody \<and> rq_content_length r \<noteq> 0
      then \<exists>bs. b = [TxWriteBody bs] \<and> \<not> has_unsupported_content_encoding r \<and>
             inspection_body r (if limit \<le> 0 then default_request_body_cap else limit) = (Inr bs, r')
      else b = [] \<and> r' = r)"

lemma block_request_active: "block_request reg tx_id r w st = (w', st') \<Longrightarrow> wf_active st' = wf_active st"
  by (auto simp: block_request_def Let_def split: prod.splits option.splits if_splits)

lemma waf_phase_two_passed:
  "waf_phase_two reg waf tx_id ev r w st = (False, ev', w', r', st') \<Longrightarrow>
   ev' = ev @ [TxRequestBody] \<and> w' = w \<and> r' = r \<and> st' = st \<and> \<not> waf_body_error waf ev' \<and> \<not> waf_interrupted waf ev'"
  by (auto simp: waf_phase_two_def Let_def split: if_splits prod.splits)

lemma waf_body_passed:
  assumes "waf_body reg limit waf tx_id tenant ev r w st = (False, ev', w', r', st')"
  shows "\<exists>b. body_events limit r b r' \<and> ev' = ev @ b @ [TxRequestBody] \<and> w' = w \<and>
    \<not> waf_body_error waf ev' \<and> \<not> waf_interrupted waf ev'"
proof (cases "rq_body r \<noteq> NilBody \<and> rq_content_length r \<noteq> 0")
  case False
  then have "waf_phase_two reg waf tx_id ev r w st = (False, ev', w', r', st')"
    using assms by (simp add: waf_body_def split: if_split_asm)
  from waf_phase_two_passed [OF this] show ?thesis using False by (intro exI [of _ "[]"]) (auto simp: body_events_def)
next
  case True
  then obtain bs r1 where b: "inspection_body r (if limit \<le> 0 then default_request_body_cap else limit) = (Inr bs, r1)"
    and e: "\<not> has_unsupported_content_encoding r"
    and p: "waf_phase_two reg waf tx_id (ev @ [TxWriteBody bs]) r1 w st = (False, ev', w', r', st')"
    using assms
    by (auto simp: waf_body_def Let_def split: if_split_asm prod.split_asm sum.split_asm inspection_error.split_asm)
  from waf_phase_two_passed [OF p] show ?thesis
    using True b e by (intro exI [of _ "[TxWriteBody bs]"]) (auto simp: body_events_def)
qed


definition sample_waf :: coraza_waf where
  "sample_waf = \<lparr>waf_interrupted = (\<lambda>ev. TxWriteBody ''attack'' \<in> set ev), waf_matched = (\<lambda>_. []), waf_interruption = (\<lambda>_. None),
     waf_write_error = (\<lambda>_. False), waf_body_error = (\<lambda>_. False)\<rparr>"

definition sample_waf_state :: waf_state where
  "sample_waf_state = \<lparr>wf_active = [], wf_blocked = [], wf_audit = [], wf_rule_matches = []\<rparr>"

definition sample_post :: "string \<Rightarrow> request" where
  "sample_post b = sample_request\<lparr>rq_method := ''POST'', rq_content_length := int (length b), rq_body := Stream b False\<rparr>"


end
