(* ===== verification/Serve.thy ===== *)
theory Serve
  imports Upstream Jwks GraphQL Llm Inspect
begin

text \<open>
  The request pipeline: \<open>ServeHTTP\<close> of \<open>internal/waf/middleware_serve.go\<close> with its
  ten stages in order, the state of the \<open>ProxyHandler\<close>, the reverse proxy of an
  upstream, and the public and admin handlers of \<open>http_handler.go\<close> and
  \<open>readiness.go\<close>.

  A stage takes the writer, the request and the handler, and tells whether it
  answered the request; \<open>None\<close> means that it never returns.  One request is
  followed at a time; the controls that are shared by concurrent requests have
  their interleavings in their own theories.
\<close>

subsection \<open>State and parameters\<close>

text \<open>A line of the access log, with its durations left out.\<close>

record access_log_record =
  al_client_ip :: string
  al_method :: string
  al_host :: string
  al_path :: string
  al_status :: int
  al_bytes :: int
  al_tenant :: string
  al_user :: string

text \<open>
  \<open>ph_proxy_tenants\<close> holds the tenant that the closures of a tenant's upstreams
  captured, with its compiled patterns.  \<open>ph_forwarded\<close> lists the requests that
  were sent to an upstream.
\<close>

(* src: internal/waf/middleware.go:120-161 ProxyHandler *)
record proxy_handler =
  ph_registry :: registry
  ph_bouncer :: bool
  ph_crowdsec :: crowdsec_state
  ph_crowdsec_ttl :: duration
  ph_crowdsec_required :: bool
  ph_tenant_states :: "(string \<times> tenant_state) list"
  ph_proxy_tenants :: "string \<Rightarrow> tenant"
  ph_request_body_limit :: int
  ph_response_masking_limit :: int
  ph_dependency_mode :: "string option"
  ph_rate :: rate_state
  ph_llm_cache :: "(string \<times> real) list"
  ph_global_limiter :: "limiter option"
  ph_jwks :: jwks_state
  ph_allow_ips :: "ip_prefix list option"
  ph_block_ips :: "ip_prefix list option"
  ph_trust_forwarded_for :: bool
  ph_trusted_proxies :: "ip_prefix list option"
  ph_auth_cache :: "(string \<times> unit) list"
  ph_auth_key :: string
  ph_active_tx :: "(string \<times> waf_transaction_meta) list"
  ph_geoip :: "geo_reader option"
  ph_blocked :: blocked_counter
  ph_audit :: "(string \<times> int) list"
  ph_rule_matches :: "((string \<times> string) \<times> int) list"
  ph_upstream_metrics :: upstream_metrics
  ph_requests :: "((string \<times> string) \<times> int) list"
  ph_access_log :: "access_log_record list"
  ph_forwarded :: "(string \<times> nat \<times> out_request) list"

text \<open>What a round trip to an upstream does; a panic may be \<open>http.ErrAbortHandler\<close>.\<close>

datatype round_trip = Failed proxy_error | Responded response | Panics bool

text \<open>
  \<open>sv_out_header\<close> is what \<open>httputil.ReverseProxy\<close> leaves of the request headers
  before it calls \<open>Rewrite\<close>; \<open>sv_ctx_err\<close> tells whether the client has gone.
\<close>

record serve_env =
  sv_now :: time
  sv_bucket :: bucket
  sv_rate_evict :: "(string, rate_limiter_state) evict"
  sv_rpc :: rpc_env
  sv_jwt_lib :: jwt_lib
  sv_jwks :: jwks_env
  sv_jwks_clock :: "nat \<Rightarrow> time \<times> time \<times> time"
  sv_auth :: auth_env
  sv_crowdsec_evict :: "(string, crowdsec_decision) evict"
  sv_lapi :: "string \<Rightarrow> int option"
  sv_tx_id :: string
  sv_graphql :: gq_env
  sv_llm :: llm_env
  sv_compile :: "string \<Rightarrow> regexp option"
  sv_detect :: "string \<Rightarrow> string"
  sv_out_header :: "request \<Rightarrow> header"
  sv_round_trip :: "out_request \<Rightarrow> request \<Rightarrow> round_trip"
  sv_ctx_err :: bool

type_synonym serve_ctx = "log_writer \<times> request \<times> proxy_handler"
type_synonym stage = "serve_ctx \<Rightarrow> (bool \<times> serve_ctx) option"

text \<open>A stage that answers, with a counter of blocked requests, and one that lets the request pass.\<close>

definition refuse :: "string \<Rightarrow> string \<Rightarrow> (log_writer \<Rightarrow> log_writer) \<Rightarrow> stage" where
  "refuse source tenant answer = (\<lambda>(w, r, h).
     Some (True, answer w, r, h\<lparr>ph_blocked := counter_inc (source, tenant) (ph_blocked h)\<rparr>))"

definition answer_with :: "(log_writer \<Rightarrow> log_writer) \<Rightarrow> stage" where
  "answer_with answer = (\<lambda>(w, r, h). Some (True, answer w, r, h))"

definition pass :: stage where
  "pass c = Some (False, c)"

(* src: internal/waf/middleware.go:1426-1428 ProxyHandler.setDependencyFailMode *)
definition set_dependency_fail_mode :: "string \<Rightarrow> proxy_handler \<Rightarrow> proxy_handler" where
  "set_dependency_fail_mode mode h =
     h\<lparr>ph_dependency_mode := Some (let n = to_lower (trim_space mode) in if n = [] then ''fail_open'' else n)\<rparr>"

(* src: internal/waf/middleware.go:1430-1439 ProxyHandler.getDependencyFailMode *)
definition get_dependency_fail_mode :: "proxy_handler \<Rightarrow> string" where
  "get_dependency_fail_mode h = (case ph_dependency_mode h of None \<Rightarrow> ''fail_open'' | Some mode \<Rightarrow> mode)"

definition fail_closed :: "proxy_handler \<Rightarrow> bool" where
  "fail_closed h = (get_dependency_fail_mode h = ''fail_closed'')"

definition list_contains_ip :: "ip_prefix list option \<Rightarrow> addr option \<Rightarrow> bool" where
  "list_contains_ip ps a =
     (case (ps, a) of (Some prefixes, Some addr) \<Rightarrow> prefixes_contain prefixes addr | _ \<Rightarrow> False)"

definition json_forbidden :: "string \<Rightarrow> log_writer \<Rightarrow> log_writer" where
  "json_forbidden b w = json_answer b 403 w"

definition quoted :: "string \<Rightarrow> string" where
  "quoted s = [CHR 0x22] @ s @ [CHR 0x22]"

subsection \<open>The stages\<close>

text \<open>What \<open>ServeHTTP\<close> resolves before the first stage.\<close>

(* src: internal/waf/middleware_serve.go:35-50 ServeHTTP (request info) *)
definition resolve_request :: "proxy_handler \<Rightarrow> request \<Rightarrow> request" where
  "resolve_request h r =
     (let trusted = trusted_proxies_of (ph_trusted_proxies h);
          client_ip = client_ip_from_request r (ph_trust_forwarded_for h) trusted;
          (entry, domain, matched) =
            (case registry_get (ph_registry h) (rq_host r) of Some (e, d) \<Rightarrow> (e, d, True) | None \<Rightarrow> (zero_entry, [], False));
          info = \<lparr>ri_client_ip = client_ip, ri_tenant = domain, ri_entry = entry, ri_matched = matched, ri_trusted_peer = False,
                  ri_forwarded_host = [], ri_forwarded_prot = [], ri_user = [], ri_body_read = False, ri_body = []\<rparr>;
          trusted_peer = (ph_trust_forwarded_for h \<and>
            (case parse_addr_port (rq_remote_addr r) of
               Some (a, _) \<Rightarrow> prefixes_contain trusted (unmap a) | None \<Rightarrow> False))
      in with_request_info r
           (if trusted_peer
            then info\<lparr>ri_trusted_peer := True, ri_forwarded_host := header_get (rq_header r) ''X-Forwarded-Host'',
                      ri_forwarded_prot := header_get (rq_header r) ''X-Forwarded-Proto''\<rparr>
            else info))"

(* src: internal/waf/middleware_serve.go:97-104 ServeHTTP (1) *)
definition stage_block_list :: "addr option \<Rightarrow> stage" where
  "stage_block_list ip c = (case c of (w, r, h) \<Rightarrow>
     if list_contains_ip (ph_block_ips h) ip
     then refuse ''ip_blocklist'' ''global''
            (json_forbidden (''{'' @ quoted ''error'' @ '': '' @ quoted ''Forbidden'' @ '', '' @ quoted ''message'' @ '': '' @
               quoted ''IP is blocked'' @ ''}'')) c
     else pass c)"

(* src: internal/waf/middleware_serve.go:111-129 ServeHTTP (2) *)
definition stage_country :: "bool \<Rightarrow> addr option \<Rightarrow> entry \<Rightarrow> string \<Rightarrow> bool \<Rightarrow> stage" where
  "stage_country allowlisted ip entry domain matched c = (case c of (w, r, h) \<Rightarrow>
     if \<not> allowlisted \<and> matched \<and> opt_true (sp_geoip_enabled (tn_security (en_tenant entry))) then
       case lookup_country (ph_geoip h) ip of
         Inl _ \<Rightarrow>
           if fail_closed h then answer_with (http_error ''Security dependency unavailable'' 503) c else pass c
       | Inr (country, found) \<Rightarrow>
           if found \<and> country \<in> set (sp_blocked_countries (tn_security (en_tenant entry)))
           then refuse ''geoip'' domain (http_error ''Forbidden: country is blocked'' 403) c
           else pass c
     else pass c)"

(* src: internal/waf/middleware_serve.go:131-140 ServeHTTP (3) *)
definition stage_global_limit :: "serve_env \<Rightarrow> bool \<Rightarrow> stage" where
  "stage_global_limit env allowlisted c = (case c of (w, r, h) \<Rightarrow>
     if allowlisted then pass c
     else case ph_global_limiter h of
            None \<Rightarrow> pass c
          | Some limiter \<Rightarrow>
              let (allowed, limiter) = limiter_allow (sv_bucket env) (sv_now env) limiter;
                  h = h\<lparr>ph_global_limiter := Some limiter\<rparr>
              in if allowed then pass (w, r, h)
                 else refuse ''global_rate_limit'' ''global'' (http_error ''Too Many Requests'' 429) (w, r, h))"

(* src: internal/waf/middleware_serve.go:142-151 ServeHTTP (4) *)
definition stage_known_host :: "bool \<Rightarrow> stage" where
  "stage_known_host matched c =
     (if matched then pass c
      else refuse ''unknown_host'' ''unmatched'' (http_error ''Forbidden: Access to this host is not allowed'' 403) c)"

(* src: internal/waf/middleware_serve.go:154-161 ServeHTTP (5) *)
definition stage_rate_limit :: "serve_env \<Rightarrow> bool \<Rightarrow> string \<Rightarrow> string \<Rightarrow> tenant \<Rightarrow> stage" where
  "stage_rate_limit env allowlisted client_ip domain tenant c = (case c of (w, r, h) \<Rightarrow>
     if allowlisted then pass c
     else
       let (allowed, rate) = allow_rate_limited_request (sv_bucket env) (sv_rate_evict env) (sv_rpc env) (sv_now env) domain client_ip
                               (sp_rate_limit (tn_security tenant)) (ph_rate h);
           h = h\<lparr>ph_rate := rate\<rparr>
       in if allowed then pass (w, r, h)
          else refuse ''rate_limit'' domain (http_error ''Too Many Requests'' 429) (w, r, h))"

(* src: internal/waf/middleware_serve.go:163-168 ServeHTTP (6) *)
definition stage_jwt :: "serve_env \<Rightarrow> tenant \<Rightarrow> stage" where
  "stage_jwt env tenant c = (case c of (w, r, h) \<Rightarrow>
     if \<not> jwt_enabled (sp_jwt (tn_security tenant)) then pass c
     else
       let (ok, w, jwks) = validate_jwt (sv_jwt_lib env) (sv_jwks env) (sv_jwks_clock env) (sp_jwt (tn_security tenant)) r w (ph_jwks h)
       in Some (\<not> ok, w, r, h\<lparr>ph_jwks := jwks\<rparr>))"

(* src: internal/waf/middleware_serve.go:170-181 ServeHTTP (7) *)
definition stage_basic_auth :: "serve_env \<Rightarrow> string \<Rightarrow> tenant \<Rightarrow> stage" where
  "stage_basic_auth env domain tenant c = (case c of (w, r, h) \<Rightarrow>
     if sp_basic_auth (tn_security tenant) = [] then pass c
     else
       let (authed, r, cache) = check_basic_auth (sv_auth env) (ph_auth_key h) (sp_basic_auth (tn_security tenant)) r (ph_auth_cache h);
           h = h\<lparr>ph_auth_cache := cache\<rparr>
       in if authed then pass (w, r, h)
          else refuse ''basic_auth'' domain
                 (\<lambda>w. http_error ''Unauthorized'' 401 (lw_set_header ''WWW-Authenticate'' (''Basic realm='' @ quoted ''Restricted'') w)) (w, r, h))"

(* src: internal/waf/middleware_serve.go:183-212 ServeHTTP (8) *)
definition stage_crowdsec :: "serve_env \<Rightarrow> string \<Rightarrow> string \<Rightarrow> tenant \<Rightarrow> stage" where
  "stage_crowdsec env client_ip domain tenant c = (case c of (w, r, h) \<Rightarrow>
     if \<not> opt_true (sp_crowdsec_enabled (tn_security tenant)) then pass c
     else if \<not> ph_bouncer h then
       (if fail_closed h
        then refuse ''crowdsec_unavailable'' domain (http_error ''Security dependency unavailable'' 503) c
        else pass c)
     else
       let (res, cs) = crowd_sec_banned (sv_crowdsec_evict env) (sv_lapi env) (ph_crowdsec_ttl h) (sv_now env) client_ip (ph_crowdsec h);
           h = h\<lparr>ph_crowdsec := cs\<rparr>
       in case res of
            Inl _ \<Rightarrow>
              if fail_closed h
              then refuse ''crowdsec_error'' domain (http_error ''Security dependency unavailable'' 503) (w, r, h)
              else pass (w, r, h)
          | Inr banned \<Rightarrow>
              if banned
              then refuse ''crowdsec'' domain
                     (json_forbidden (''{'' @ quoted ''error'' @ '': '' @ quoted ''Blocked by Security Policy'' @ ''}'')) (w, r, h)
              else pass (w, r, h))"

text \<open>The three content inspections of stage 9, each on the part of the handler it works with.\<close>

(* src: internal/waf/middleware_serve.go:220-223 ServeHTTP (9, Coraza) *)
definition stage_waf :: "serve_env \<Rightarrow> entry \<Rightarrow> stage" where
  "stage_waf env entry c = (case c of (w, r, h) \<Rightarrow>
     case en_waf entry of
       None \<Rightarrow> pass c
     | Some waf \<Rightarrow>
         let client_ip_of = client_ip_for (ph_trust_forwarded_for h) (trusted_proxies_of (ph_trusted_proxies h));
             (answered, w, r, st) = apply_waf (ph_registry h) (ph_request_body_limit h) client_ip_of (sv_tx_id env) waf r w
               \<lparr>wf_active = ph_active_tx h, wf_blocked = ph_blocked h, wf_audit = ph_audit h, wf_rule_matches = ph_rule_matches h\<rparr>
         in Some (answered, w, r, h\<lparr>ph_active_tx := wf_active st, ph_blocked := wf_blocked st, ph_audit := wf_audit st,
                                    ph_rule_matches := wf_rule_matches st\<rparr>))"

(* src: internal/waf/middleware_serve.go:224-226 ServeHTTP (9, GraphQL) *)
definition stage_graphql :: "serve_env \<Rightarrow> tenant \<Rightarrow> stage" where
  "stage_graphql env tenant c = (case c of (w, r, h) \<Rightarrow>
     if \<not> gq_enabled (sp_graphql (tn_security tenant)) then pass c
     else
       let (answered, w, r, m) = apply_graphql_protection (sv_graphql env) (ph_registry h) (ph_request_body_limit h)
                                   (sp_graphql (tn_security tenant)) r w (ph_blocked h)
       in Some (answered, w, r, h\<lparr>ph_blocked := m\<rparr>))"

(* src: internal/waf/middleware_serve.go:227-229 ServeHTTP (9, LLM) *)
definition stage_llm :: "serve_env \<Rightarrow> tenant \<Rightarrow> stage" where
  "stage_llm env tenant c = (case c of (w, r, h) \<Rightarrow>
     if \<not> llm_enabled (sp_llm (tn_security tenant)) then pass c
     else map_option (\<lambda>(answered, w, r, st).
              (answered, w, r, h\<lparr>ph_llm_cache := ls_cache st, ph_blocked := ls_blocked st, ph_audit := ls_audit st\<rparr>))
            (apply_llm_protection (sv_llm env) (ph_registry h) (ph_request_body_limit h) (sp_llm (tn_security tenant)) r w
               \<lparr>ls_cache = ph_llm_cache h, ls_blocked = ph_blocked h, ls_audit = ph_audit h\<rparr>))"

text \<open>Stages in sequence: the first that answers ends the sequence.\<close>

fun run_stages :: "stage list \<Rightarrow> stage" where
  "run_stages [] c = Some (False, c)"
| "run_stages (s # ss) c =
     (case s c of None \<Rightarrow> None | Some (answered, c') \<Rightarrow> if answered then Some (True, c') else run_stages ss c')"

(* src: internal/waf/middleware_serve.go:214-231 ServeHTTP (9) *)
definition stage_content :: "serve_env \<Rightarrow> bool \<Rightarrow> entry \<Rightarrow> stage" where
  "stage_content env allowlisted entry c = (case c of (w, r, h) \<Rightarrow>
     if allowlisted \<or> dev_bypass_granted r (sp_dev_bypass_secret (tn_security (en_tenant entry))) then pass c
     else run_stages [stage_waf env entry, stage_graphql env (en_tenant entry), stage_llm env (en_tenant entry)] c)"

subsection \<open>The reverse proxy\<close>

text \<open>\<open>copyHeader\<close> and the body: what the proxy hands on of a response.\<close>

definition copy_response :: "response \<Rightarrow> log_writer \<Rightarrow> log_writer" where
  "copy_response resp w =
     (let w = w\<lparr>lw_inner := (lw_inner w)\<lparr>w_header := w_header (lw_inner w) @ rs_header resp\<rparr>\<rparr>;
          w = lw_write_header (rs_status resp) w
      in case rs_body resp of Stream b _ \<Rightarrow> lw_write b w | _ \<Rightarrow> w)"

text \<open>
  The proxy of one upstream, the only place where a panic is modelled: \<open>Rewrite\<close>, the round trip, \<open>ModifyResponse\<close> and
  \<open>ErrorHandler\<close>.  The result tells whether the call panicked, and with
  \<open>http.ErrAbortHandler\<close> or not.
\<close>

(* src: internal/waf/middleware_serve.go:253 ServeHTTP (proxy) *)
definition proxy_upstream ::
  "serve_env \<Rightarrow> string \<Rightarrow> tenant \<Rightarrow> nat \<Rightarrow> tenant_state \<Rightarrow> serve_ctx \<Rightarrow> bool option \<times> serve_ctx" where
  "proxy_upstream env domain tenant i ts c = (case c of (w, r, h) \<Rightarrow>
     let u = ts_upstreams ts ! i;
         out = rewrite_request domain tenant (us_url u) r (sv_out_header env r);
         h = h\<lparr>ph_forwarded := ph_forwarded h @ [(domain, i, out)]\<rparr>;
         store = (\<lambda>u m h. h\<lparr>ph_tenant_states := assoc_put domain (update_upstream i (\<lambda>_. u) ts) (ph_tenant_states h),
                            ph_upstream_metrics := m\<rparr>);
         fail = (\<lambda>e u m. let (w, u, m) = proxy_error_handler (sv_now env) domain tenant (sv_ctx_err env) e w u m
                         in (None, w, r, store u m h))
     in case sv_round_trip env out r of
          Panics abort \<Rightarrow> (Some abort, w, r, h)
        | Failed e \<Rightarrow> fail e u (ph_upstream_metrics h)
        | Responded resp \<Rightarrow>
            (case modify_response (sv_compile env) (sv_detect env) (ph_response_masking_limit h) (sv_now env) domain tenant resp u
                    (ph_upstream_metrics h) of
               (Inl e, u, m) \<Rightarrow> fail e u m
             | (Inr resp, u, m) \<Rightarrow> (None, copy_response resp w, r, store u m h)))"

(* src: internal/waf/middleware_serve.go:233-253 ServeHTTP (10) *)
definition serve_upstream :: "serve_env \<Rightarrow> string \<Rightarrow> serve_ctx \<Rightarrow> bool option \<times> serve_ctx" where
  "serve_upstream env domain c = (case c of (w, r, h) \<Rightarrow>
     case map_of (ph_tenant_states h) domain of
       None \<Rightarrow> (None, http_error ''Service Unavailable'' 503 w, r, h)
     | Some ts \<Rightarrow>
         let (choice, ts) = select_upstream (sv_now env) ts;
             h = h\<lparr>ph_tenant_states := assoc_put domain ts (ph_tenant_states h)\<rparr>
         in case choice of
              None \<Rightarrow>
                (None, json_answer (''{'' @ quoted ''error'' @ '': '' @ quoted ''Service Unavailable'' @ '', '' @ quoted ''message'' @ '': '' @
                         quoted ''No healthy upstreams available'' @ ''}'') 503 w, r, h)
            | Some i \<Rightarrow> proxy_upstream env domain (ph_proxy_tenants h domain) i ts (w, r, h))"

subsection \<open>ServeHTTP\<close>

text \<open>The stages in the order of the source, for a resolved request.\<close>

(* src: internal/waf/middleware_serve.go:97-231 ServeHTTP (stages) *)
definition serve_stages :: "serve_env \<Rightarrow> proxy_handler \<Rightarrow> request_info \<Rightarrow> stage list" where
  "serve_stages env h info =
     (let client_ip = ri_client_ip info;
          ip = parse_addr client_ip;
          entry = ri_entry info;
          domain = ri_tenant info;
          matched = ri_matched info;
          tenant = en_tenant entry;
          allowlisted = list_contains_ip (ph_allow_ips h) ip
      in [stage_block_list ip, stage_country allowlisted ip entry domain matched, stage_global_limit env allowlisted,
          stage_known_host matched, stage_rate_limit env allowlisted client_ip domain tenant, stage_jwt env tenant,
          stage_basic_auth env domain tenant, stage_crowdsec env client_ip domain tenant, stage_content env allowlisted entry])"

text \<open>The deferred function: recovery from a panic, the access log and the request counter.\<close>

(* src: internal/waf/middleware_serve.go:59-95 ServeHTTP (deferred) *)
definition serve_finish :: "string \<Rightarrow> string \<Rightarrow> bool option \<times> serve_ctx \<Rightarrow> serve_ctx" where
  "serve_finish client_ip tenant_metric res = (case res of (panicked, w, r, h) \<Rightarrow>
     if panicked = Some True then (w, r, h)
     else
       let w = (if panicked = Some False
                then (if \<not> lw_wrote_header w then http_error ''Internal Server Error'' 500 w else w\<lparr>lw_status := 500\<rparr>)
                else w);
           entry = \<lparr>al_client_ip = client_ip, al_method = rq_method r, al_host = rq_host r, al_path = rq_path r,
                    al_status = lw_status w, al_bytes = lw_size w, al_tenant = tenant_metric,
                    al_user = (case rq_info r of Some i \<Rightarrow> ri_user i | None \<Rightarrow> [])\<rparr>
       in (w, r, h\<lparr>ph_access_log := ph_access_log h @ [entry],
                   ph_requests := counter_inc (tenant_metric, status_class_label (lw_status w)) (ph_requests h)\<rparr>))"

(* src: internal/waf/middleware_serve.go:33-254 ProxyHandler.ServeHTTP *)
definition serve_http :: "serve_env \<Rightarrow> writer \<Rightarrow> request \<Rightarrow> proxy_handler \<Rightarrow> serve_ctx option" where
  "serve_http env w r h =
     (let r = resolve_request h r;
          info = the (rq_info r);
          tenant_metric = (if ri_matched info then ri_tenant info else ''unmatched'')
      in map_option
           (\<lambda>(answered, c). serve_finish (ri_client_ip info) tenant_metric
              (if answered then (None, c) else serve_upstream env (ri_tenant info) c))
           (run_stages (serve_stages env h info) (new_log_writer w, r, h)))"

subsection \<open>Lemmas: what the stages leave alone\<close>

text \<open>
  No stage changes a request but for its body and what was read of it and the
  user, nor the settings of the handler.
\<close>

definition same_info :: "request_info \<Rightarrow> request_info \<Rightarrow> bool" where
  "same_info i j \<longleftrightarrow> j = i\<lparr>ri_user := ri_user j, ri_body_read := ri_body_read j, ri_body := ri_body j\<rparr>"

definition same_request :: "request \<Rightarrow> request \<Rightarrow> bool" where
  "same_request r s \<longleftrightarrow> s = r\<lparr>rq_body := rq_body s, rq_info := rq_info s\<rparr> \<and> rel_option same_info (rq_info r) (rq_info s)"

definition same_handler :: "proxy_handler \<Rightarrow> proxy_handler \<Rightarrow> bool" where
  "same_handler h g \<longleftrightarrow> g = h\<lparr>ph_crowdsec := ph_crowdsec g, ph_rate := ph_rate g, ph_llm_cache := ph_llm_cache g,
     ph_global_limiter := ph_global_limiter g, ph_jwks := ph_jwks g, ph_auth_cache := ph_auth_cache g,
     ph_active_tx := ph_active_tx g, ph_blocked := ph_blocked g, ph_audit := ph_audit g, ph_rule_matches := ph_rule_matches g\<rparr>"

lemma same_info_refl [simp]: "same_info i i"
  by (simp add: same_info_def)

lemma same_info_trans: "same_info i j \<Longrightarrow> same_info j k \<Longrightarrow> same_info i k"
  by (cases i; cases j; cases k) (simp add: same_info_def)

lemma same_request_refl [simp]: "same_request r r"
  by (cases "rq_info r") (simp_all add: same_request_def)

lemma same_request_trans: "same_request r s \<Longrightarrow> same_request s t \<Longrightarrow> same_request r t"
  unfolding same_request_def
  by (cases r; cases s; cases t) (auto intro: option.rel_transp [unfolded transp_def, rule_format] simp: option.rel_sel dest: same_info_trans)

lemma same_request_fields:
  assumes "same_request r s"
  shows "rq_method s = rq_method r" "rq_host s = rq_host r" "rq_path s = rq_path r" "rq_header s = rq_header r"
    "rq_query s = rq_query r" "rq_url s = rq_url r" "rq_remote_addr s = rq_remote_addr r" "rq_proto s = rq_proto r"
    "rq_content_length s = rq_content_length r" "rel_option same_info (rq_info r) (rq_info s)"
  using assms by (cases r; cases s; simp add: same_request_def)+

lemma same_handler_refl [simp]: "same_handler h h"
  by (simp add: same_handler_def)

lemma same_handler_trans: "same_handler h g \<Longrightarrow> same_handler g f \<Longrightarrow> same_handler h f"
  by (cases h; cases g; cases f) (simp add: same_handler_def)

lemma same_handler_fields:
  assumes "same_handler h g"
  shows "ph_registry g = ph_registry h" "ph_bouncer g = ph_bouncer h" "ph_crowdsec_ttl g = ph_crowdsec_ttl h"
    "ph_tenant_states g = ph_tenant_states h" "ph_proxy_tenants g = ph_proxy_tenants h"
    "ph_request_body_limit g = ph_request_body_limit h" "ph_dependency_mode g = ph_dependency_mode h"
    "ph_allow_ips g = ph_allow_ips h" "ph_block_ips g = ph_block_ips h" "ph_geoip g = ph_geoip h" "ph_auth_key g = ph_auth_key h"
    "ph_trust_forwarded_for g = ph_trust_forwarded_for h" "ph_trusted_proxies g = ph_trusted_proxies h"
    "ph_forwarded g = ph_forwarded h" "ph_access_log g = ph_access_log h" "ph_requests g = ph_requests h"
  using assms by (cases h; cases g; simp add: same_handler_def)+

definition keeps :: "serve_ctx \<Rightarrow> serve_ctx \<Rightarrow> bool" where
  "keeps c d \<longleftrightarrow> same_request (fst (snd c)) (fst (snd d)) \<and> same_handler (snd (snd c)) (snd (snd d))"

lemma keeps_refl [simp]: "keeps c c"
  by (simp add: keeps_def)

lemma keeps_trans: "keeps c d \<Longrightarrow> keeps d e \<Longrightarrow> keeps c e"
  unfolding keeps_def using same_request_trans same_handler_trans by blast

lemma same_request_inspection: "inspection_body r limit = (res, r') \<Longrightarrow> same_request r r'"
  by (cases r) (auto simp: inspection_body_def same_request_def same_info_def option.rel_sel split: option.splits if_splits)

text \<open>The stages that only look.\<close>

lemmas answer_defs = refuse_def answer_with_def pass_def keeps_def same_handler_def

lemma keeps_refuse [simp]: "refuse s t f c = Some (a, c') \<Longrightarrow> keeps c c'"
  by (cases c) (auto simp: answer_defs)

lemma stage_block_list_keeps: "stage_block_list ip c = Some (a, c') \<Longrightarrow> keeps c c'"
  by (cases c) (auto simp: stage_block_list_def answer_defs split: if_splits)

lemma stage_country_keeps: "stage_country al ip entry domain matched c = Some (a, c') \<Longrightarrow> keeps c c'"
  by (cases c) (auto simp: stage_country_def answer_defs split: if_splits sum.splits prod.splits)

lemma stage_global_limit_keeps: "stage_global_limit env al c = Some (a, c') \<Longrightarrow> keeps c c'"
  by (cases c) (auto simp: stage_global_limit_def answer_defs Let_def split: if_splits option.splits prod.splits)

lemma stage_known_host_keeps: "stage_known_host matched c = Some (a, c') \<Longrightarrow> keeps c c'"
  by (cases c) (auto simp: stage_known_host_def answer_defs split: if_splits)

lemma stage_rate_limit_keeps: "stage_rate_limit env al ip domain tenant c = Some (a, c') \<Longrightarrow> keeps c c'"
  by (cases c) (auto simp: stage_rate_limit_def answer_defs Let_def split: if_splits prod.splits)

lemma stage_jwt_keeps: "stage_jwt env tenant c = Some (a, c') \<Longrightarrow> keeps c c'"
  by (cases c) (auto simp: stage_jwt_def answer_defs Let_def split: if_splits prod.splits)

lemma check_basic_auth_keeps: "check_basic_auth env k creds r cache = (ok, r', cache') \<Longrightarrow> same_request r r'"
  by (cases r) (auto simp: check_basic_auth_def same_request_def same_info_def option.rel_sel Let_def map_option_case
      split: option.splits prod.splits if_splits)

lemma stage_basic_auth_keeps: "stage_basic_auth env domain tenant c = Some (a, c') \<Longrightarrow> keeps c c'"
  by (cases c) (auto simp: stage_basic_auth_def answer_defs Let_def dest: check_basic_auth_keeps split: if_splits prod.splits)

lemma stage_crowdsec_keeps: "stage_crowdsec env ip domain tenant c = Some (a, c') \<Longrightarrow> keeps c c'"
  by (cases c) (auto simp: stage_crowdsec_def answer_defs Let_def split: if_splits prod.splits sum.splits)

lemma waf_phase_two_request: "waf_phase_two reg waf tx_id ev r w st = (a, ev', w', r', st') \<Longrightarrow> r' = r"
  by (auto simp: waf_phase_two_def Let_def split: if_splits prod.splits)

lemma waf_body_request:
  "waf_body reg limit waf tx_id tenant ev r w st = (a, ev', w', r', st') \<Longrightarrow> same_request r r'"
  by (auto simp: waf_body_def Let_def dest!: waf_phase_two_request same_request_inspection
      split: if_split_asm prod.split_asm sum.split_asm inspection_error.split_asm)

lemma apply_waf_request:
  assumes "apply_waf reg limit ip_of tx_id waf r w st = (a, w', r', st')"
  shows "same_request r r'"
proof -
  obtain tenant ip st1 ev st2 where "waf_phases reg limit waf tx_id tenant ip r w st1 = (a, ev, w', r', st2)"
    using assms by (fastforce simp: apply_waf_def Let_def split: prod.splits)
  then show ?thesis by (auto simp: waf_phases_def Let_def dest: waf_body_request split: if_splits prod.splits)
qed

lemma apply_graphql_request:
  "apply_graphql_protection env reg limit policy r w m = (a, w', r', m') \<Longrightarrow> same_request r r'"
  by (auto simp: apply_graphql_protection_def Let_def dest!: same_request_inspection
      split: if_splits prod.splits sum.splits inspection_error.splits)

lemma apply_llm_request:
  "apply_llm_protection env reg limit policy r w st = Some (a, w', r', st') \<Longrightarrow> same_request r r'"
  by (auto simp: apply_llm_protection_def Let_def dest!: same_request_inspection
      split: if_splits option.splits prod.splits sum.splits inspection_error.splits)

lemma stage_waf_keeps: "stage_waf env entry c = Some (a, c') \<Longrightarrow> keeps c c'"
  by (cases c) (auto simp: stage_waf_def answer_defs Let_def dest: apply_waf_request split: option.splits prod.splits)

lemma stage_graphql_keeps: "stage_graphql env tenant c = Some (a, c') \<Longrightarrow> keeps c c'"
  by (cases c) (auto simp: stage_graphql_def answer_defs Let_def dest: apply_graphql_request split: if_splits prod.splits)

lemma stage_llm_keeps: "stage_llm env tenant c = Some (a, c') \<Longrightarrow> keeps c c'"
  by (cases c) (auto simp: stage_llm_def answer_defs dest: apply_llm_request split: if_splits prod.splits)

text \<open>Sequences of stages that keep what they should.\<close>

lemma run_stages_keeps:
  "\<lbrakk> \<forall>s \<in> set ss. \<forall>c a c'. s c = Some (a, c') \<longrightarrow> keeps c c'; run_stages ss c = Some (a, d) \<rbrakk> \<Longrightarrow> keeps c d"
proof (induction ss arbitrary: c)
  case Nil
  then show ?case by simp
next
  case (Cons s ss)
  then obtain a' c' where s: "s c = Some (a', c')" by (auto split: option.splits)
  have k: "keeps c c'" using Cons.prems(1) s by (meson list.set_intros(1))
  have ss: "\<forall>s \<in> set ss. \<forall>c a c'. s c = Some (a, c') \<longrightarrow> keeps c c'" using Cons.prems(1) by (meson list.set_intros(2))
  show ?case
  proof (cases a')
    case True
    then show ?thesis using Cons.prems(2) s k by simp
  next
    case False
    then have "run_stages ss c' = Some (a, d)" using Cons.prems(2) s by simp
    then show ?thesis using Cons.IH [OF ss] k keeps_trans by blast
  qed
qed

lemma run_stages_Cons_passed:
  "run_stages (s # ss) c = Some (False, d) \<Longrightarrow> \<exists>c'. s c = Some (False, c') \<and> run_stages ss c' = Some (False, d)"
  by (auto split: option.splits prod.splits if_splits)

lemma stage_content_keeps: "stage_content env al entry c = Some (a, c') \<Longrightarrow> keeps c c'"
proof -
  assume s: "stage_content env al entry c = Some (a, c')"
  have "keeps c c'" if "run_stages [stage_waf env entry, stage_graphql env (en_tenant entry), stage_llm env (en_tenant entry)] c = Some (a, c')"
    using run_stages_keeps [OF _ that] stage_waf_keeps stage_graphql_keeps stage_llm_keeps by auto
  then show ?thesis using s by (cases c) (auto simp: stage_content_def pass_def simp del: run_stages.simps split: if_splits)
qed

lemmas stage_keeps = stage_block_list_keeps stage_country_keeps stage_global_limit_keeps stage_known_host_keeps
  stage_rate_limit_keeps stage_jwt_keeps stage_basic_auth_keeps stage_crowdsec_keeps stage_content_keeps

lemma serve_stages_keeps:
  assumes "run_stages (serve_stages env h info) c = Some (a, d)"
  shows "keeps c d"
proof -
  have "\<forall>s \<in> set (serve_stages env h info). \<forall>c a c'. s c = Some (a, c') \<longrightarrow> keeps c c'"
    by (auto simp: serve_stages_def Let_def simp del: split_paired_All intro: stage_keeps)
  then show ?thesis using run_stages_keeps assms by blast
qed

subsection \<open>Lemmas: what a passed stage tells\<close>

lemma stage_block_list_passed: "stage_block_list ip (w, r, h) = Some (False, d) \<Longrightarrow> \<not> list_contains_ip (ph_block_ips h) ip"
  by (auto simp: stage_block_list_def refuse_def split: if_splits)

lemma stage_known_host_passed: "stage_known_host matched c = Some (False, d) \<Longrightarrow> matched"
  by (cases c) (auto simp: stage_known_host_def refuse_def split: if_splits)

text \<open>The verdict of a dependency: it cleared the request, or failed in fail-open mode.\<close>

definition country_cleared :: "proxy_handler \<Rightarrow> addr option \<Rightarrow> string list \<Rightarrow> bool" where
  "country_cleared h ip blocked \<longleftrightarrow>
     (case lookup_country (ph_geoip h) ip of
        Inl _ \<Rightarrow> \<not> fail_closed h
      | Inr (country, found) \<Rightarrow> \<not> (found \<and> country \<in> set blocked))"

lemma stage_country_passed:
  "\<lbrakk> stage_country False ip entry domain True (w, r, h) = Some (False, d); opt_true (sp_geoip_enabled (tn_security (en_tenant entry))) \<rbrakk> \<Longrightarrow>
   country_cleared h ip (sp_blocked_countries (tn_security (en_tenant entry)))"
  by (auto simp: stage_country_def country_cleared_def refuse_def answer_with_def split: if_splits sum.splits prod.splits)

definition crowdsec_cleared :: "serve_env \<Rightarrow> proxy_handler \<Rightarrow> string \<Rightarrow> bool" where
  "crowdsec_cleared env h client_ip \<longleftrightarrow>
     (if ph_bouncer h
      then case fst (crowd_sec_banned (sv_crowdsec_evict env) (sv_lapi env) (ph_crowdsec_ttl h) (sv_now env) client_ip (ph_crowdsec h)) of
             Inl _ \<Rightarrow> \<not> fail_closed h | Inr banned \<Rightarrow> \<not> banned
      else \<not> fail_closed h)"

lemma fail_closed_same: "same_handler h g \<Longrightarrow> fail_closed g = fail_closed h"
  by (simp add: fail_closed_def get_dependency_fail_mode_def same_handler_fields)

lemma stage_crowdsec_passed:
  assumes "stage_crowdsec env ip domain tenant (w, r, h) = Some (False, d)" "opt_true (sp_crowdsec_enabled (tn_security tenant))"
  shows "crowdsec_cleared env h ip"
proof (cases "ph_bouncer h")
  case False
  then show ?thesis using assms by (auto simp: stage_crowdsec_def crowdsec_cleared_def refuse_def split: if_splits)
next
  case True
  obtain res cs where c: "crowd_sec_banned (sv_crowdsec_evict env) (sv_lapi env) (ph_crowdsec_ttl h) (sv_now env) ip (ph_crowdsec h) = (res, cs)"
    by fastforce
  have f: "fail_closed (h\<lparr>ph_crowdsec := cs\<rparr>) = fail_closed h"
    by (simp add: fail_closed_def get_dependency_fail_mode_def)
  have "case res of Inl _ \<Rightarrow> \<not> fail_closed h | Inr banned \<Rightarrow> \<not> banned"
    using assms True c f by (auto simp: stage_crowdsec_def refuse_def split: if_splits sum.splits)
  then show ?thesis unfolding crowdsec_cleared_def using True c by simp
qed

lemma stage_jwt_passed:
  "\<lbrakk> stage_jwt env tenant (w, r, h) = Some (False, d); jwt_enabled (sp_jwt (tn_security tenant)) \<rbrakk> \<Longrightarrow>
   fst (validate_jwt (sv_jwt_lib env) (sv_jwks env) (sv_jwks_clock env) (sp_jwt (tn_security tenant)) r w (ph_jwks h))"
  by (auto simp: stage_jwt_def Let_def split: prod.splits)

lemma stage_basic_auth_passed:
  "\<lbrakk> stage_basic_auth env domain tenant (w, r, h) = Some (False, d); sp_basic_auth (tn_security tenant) \<noteq> [] \<rbrakk> \<Longrightarrow>
   fst (check_basic_auth (sv_auth env) (ph_auth_key h) (sp_basic_auth (tn_security tenant)) r (ph_auth_cache h))"
  by (auto simp: stage_basic_auth_def Let_def refuse_def split: prod.splits if_splits)

lemma stage_waf_passed:
  "\<lbrakk> stage_waf env entry (w, r, h) = Some (False, d); en_waf entry = Some waf \<rbrakk> \<Longrightarrow>
   \<exists>st. \<not> fst (apply_waf (ph_registry h) (ph_request_body_limit h)
     (client_ip_for (ph_trust_forwarded_for h) (trusted_proxies_of (ph_trusted_proxies h))) (sv_tx_id env) waf r w st)"
  by (auto simp: stage_waf_def Let_def split: prod.splits) (metis fst_conv)

lemma stage_graphql_passed:
  "\<lbrakk> stage_graphql env tenant (w, r, h) = Some (False, d); gq_enabled (sp_graphql (tn_security tenant)) \<rbrakk> \<Longrightarrow>
   \<exists>m. \<not> fst (apply_graphql_protection (sv_graphql env) (ph_registry h) (ph_request_body_limit h) (sp_graphql (tn_security tenant)) r w m)"
  by (auto simp: stage_graphql_def Let_def split: prod.splits) (metis fst_conv)

lemma stage_llm_passed:
  "\<lbrakk> stage_llm env tenant (w, r, h) = Some (False, d); llm_enabled (sp_llm (tn_security tenant)) \<rbrakk> \<Longrightarrow>
   \<exists>st x. apply_llm_protection (sv_llm env) (ph_registry h) (ph_request_body_limit h) (sp_llm (tn_security tenant)) r w st = Some (False, x)"
  by (auto simp: stage_llm_def split: prod.splits) blast

text \<open>The stages before authentication leave the request and the caches of the later stages as they are.\<close>

definition untouched :: "serve_ctx \<Rightarrow> serve_ctx \<Rightarrow> bool" where
  "untouched c d \<longleftrightarrow> keeps c d \<and> fst (snd d) = fst (snd c) \<and> ph_jwks (snd (snd d)) = ph_jwks (snd (snd c)) \<and>
     ph_auth_cache (snd (snd d)) = ph_auth_cache (snd (snd c)) \<and> ph_crowdsec (snd (snd d)) = ph_crowdsec (snd (snd c))"

lemma untouched_trans: "untouched c d \<Longrightarrow> untouched d e \<Longrightarrow> untouched c e"
  unfolding untouched_def using keeps_trans by metis

lemmas untouched_defs = untouched_def refuse_def answer_with_def pass_def Let_def

lemma early_stages_untouched:
  "stage_block_list ip c = Some (a, d) \<Longrightarrow> untouched c d"
  "stage_country al ip entry domain matched c = Some (a, d) \<Longrightarrow> untouched c d"
  "stage_global_limit env al c = Some (a, d) \<Longrightarrow> untouched c d"
  "stage_known_host matched c = Some (a, d) \<Longrightarrow> untouched c d"
  "stage_rate_limit env al client domain tenant c = Some (a, d) \<Longrightarrow> untouched c d"
  using stage_block_list_keeps [of ip c a d] stage_country_keeps [of al ip entry domain matched c a d]
    stage_global_limit_keeps [of env al c a d] stage_known_host_keeps [of matched c a d]
    stage_rate_limit_keeps [of env al client domain tenant c a d]
  by (cases c; auto simp: untouched_defs stage_block_list_def stage_country_def stage_global_limit_def stage_known_host_def
      stage_rate_limit_def split: if_splits sum.splits prod.splits option.splits)+

lemma stage_jwt_untouched:
  "stage_jwt env tenant (w, r, h) = Some (a, w', r', h') \<Longrightarrow>
   r' = r \<and> ph_auth_cache h' = ph_auth_cache h \<and> ph_crowdsec h' = ph_crowdsec h"
  by (auto simp: stage_jwt_def pass_def Let_def split: if_splits prod.splits)

lemma stage_basic_auth_untouched:
  "stage_basic_auth env domain tenant (w, r, h) = Some (a, w', r', h') \<Longrightarrow> ph_crowdsec h' = ph_crowdsec h"
  by (auto simp: stage_basic_auth_def refuse_def pass_def Let_def split: if_splits prod.splits)

subsection \<open>Lemmas: the whole pipeline\<close>

text \<open>The content inspections let the request pass, each on the request as the one before it left it.\<close>

definition content_cleared :: "serve_env \<Rightarrow> proxy_handler \<Rightarrow> entry \<Rightarrow> request \<Rightarrow> bool" where
  "content_cleared env h entry r \<longleftrightarrow>
     (\<forall>waf. en_waf entry = Some waf \<longrightarrow> (\<exists>s w st. same_request r s \<and>
        \<not> fst (apply_waf (ph_registry h) (ph_request_body_limit h)
            (client_ip_for (ph_trust_forwarded_for h) (trusted_proxies_of (ph_trusted_proxies h))) (sv_tx_id env) waf s w st))) \<and>
     (gq_enabled (sp_graphql (tn_security (en_tenant entry))) \<longrightarrow> (\<exists>s w m. same_request r s \<and>
        \<not> fst (apply_graphql_protection (sv_graphql env) (ph_registry h) (ph_request_body_limit h)
            (sp_graphql (tn_security (en_tenant entry))) s w m))) \<and>
     (llm_enabled (sp_llm (tn_security (en_tenant entry))) \<longrightarrow> (\<exists>s w st x. same_request r s \<and>
        apply_llm_protection (sv_llm env) (ph_registry h) (ph_request_body_limit h)
          (sp_llm (tn_security (en_tenant entry))) s w st = Some (False, x)))"

lemma stage_content_passed:
  assumes "stage_content env False entry (w, r, h) = Some (False, d)"
    and "\<not> dev_bypass_granted r (sp_dev_bypass_secret (tn_security (en_tenant entry)))"
  shows "content_cleared env h entry r"
proof -
  let ?t = "en_tenant entry"
  have "run_stages [stage_waf env entry, stage_graphql env ?t, stage_llm env ?t] (w, r, h) = Some (False, d)"
    using assms by (simp add: stage_content_def)
  then obtain c1 c2 where 1: "stage_waf env entry (w, r, h) = Some (False, c1)"
    and 2: "stage_graphql env ?t c1 = Some (False, c2)" and 3: "stage_llm env ?t c2 = Some (False, d)"
    by (auto dest!: run_stages_Cons_passed simp del: run_stages.simps(2))
  obtain w1 r1 h1 w2 r2 h2 where c: "c1 = (w1, r1, h1)" "c2 = (w2, r2, h2)" by (cases c1; cases c2)
  have k1: "same_request r r1" "same_handler h h1" using stage_waf_keeps [OF 1] c by (simp_all add: keeps_def)
  have k2: "same_request r r2" "same_handler h h2"
    using stage_graphql_keeps [OF 2] c k1 same_request_trans same_handler_trans by (fastforce simp: keeps_def)+
  show ?thesis
    unfolding content_cleared_def
    using stage_waf_passed [OF 1] stage_graphql_passed [OF 2 [unfolded c]] stage_llm_passed [OF 3 [unfolded c]] k1 k2
    by (simp add: same_handler_fields) (metis same_request_refl)
qed

text \<open>All that a request has passed when it reaches the last stage.\<close>

definition cleared :: "serve_env \<Rightarrow> proxy_handler \<Rightarrow> entry \<Rightarrow> string \<Rightarrow> request \<Rightarrow> bool" where
  "cleared env h entry client_ip r \<longleftrightarrow>
     (let ip = parse_addr client_ip; policy = tn_security (en_tenant entry); allowlisted = list_contains_ip (ph_allow_ips h) ip
      in \<not> list_contains_ip (ph_block_ips h) ip \<and>
         (\<not> allowlisted \<and> opt_true (sp_geoip_enabled policy) \<longrightarrow> country_cleared h ip (sp_blocked_countries policy)) \<and>
         (jwt_enabled (sp_jwt policy) \<longrightarrow>
            (\<exists>w. fst (validate_jwt (sv_jwt_lib env) (sv_jwks env) (sv_jwks_clock env) (sp_jwt policy) r w (ph_jwks h)))) \<and>
         (sp_basic_auth policy \<noteq> [] \<longrightarrow>
            fst (check_basic_auth (sv_auth env) (ph_auth_key h) (sp_basic_auth policy) r (ph_auth_cache h))) \<and>
         (opt_true (sp_crowdsec_enabled policy) \<longrightarrow> crowdsec_cleared env h client_ip) \<and>
         (\<not> allowlisted \<and> \<not> dev_bypass_granted r (sp_dev_bypass_secret policy) \<longrightarrow> content_cleared env h entry r))"

lemma dev_bypass_same: "same_request r s \<Longrightarrow> dev_bypass_granted s secret = dev_bypass_granted r secret"
  by (simp add: dev_bypass_granted_def same_request_fields)

lemma content_cleared_same:
  "\<lbrakk> content_cleared env g entry s; same_request r s; same_handler h g \<rbrakk> \<Longrightarrow> content_cleared env h entry r"
  unfolding content_cleared_def by (simp add: same_handler_fields) (meson same_request_trans)

lemma crowdsec_cleared_same:
  "\<lbrakk> crowdsec_cleared env g ip; same_handler h g; ph_crowdsec g = ph_crowdsec h \<rbrakk> \<Longrightarrow> crowdsec_cleared env h ip"
  by (auto simp: crowdsec_cleared_def same_handler_fields fail_closed_same split: if_splits sum.splits)

lemma country_cleared_same: "\<lbrakk> country_cleared g ip cs; same_handler h g \<rbrakk> \<Longrightarrow> country_cleared h ip cs"
  by (auto simp: country_cleared_def same_handler_fields fail_closed_same split: sum.splits prod.splits)

lemma serve_stages_passed:
  assumes "run_stages (serve_stages env h info) (w, r, h) = Some (False, d)"
  shows "ri_matched info \<and> cleared env h (ri_entry info) (ri_client_ip info) r"
proof -
  let ?ip = "parse_addr (ri_client_ip info)" and ?e = "ri_entry info" and ?d = "ri_tenant info"
  let ?t = "en_tenant ?e" and ?al = "list_contains_ip (ph_allow_ips h) ?ip"
  obtain c1 c2 c3 c4 c5 c6 c7 c8 where
    1: "stage_block_list ?ip (w, r, h) = Some (False, c1)" and
    2: "stage_country ?al ?ip ?e ?d (ri_matched info) c1 = Some (False, c2)" and
    3: "stage_global_limit env ?al c2 = Some (False, c3)" and
    4: "stage_known_host (ri_matched info) c3 = Some (False, c4)" and
    5: "stage_rate_limit env ?al (ri_client_ip info) ?d ?t c4 = Some (False, c5)" and
    6: "stage_jwt env ?t c5 = Some (False, c6)" and
    7: "stage_basic_auth env ?d ?t c6 = Some (False, c7)" and
    8: "stage_crowdsec env (ri_client_ip info) ?d ?t c7 = Some (False, c8)" and
    9: "stage_content env ?al ?e c8 = Some (False, d)"
    using assms unfolding serve_stages_def Let_def
    by (auto dest!: run_stages_Cons_passed simp del: run_stages.simps(2) split_paired_Ex)
  obtain w1 r1 h1 w5 r5 h5 w6 r6 h6 w7 r7 h7 w8 r8 h8 where
    c: "c1 = (w1, r1, h1)" "c5 = (w5, r5, h5)" "c6 = (w6, r6, h6)" "c7 = (w7, r7, h7)" "c8 = (w8, r8, h8)"
    by (cases c1; cases c5; cases c6; cases c7; cases c8)
  have u1: "untouched (w, r, h) c1" using early_stages_untouched(1) [OF 1] .
  have u5: "untouched (w, r, h) c5"
    using u1 early_stages_untouched(2) [OF 2] early_stages_untouched(3) [OF 3] early_stages_untouched(4) [OF 4]
      early_stages_untouched(5) [OF 5] untouched_trans by meson
  have k6: "keeps (w, r, h) c6" using u5 stage_jwt_keeps [OF 6] keeps_trans unfolding untouched_def by blast
  have k7: "keeps (w, r, h) c7" using k6 stage_basic_auth_keeps [OF 7] keeps_trans by blast
  have k8: "keeps (w, r, h) c8" using k7 stage_crowdsec_keeps [OF 8] keeps_trans by blast
  have m: "ri_matched info" using stage_known_host_passed [OF 4] .
  have f5: "r5 = r" "ph_jwks h5 = ph_jwks h" "ph_auth_cache h5 = ph_auth_cache h" "ph_crowdsec h5 = ph_crowdsec h" "same_handler h h5"
    using u5 by (simp_all add: untouched_def keeps_def c)
  have f6: "r6 = r" "ph_auth_cache h6 = ph_auth_cache h" "ph_crowdsec h6 = ph_crowdsec h" "same_handler h h6"
    using stage_jwt_untouched [OF 6 [unfolded c]] f5 k6 by (simp_all add: keeps_def c)
  have f7: "ph_crowdsec h7 = ph_crowdsec h" "same_handler h h7"
    using stage_basic_auth_untouched [OF 7 [unfolded c]] f6 k7 by (simp_all add: keeps_def c)
  have f8: "same_request r r8" "same_handler h h8" using k8 by (simp_all add: keeps_def c)
  have f1: "same_handler h h1" using u1 by (simp add: untouched_def keeps_def c)
  have "\<not> list_contains_ip (ph_block_ips h) ?ip" using stage_block_list_passed [OF 1] .
  moreover have "country_cleared h ?ip (sp_blocked_countries (tn_security ?t))"
    if "\<not> ?al" "opt_true (sp_geoip_enabled (tn_security ?t))"
    using stage_country_passed [of ?ip ?e ?d w1 r1 h1] 2 that m c country_cleared_same f1 by simp
  moreover have "fst (validate_jwt (sv_jwt_lib env) (sv_jwks env) (sv_jwks_clock env) (sp_jwt (tn_security ?t)) r w5 (ph_jwks h))"
    if "jwt_enabled (sp_jwt (tn_security ?t))"
    using stage_jwt_passed [OF 6 [unfolded c] that] f5 by simp
  moreover have "fst (check_basic_auth (sv_auth env) (ph_auth_key h) (sp_basic_auth (tn_security ?t)) r (ph_auth_cache h))"
    if "sp_basic_auth (tn_security ?t) \<noteq> []"
    using stage_basic_auth_passed [OF 7 [unfolded c] that] f6 by (simp add: same_handler_fields)
  moreover have "crowdsec_cleared env h (ri_client_ip info)" if "opt_true (sp_crowdsec_enabled (tn_security ?t))"
    using stage_crowdsec_passed [OF 8 [unfolded c] that] crowdsec_cleared_same f7 by blast
  moreover have "content_cleared env h ?e r" if "\<not> ?al" "\<not> dev_bypass_granted r (sp_dev_bypass_secret (tn_security ?t))"
    using stage_content_passed [of env ?e w8 r8 h8 d] 9 that c f8 dev_bypass_same content_cleared_same by auto
  ultimately show ?thesis using m unfolding cleared_def Let_def by blast
qed

lemma proxy_upstream_forwards:
  "proxy_upstream env domain tenant i ts (w, r, h) = (p, w', r', h') \<Longrightarrow>
   ph_forwarded h' = ph_forwarded h @
     [(domain, i, rewrite_request domain tenant (us_url (ts_upstreams ts ! i)) r (sv_out_header env r))] \<and>
   ph_access_log h' = ph_access_log h \<and> ph_requests h' = ph_requests h \<and> r' = r"
  by (auto simp: proxy_upstream_def Let_def split: round_trip.splits prod.splits sum.splits)

lemma serve_upstream_forwards:
  assumes "serve_upstream env domain (w, r, h) = (p, w', r', h')"
  shows "ph_access_log h' = ph_access_log h \<and> ph_requests h' = ph_requests h \<and> r' = r \<and>
    (ph_forwarded h' = ph_forwarded h \<or>
     (\<exists>ts i ts'. map_of (ph_tenant_states h) domain = Some ts \<and> select_upstream (sv_now env) ts = (Some i, ts') \<and>
        ph_forwarded h' = ph_forwarded h @
          [(domain, i, rewrite_request domain (ph_proxy_tenants h domain) (us_url (ts_upstreams ts' ! i)) r (sv_out_header env r))]))"
proof (cases "map_of (ph_tenant_states h) domain")
  case None
  then show ?thesis using assms by (auto simp: serve_upstream_def)
next
  case (Some ts)
  obtain choice ts' where s: "select_upstream (sv_now env) ts = (choice, ts')" by fastforce
  show ?thesis
  proof (cases choice)
    case None
    then show ?thesis using assms Some s by (auto simp: serve_upstream_def)
  next
    case (Some i)
    then show ?thesis
      using assms \<open>map_of (ph_tenant_states h) domain = Some ts\<close> s
      by (auto simp: serve_upstream_def dest: proxy_upstream_forwards)
  qed
qed

lemma serve_finish_forwarded: "serve_finish ip m (p, w, r, h) = (w', r', h') \<Longrightarrow> ph_forwarded h' = ph_forwarded h"
  by (auto simp: serve_finish_def Let_def split: if_splits)

lemma resolve_request_info:
  "\<exists>info. rq_info (resolve_request h r) = Some info \<and>
     ri_client_ip info = client_ip_from_request r (ph_trust_forwarded_for h) (trusted_proxies_of (ph_trusted_proxies h)) \<and>
     (case registry_get (ph_registry h) (rq_host r) of
        Some (e, d) \<Rightarrow> ri_matched info \<and> ri_entry info = e \<and> ri_tenant info = d
      | None \<Rightarrow> \<not> ri_matched info)"
  by (auto simp: resolve_request_def with_request_info_def Let_def split: option.splits prod.splits)

text \<open>The two ways through \<open>ServeHTTP\<close>: a stage answers, or all pass and the last one runs.\<close>

lemma serve_http_cases:
  assumes "serve_http env w r h = Some (w', r', h')" "rq_info (resolve_request h r) = Some info"
    and "tm = (if ri_matched info then ri_tenant info else ''unmatched'')"
  obtains (answered) c where "run_stages (serve_stages env h info) (new_log_writer w, resolve_request h r, h) = Some (True, c)"
      "serve_finish (ri_client_ip info) tm (None, c) = (w', r', h')"
    | (passed) c where "run_stages (serve_stages env h info) (new_log_writer w, resolve_request h r, h) = Some (False, c)"
      "serve_finish (ri_client_ip info) tm (serve_upstream env (ri_tenant info) c) = (w', r', h')"
  using assms by (auto simp: serve_http_def Let_def simp del: split_paired_Ex split_paired_All split: if_splits)

subsection \<open>Properties\<close>

definition sample_handler :: proxy_handler where
  "sample_handler = \<lparr>ph_registry = sample_registry, ph_bouncer = False, ph_crowdsec = \<lparr>cs_cache = [], cs_healthy = True\<rparr>, ph_crowdsec_ttl = 0,
     ph_crowdsec_required = False, ph_tenant_states = [(''a.com'', sample_state)], ph_proxy_tenants = (\<lambda>_. zero_tenant),
     ph_request_body_limit = 0, ph_response_masking_limit = 0, ph_dependency_mode = None,
     ph_rate = \<lparr>rt_coordinator = None, rt_limiters = []\<rparr>, ph_llm_cache = [], ph_global_limiter = None, ph_jwks = empty_jwks,
     ph_allow_ips = None, ph_block_ips = Some [\<lparr>pfx_addr = Addr4 0x06060606, pfx_bits = 32\<rparr>], ph_trust_forwarded_for = False,
     ph_trusted_proxies = None, ph_auth_cache = [], ph_auth_key = ''k'', ph_active_tx = [], ph_geoip = None, ph_blocked = [],
     ph_audit = [], ph_rule_matches = [], ph_upstream_metrics = \<lparr>um_healthy = [], um_requests = []\<rparr>, ph_requests = [],
     ph_access_log = [], ph_forwarded = []\<rparr>"

definition sample_serve_env :: serve_env where
  "sample_serve_env = \<lparr>sv_now = 63900000000 * second, sv_bucket = (\<lambda>_ _ _ _. True), sv_rate_evict = keep_all,
     sv_rpc = \<lparr>re_dial = None, re_deadline_before = True, re_call = (\<lambda>_. None), re_deadline_after = True, re_time = (\<lambda>_. 0)\<rparr>,
     sv_jwt_lib = \<lparr>jl_header = (\<lambda>_. None), jl_verify = (\<lambda>_ _ _ _ _. False)\<rparr>,
     sv_jwks = \<lparr>ev_fetch = (\<lambda>_ _. None), ev_unmarshal = (\<lambda>_. None), ev_on_curve = (\<lambda>_ _. False)\<rparr>,
     sv_jwks_clock = (\<lambda>_. (0, 0, 0)), sv_auth = sample_auth_env, sv_crowdsec_evict = keep_all, sv_lapi = (\<lambda>_. None), sv_tx_id = ''tx'',
     sv_graphql = \<lparr>ge_parse = (\<lambda>_. None), ge_unmarshal = (\<lambda>_. None)\<rparr>, sv_llm = sample_llm_env, sv_compile = (\<lambda>_. None),
     sv_detect = (\<lambda>_. []), sv_out_header = (\<lambda>_. []), sv_round_trip = (\<lambda>_ _. Failed TransportError), sv_ctx_err = False\<rparr>"

lemma sample_serve:
  "map_option (\<lambda>(w, r, h). (length (ph_forwarded h), length (ph_access_log h), lw_status w))
     (serve_http sample_serve_env fresh_writer sample_request sample_handler) = Some (1, 1, 502)"
  by code_simp

lemma sample_serve_result:
  obtains w' r' h' where "serve_http sample_serve_env fresh_writer sample_request sample_handler = Some (w', r', h')"
    "length (ph_forwarded h') = 1" "lw_status w' = 502"
proof (cases "serve_http sample_serve_env fresh_writer sample_request sample_handler")
  case None
  then show ?thesis using sample_serve by simp
next
  case (Some c)
  then show ?thesis using sample_serve that by (cases c) auto
qed





end
