(* ===== verification/Handlers.thy ===== *)
theory Handlers
  imports Serve
begin

text \<open>
  The HTTP handlers around the pipeline (\<open>internal/waf/http_handler.go\<close>), the
  readiness report (\<open>readiness.go\<close>) and the construction of the \<open>ProxyHandler\<close>.
\<close>

subsection \<open>Readiness\<close>

(* src: internal/waf/readiness.go:6-12 ReadinessReport *)
record readiness_report =
  rr_ready :: bool
  rr_configured_tenants :: int
  rr_tenants_with_healthy_upstream :: int
  rr_reasons :: "string list"

text \<open>The reason that a tenant adds, if it is not ready.\<close>

(* src: internal/waf/readiness.go:39-63 ReadinessReport (one tenant) *)
definition tenant_reason :: "(string \<times> tenant_state) list \<Rightarrow> string \<Rightarrow> string option" where
  "tenant_reason states name =
     (case map_of states name of
        None \<Rightarrow> Some (''tenant '' @ name @ '' has no upstream state'')
      | Some state \<Rightarrow>
          if ts_upstreams state = [] then Some (''tenant '' @ name @ '' has no configured upstreams'')
          else if list_ex us_is_healthy (ts_upstreams state) then None
          else Some (''tenant '' @ name @ '' has no healthy upstream''))"

(* src: internal/waf/readiness.go:38-64 ReadinessReport (loop) *)
fun tenant_reasons :: "(string \<times> tenant_state) list \<Rightarrow> string list \<Rightarrow> int \<times> string list" where
  "tenant_reasons states [] = (0, [])"
| "tenant_reasons states (name # names) =
     (let (healthy, reasons) = tenant_reasons states names
      in case tenant_reason states name of
           None \<Rightarrow> (healthy + 1, reasons)
         | Some reason \<Rightarrow> (healthy, reason # reasons))"

(* src: internal/waf/readiness.go:15-68 ProxyHandler.ReadinessReport *)
definition readiness :: "proxy_handler \<Rightarrow> readiness_report" where
  "readiness h =
     (let crowdsec = (if ph_crowdsec_required h \<and> (\<not> ph_bouncer h \<or> \<not> cs_healthy (ph_crowdsec h))
                      then [''crowdsec is required by fail-closed policy but is unavailable''] else []);
          names = map fst (rg_mapping (ph_registry h));
          none = (if names = [] then [''no tenants are configured''] else []);
          (healthy, reasons) = tenant_reasons (ph_tenant_states h) names;
          all_reasons = crowdsec @ none @ reasons
      in \<lparr>rr_ready = (all_reasons = []), rr_configured_tenants = int (length names),
          rr_tenants_with_healthy_upstream = healthy, rr_reasons = all_reasons\<rparr>)"

subsection \<open>Handlers\<close>

text \<open>These handlers write to the server's writer directly; the wrapper only adds its own record of the answer.\<close>

(* src: internal/waf/http_handler.go:50-59 livezHandler *)
definition livez_handler :: "request \<Rightarrow> log_writer \<Rightarrow> log_writer" where
  "livez_handler r w =
     (if rq_method r \<noteq> ''GET'' \<and> rq_method r \<noteq> ''HEAD''
      then http_error ''method not allowed'' 405 (lw_set_header ''Allow'' ''GET, HEAD'' w)
      else lw_write ''ok'' (lw_write_header 200 w))"

text \<open>\<open>encode\<close> is the JSON encoder.\<close>

(* src: internal/waf/http_handler.go:61-79 readyzHandler *)
definition readyz_handler :: "(readiness_report \<Rightarrow> string) \<Rightarrow> readiness_report \<Rightarrow> request \<Rightarrow> log_writer \<Rightarrow> log_writer" where
  "readyz_handler encode report r w =
     (if rq_method r \<noteq> ''GET'' \<and> rq_method r \<noteq> ''HEAD''
      then http_error ''method not allowed'' 405 (lw_set_header ''Allow'' ''GET, HEAD'' w)
      else json_answer (encode report) (if rr_ready report then 200 else 503) w)"

text \<open>\<open>http.ServeMux\<close> for a path in its clean form; \<open>metrics\<close> is the Prometheus handler.\<close>

(* src: internal/waf/http_handler.go:41-48 NewAdminHTTPHandler *)
definition admin_http_handler ::
  "(readiness_report \<Rightarrow> string) \<Rightarrow> (request \<Rightarrow> log_writer \<Rightarrow> log_writer) \<Rightarrow> proxy_handler \<Rightarrow> request \<Rightarrow> log_writer \<Rightarrow> log_writer" where
  "admin_http_handler encode metrics h r w =
     (if rq_path r = ''/livez'' \<or> rq_path r = ''/healthz'' then livez_handler r w
      else if rq_path r = ''/readyz'' then readyz_handler encode (readiness h) r w
      else if rq_path r = ''/metrics'' then metrics r w
      else http_error ''404 page not found'' 404 w)"

(* src: internal/waf/http_handler.go:19-21 ProxyHandler.HasTenant *)
definition proxy_has_tenant :: "proxy_handler \<Rightarrow> string \<Rightarrow> bool" where
  "proxy_has_tenant h host = has_tenant (ph_registry h) host"

text \<open>The public handler: a liveness answer (left) or the result of the pipeline (right).\<close>

(* src: internal/waf/http_handler.go:27-38 NewPublicHTTPHandler *)
definition public_http_handler :: "serve_env \<Rightarrow> writer \<Rightarrow> request \<Rightarrow> proxy_handler \<Rightarrow> log_writer + serve_ctx option" where
  "public_http_handler env w r h =
     (if (rq_path r = ''/livez'' \<or> rq_path r = ''/healthz'') \<and> \<not> proxy_has_tenant h (rq_host r)
      then Inl (livez_handler r (new_log_writer w))
      else Inr (serve_http env w r h))"

subsection \<open>Construction and shutdown\<close>

text \<open>The caches start empty; \<open>key\<close> is the random key, \<open>metrics\<close> the process-wide series.\<close>

(* src: internal/waf/middleware.go:560-594 NewProxyHandler *)
definition new_proxy_handler :: "registry \<Rightarrow> string \<Rightarrow> jwks_state \<Rightarrow> upstream_metrics \<Rightarrow> proxy_handler" where
  "new_proxy_handler reg key jwks metrics =
     \<lparr>ph_registry = reg, ph_bouncer = False, ph_crowdsec = \<lparr>cs_cache = [], cs_healthy = False\<rparr>,
      ph_crowdsec_ttl = default_crowdsec_cache_ttl, ph_crowdsec_required = False, ph_tenant_states = [],
      ph_proxy_tenants = (\<lambda>_. zero_tenant), ph_request_body_limit = default_request_body_cap,
      ph_response_masking_limit = default_request_body_cap, ph_dependency_mode = Some ''fail_open'',
      ph_rate = \<lparr>rt_coordinator = None, rt_limiters = []\<rparr>, ph_llm_cache = [], ph_global_limiter = None, ph_jwks = jwks,
      ph_allow_ips = None, ph_block_ips = None, ph_trust_forwarded_for = False, ph_trusted_proxies = None, ph_auth_cache = [],
      ph_auth_key = key, ph_active_tx = [], ph_geoip = None, ph_blocked = [], ph_audit = [], ph_rule_matches = [],
      ph_upstream_metrics = metrics, ph_requests = [], ph_access_log = [], ph_forwarded = []\<rparr>"

text \<open>The result lists the connections that closing the coordinator closes.\<close>

(* src: internal/waf/middleware.go:597-626 ProxyHandler.Close *)
definition close_handler :: "proxy_handler \<Rightarrow> proxy_handler \<times> nat list" where
  "close_handler h =
     (let conns = (case rt_coordinator (ph_rate h) of None \<Rightarrow> [] | Some c \<Rightarrow> snd (close_coordinator c));
          (states, m) = close_tenant_states (map snd (ph_tenant_states h)) [] (ph_upstream_metrics h)
      in (h\<lparr>ph_rate := (ph_rate h)\<lparr>rt_coordinator := None\<rparr>, ph_geoip := None,
            ph_tenant_states := zip (map fst (ph_tenant_states h)) states, ph_upstream_metrics := m\<rparr>, conns))"

subsection \<open>Lemmas\<close>

definition tenant_ready :: "(string \<times> tenant_state) list \<Rightarrow> string \<Rightarrow> bool" where
  "tenant_ready states name \<longleftrightarrow> (\<exists>state. map_of states name = Some state \<and> (\<exists>u \<in> set (ts_upstreams state). us_is_healthy u))"

lemma tenant_reason_None: "tenant_reason states name = None \<longleftrightarrow> tenant_ready states name"
  by (auto simp: tenant_reason_def tenant_ready_def list_ex_iff split: option.splits)

lemma tenant_reasons_spec:
  "tenant_reasons states names = (n, rs) \<Longrightarrow>
   n = int (length (filter (tenant_ready states) names)) \<and> (rs = [] \<longleftrightarrow> (\<forall>name \<in> set names. tenant_ready states name))"
proof (induction names arbitrary: n rs)
  case Nil
  then show ?case by simp
next
  case (Cons name names)
  obtain m qs where q: "tenant_reasons states names = (m, qs)" by fastforce
  show ?case
  proof (cases "tenant_reason states name")
    case None
    then show ?thesis using Cons.prems Cons.IH [OF q] q tenant_reason_None [of states name] by auto
  next
    case (Some x)
    then have "\<not> tenant_ready states name" using tenant_reason_None [of states name] by simp
    then show ?thesis using Cons.prems Cons.IH [OF q] q Some by auto
  qed
qed

subsection \<open>Properties\<close>

text \<open>C3: the readiness report is ready exactly when at least one tenant is configured, every configured tenant has an upstream
  state with a healthy upstream, and CrowdSec is available where a fail-closed policy requires it.  The count of tenants with a
  healthy upstream is exact, and an unready report always gives a reason.\<close>

theorem readiness_exact:
  "(rr_ready (readiness h) \<longleftrightarrow>
      rg_mapping (ph_registry h) \<noteq> [] \<and> (\<forall>name \<in> fst ` set (rg_mapping (ph_registry h)). tenant_ready (ph_tenant_states h) name) \<and>
      (ph_crowdsec_required h \<longrightarrow> ph_bouncer h \<and> cs_healthy (ph_crowdsec h))) \<and>
   rr_tenants_with_healthy_upstream (readiness h) =
     int (length (filter (tenant_ready (ph_tenant_states h)) (map fst (rg_mapping (ph_registry h))))) \<and>
   (rr_ready (readiness h) \<longleftrightarrow> rr_reasons (readiness h) = [])"
proof -
  obtain n rs where t: "tenant_reasons (ph_tenant_states h) (map fst (rg_mapping (ph_registry h))) = (n, rs)" by fastforce
  show ?thesis using tenant_reasons_spec [OF t] t by (auto simp: readiness_def Let_def)
qed

theorem readiness_exact_witness:
  "\<not> rr_ready (readiness sample_handler) \<and> rr_tenants_with_healthy_upstream (readiness sample_handler) = 1"
proof -
  have "rr_tenants_with_healthy_upstream (readiness sample_handler) = 1" "rr_reasons (readiness sample_handler) \<noteq> []"
    by code_simp+
  then show ?thesis using readiness_exact [of sample_handler] by blast
qed

end
