(* ===== verification/Validate.thy ===== *)
theory Validate
  imports Upstream Llm
begin

text \<open>
  The root configuration of \<open>internal/waf/config.go\<close> and \<open>ValidateConfig\<close> of
  \<open>internal/waf/config_validation.go\<close>.  A validation step returns \<open>None\<close> for Go's
  nil error and the first error otherwise.  An error keeps the format string and
  the string arguments of its \<open>fmt.Errorf\<close> call, and the error of the repository
  that it wraps; the texts of errors of the Go library are left out.

  Outside the model: \<open>url.Parse\<close>, \<open>regexp.Compile\<close>, \<open>bcrypt.Cost\<close>, \<open>os.Stat\<close> and the
  other calls of the operating system and of the YAML library are fields of
  \<open>config_os\<close>.  The threshold of the sidecar is a real number, so the rejection of
  NaN and of the infinities has no counterpart here.
\<close>

named_theorems accepted \<open>when a validation step returns no error\<close>

subsection \<open>Errors\<close>

datatype go_error = Errorf string "string list" "go_error option"

definition check :: "bool \<Rightarrow> string \<Rightarrow> string list \<Rightarrow> go_error option" where
  "check bad format args = (if bad then Some (Errorf format args None) else None)"

text \<open>A sequence of checks, each of which returns from the function when it fails.\<close>

fun first_error :: "go_error option list \<Rightarrow> go_error option" where
  "first_error [] = None"
| "first_error (e # es) = (case e of None \<Rightarrow> first_error es | Some _ \<Rightarrow> e)"

definition wrap_error :: "string \<Rightarrow> string list \<Rightarrow> go_error option \<Rightarrow> go_error option" where
  "wrap_error format args e = map_option (\<lambda>inner. Errorf format args (Some inner)) e"

lemma check_accepted [simp, accepted]: "check bad format args = None \<longleftrightarrow> \<not> bad"
  by (simp add: check_def)

lemma first_error_accepted [simp, accepted]: "first_error es = None \<longleftrightarrow> (\<forall>e \<in> set es. e = None)"
  by (induction es) (auto split: option.splits)

lemma wrap_error_accepted [simp, accepted]: "wrap_error format args e = None \<longleftrightarrow> e = None"
  by (simp add: wrap_error_def)

subsection \<open>The configuration\<close>

(* src: internal/waf/config.go:197-205 AppConfig.GlobalSettings.ACME *)
record acme_settings =
  am_enabled :: bool
  am_agree_tos :: bool
  am_email :: string
  am_storage_path :: string
  am_staging :: bool
  am_dns_provider :: string
  am_dns_token :: string

(* src: internal/waf/config.go:210-221 AppConfig.GlobalSettings.Coordinator *)
record coordinator_settings =
  cs_enabled :: bool
  cs_role :: string
  cs_address :: string
  cs_secret :: string
  cs_ca_file :: string
  cs_cert_file :: string
  cs_key_file :: string
  cs_server_name :: string

(* src: internal/waf/config.go:173-222 AppConfig.GlobalSettings *)
record global_settings =
  gl_log_level :: string
  gl_request_body_limit :: int
  gl_response_buffer_limit :: int
  gl_response_masking_limit :: int
  gl_rules_dir :: string
  gl_oversize_action :: string
  gl_dependency_fail_mode :: string
  gl_allow_insecure_service_urls :: bool
  gl_read_timeout :: duration
  gl_write_timeout :: duration
  gl_idle_timeout :: duration
  gl_admin_address :: string
  gl_max_idle_conns_per_host :: int
  gl_max_conns_per_host :: int
  gl_requests_per_minute :: int
  gl_burst :: int
  gl_trust_forwarded_for :: bool
  gl_trusted_proxy_cidrs :: "string list"
  gl_acme :: acme_settings
  gl_allow_list :: "string list"
  gl_block_list :: "string list"
  gl_coordinator :: coordinator_settings

(* src: internal/waf/config.go:225-234 AppConfig.Logging (AccessLog, ErrorLog) *)
record log_sink =
  sk_enabled :: bool
  sk_path :: string
  sk_format :: string

(* src: internal/waf/config.go:235-239 AppConfig.Logging.LogForwarder *)
record log_forwarder =
  fw_enabled :: bool
  fw_url :: string
  fw_token :: string

(* src: internal/waf/config.go:172-260 AppConfig *)
record app_config =
  cf_global :: global_settings
  cf_access_log :: log_sink
  cf_error_log :: log_sink
  cf_log_forwarder :: log_forwarder
  cf_crowdsec_api_url :: string
  cf_crowdsec_api_key :: string
  cf_crowdsec_cache_ttl :: "duration option"
  cf_geoip_db_path :: string
  cf_waf_rule_sets :: "(string \<times> string) list"
  cf_tenants :: "(string \<times> tenant) list"
  cf_builtin_llm_rules :: bool

subsection \<open>The operating system and the libraries\<close>

record parsed_url = url +
  url_user :: bool

text \<open>
  \<open>os.Stat\<close> answers whether the file is regular; a YAML stream answers for its
  first document and for what follows it; a directory entry is its name and
  whether it is a directory.
\<close>

datatype yaml_next = YamlEnd | YamlDocument | YamlBroken

datatype dir_listing = DirMissing | DirUnreadable | DirEntries "(string \<times> bool) list"

record config_os =
  cv_url_parse :: "string \<Rightarrow> parsed_url option"
  cv_regexp :: "string \<Rightarrow> regexp option"
  cv_bcrypt_cost :: "string \<Rightarrow> int option"
  cv_stat :: "string \<Rightarrow> bool option"
  cv_getenv :: "string \<Rightarrow> string"
  cv_read_file :: "string \<Rightarrow> string option"
  cv_read_dir :: "string \<Rightarrow> dir_listing"
  cv_parse_duration :: "string \<Rightarrow> duration option"
  cv_yaml_config :: "string \<Rightarrow> app_config option \<times> yaml_next"
  cv_yaml_shard :: "string \<Rightarrow> (string \<times> tenant) list option \<times> yaml_next"

subsection \<open>Helpers of the validation\<close>

(* src: internal/waf/config_validation.go:25-31 normalizeOversizeAction *)
definition normalize_oversize_action :: "string \<Rightarrow> string" where
  "normalize_oversize_action action = (let n = to_lower (trim_space action) in if n = [] then ''reject'' else n)"

(* src: internal/waf/config_validation.go:33-39 normalizeDependencyFailMode *)
definition normalize_dependency_fail_mode :: "string \<Rightarrow> string" where
  "normalize_dependency_fail_mode mode = (let n = to_lower (trim_space mode) in if n = [] then ''fail_open'' else n)"

abbreviation service_host :: "parsed_url \<Rightarrow> string" where
  "service_host u \<equiv> fst (url_split (url_host u))"

(* src: internal/waf/config_validation.go:41-65 validateServiceURL *)
definition validate_service_url :: "config_os \<Rightarrow> string \<Rightarrow> string \<Rightarrow> bool \<Rightarrow> go_error option" where
  "validate_service_url os name raw allow_insecure =
     (case cv_url_parse os (trim_space raw) of
        None \<Rightarrow> Some (Errorf ''%s must be a valid URL: %w'' [name] None)
      | Some parsed \<Rightarrow>
          if url_user parsed then Some (Errorf ''%s must not contain user credentials'' [name] None)
          else if service_host parsed = [] then Some (Errorf ''%s must include a host'' [name] None)
          else if url_scheme parsed = ''https'' then None
          else if url_scheme parsed \<noteq> ''http'' then Some (Errorf ''%s must use http or https'' [name] None)
          else if allow_insecure \<or> equal_fold (service_host parsed) ''localhost'' then None
          else if (case parse_addr (service_host parsed) of None \<Rightarrow> False | Some addr \<Rightarrow> is_loopback addr) then None
          else Some (Errorf ''%s must use https outside loopback; set global_settings.allow_insecure_service_urls only for a trusted private network'' [name] None))"

definition bad_path_rune :: "int \<Rightarrow> bool" where
  "bad_path_rune r = (r = 34 \<or> r = 39 \<or> r = 92 \<or> is_space_rune r \<or> is_control_rune r)"

(* src: internal/waf/config_validation.go:438-450 validateInspectionPaths *)
fun validate_inspection_paths :: "string \<Rightarrow> string list \<Rightarrow> go_error option" where
  "validate_inspection_paths name [] = None"
| "validate_inspection_paths name (path # paths) =
     (if \<not> has_prefix path ''/'' then Some (Errorf ''%s entry %q must start with /'' [name, path] None)
      else if list_ex bad_path_rune (runes path) then
        Some (Errorf ''%s entry %q must not contain quotes, backslashes, whitespace, or control characters'' [name, path] None)
      else validate_inspection_paths name paths)"

(* src: internal/waf/config_validation.go:452-459 isRepresentationHeader *)
definition is_representation_header :: "string \<Rightarrow> bool" where
  "is_representation_header k =
     (canonical_header_key (trim_space k) \<in>
        {''Content-Type'', ''Content-Encoding'', ''Content-Length'', ''Content-Range'', ''Accept-Ranges'', ''Etag'', ''Last-Modified''})"

subsection \<open>Global settings\<close>

(* src: internal/waf/config_validation.go:70-107 ValidateConfig (global settings) *)
definition validate_global :: "app_config \<Rightarrow> go_error option" where
  "validate_global cfg =
     (let g = cf_global cfg;
          fail_mode = normalize_dependency_fail_mode (gl_dependency_fail_mode g);
          admin_address = (if gl_admin_address g = [] then ''127.0.0.1:9090'' else gl_admin_address g)
      in first_error [
        check (normalize_oversize_action (gl_oversize_action g) \<noteq> ''reject'')
          ''global_settings.request_body_oversize_action must be %s'' [''reject''],
        check (fail_mode \<noteq> ''fail_open'' \<and> fail_mode \<noteq> ''fail_closed'')
          ''global_settings.security_dependency_failure_mode must be one of [%s, %s]'' [''fail_open'', ''fail_closed''],
        check (split_host_port admin_address = None) ''global_settings.admin_address must be host:port: %w'' [],
        check (gl_requests_per_minute g < 0) ''global_settings.global_rate_limit.requests_per_minute must be >= 0'' [],
        check (gl_burst g < 0) ''global_settings.global_rate_limit.burst must be >= 0'' [],
        check (gl_requests_per_minute g > 0 \<and> gl_burst g = 0)
          ''global_settings.global_rate_limit.burst must be > 0 when global rate limiting is enabled'' [],
        check (gl_read_timeout g < 0 \<or> gl_write_timeout g < 0 \<or> gl_idle_timeout g < 0)
          ''global_settings HTTP timeouts must be non-negative'' [],
        check (gl_request_body_limit g < 0 \<or> gl_response_masking_limit g < 0)
          ''global_settings.request_body_limit and response_masking_limit must be non-negative'' [],
        check (gl_max_idle_conns_per_host g < 0 \<or> gl_max_conns_per_host g < 0)
          ''global_settings.upstream_transport limits must be non-negative'' [],
        check (case cf_crowdsec_cache_ttl cfg of None \<Rightarrow> False | Some ttl \<Rightarrow> ttl < 0)
          ''crowdsec.cache_ttl must be non-negative'' []])"

abbreviation blank :: "string \<Rightarrow> bool" where
  "blank s \<equiv> trim_space s = []"

(* src: internal/waf/config_validation.go:108-125 ValidateConfig (coordinator) *)
definition validate_coordinator :: "coordinator_settings \<Rightarrow> go_error option" where
  "validate_coordinator c =
     (if \<not> cs_enabled c then None
      else first_error [
        check (cs_role c \<noteq> ''leader'' \<and> cs_role c \<noteq> ''follower'') ''global_settings.coordinator.role must be leader or follower'' [],
        check (split_host_port (cs_address c) = None) ''global_settings.coordinator.address must be host:port: %w'' [],
        check (blank (cs_secret c)) ''global_settings.coordinator.secret is required when coordinator is enabled'' [],
        check (cs_role c = ''leader'' \<and> (blank (cs_ca_file c) \<or> blank (cs_cert_file c) \<or> blank (cs_key_file c)))
          ''global_settings.coordinator.tls ca_file, cert_file, and key_file are required for a leader'' [],
        check (cs_role c = ''follower'' \<and>
               (blank (cs_ca_file c) \<or> blank (cs_cert_file c) \<or> blank (cs_key_file c) \<or> blank (cs_server_name c)))
          ''global_settings.coordinator.tls ca_file, cert_file, key_file, and server_name are required for a follower'' []])"

(* src: internal/waf/config_validation.go:134-140 ValidateConfig (one IP set) *)
definition validate_ip_set :: "string \<times> string list \<Rightarrow> go_error option" where
  "validate_ip_set = (\<lambda>(name, entries). first_error (map (\<lambda>entry.
     check (parse_prefix entry = None \<and> parse_addr entry = None)
       ''global_settings.ip_sets.%s contains invalid IP or CIDR %q'' [name, entry]) entries))"

(* src: internal/waf/config_validation.go:126-144 ValidateConfig (IP sets) *)
definition validate_ip_sets :: "global_settings \<Rightarrow> go_error option" where
  "validate_ip_sets g = first_error [
     first_error (map validate_ip_set [(''allow_list'', gl_allow_list g), (''block_list'', gl_block_list g),
       (''trusted_proxy_cidrs'', gl_trusted_proxy_cidrs g)]),
     check (gl_trust_forwarded_for g \<and> gl_trusted_proxy_cidrs g = [])
       ''global_settings.trusted_proxy_cidrs is required when trust_forwarded_for is true'' []]"

(* src: internal/waf/config_validation.go:146-160 ValidateConfig (ACME) *)
definition validate_acme :: "acme_settings \<Rightarrow> go_error option" where
  "validate_acme a =
     (let provider = to_lower (trim_space (am_dns_provider a)) in
      if \<not> am_enabled a then None
      else first_error [
        check (blank (am_email a)) ''global_settings.acme.email is required when acme is enabled'' [],
        check (\<not> am_agree_tos a) (''global_settings.acme.agree_tos must be true: read the certificate authority'' @ [CHR 0x27] @
          ''s subscriber agreement and accept it explicitly'') [],
        check (provider \<noteq> [] \<and> provider \<noteq> ''cloudflare'') ''global_settings.acme.dns_provider must be empty or cloudflare'' [],
        check (provider = ''cloudflare'' \<and> blank (am_dns_token a)) ''global_settings.acme.dns_token is required for cloudflare'' []])"

(* src: internal/waf/config_validation.go:170-179 ValidateConfig (one log sink) *)
definition validate_sink :: "string \<times> log_sink \<Rightarrow> go_error option" where
  "validate_sink = (\<lambda>(name, sink).
     let format = to_lower (trim_space (sk_format sink)) in
     if \<not> sk_enabled sink then None
     else first_error [
       check (blank (sk_path sink)) ''%s.path is required when enabled'' [name],
       check (format \<noteq> ''json'' \<and> format \<noteq> ''text'') ''%s.format must be json or text'' [name]])"

(* src: internal/waf/config_validation.go:161-188 ValidateConfig (logging) *)
definition validate_logging :: "config_os \<Rightarrow> app_config \<Rightarrow> go_error option" where
  "validate_logging os cfg = first_error [
     validate_sink (''logging.access_log'', cf_access_log cfg),
     validate_sink (''logging.error_log'', cf_error_log cfg),
     if \<not> fw_enabled (cf_log_forwarder cfg) then None
     else first_error [
       check (blank (fw_token (cf_log_forwarder cfg))) ''logging.log_forwarder.token is required when forwarding is enabled'' [],
       validate_service_url os ''logging.log_forwarder.url'' (fw_url (cf_log_forwarder cfg))
         (gl_allow_insecure_service_urls (cf_global cfg))]]"

subsection \<open>One tenant\<close>

(* src: internal/waf/config_validation.go:198-207 ValidateConfig (tenant host) *)
definition validate_tenant_host :: "acme_settings \<Rightarrow> string \<Rightarrow> go_error option" where
  "validate_tenant_host a fqdn =
     (let host = normalize_host fqdn in first_error [
        check (host = []) ''tenant host key cannot be empty'' [],
        check (str_contains host ''*'' \<and> \<not> has_prefix host ''*.'')
          (''tenant %s has unsupported wildcard syntax; only leading '' @ [CHR 0x27] @ ''*.'' @ [CHR 0x27] @ '' is allowed'') [fqdn],
        check (am_enabled a \<and> has_prefix host ''*.'' \<and> \<not> equal_fold (trim_space (am_dns_provider a)) ''cloudflare'')
          ''tenant %s requires ACME DNS provider cloudflare for wildcard certificates'' [fqdn]])"

(* src: internal/waf/config_validation.go:218-233 ValidateConfig (one upstream) *)
definition validate_upstream :: "config_os \<Rightarrow> string \<Rightarrow> upstream_config \<Rightarrow> go_error option" where
  "validate_upstream os fqdn upstream =
     (case cv_url_parse os (trim_space (uc_url upstream)) of
        None \<Rightarrow> Some (Errorf ''tenant %s has invalid upstream %q: %w'' [fqdn, uc_url upstream] None)
      | Some target \<Rightarrow> first_error [
          check (url_scheme target \<noteq> ''http'' \<and> url_scheme target \<noteq> ''https'')
            ''tenant %s upstream %q must use http or https'' [fqdn, uc_url upstream],
          check (url_host target = []) ''tenant %s upstream %q is missing host'' [fqdn, uc_url upstream],
          check (url_user target) ''tenant %s upstream %q must not contain user credentials'' [fqdn, url_redacted target],
          check (uc_response_header_timeout upstream < 0)
            ''tenant %s upstream %q response_header_timeout must be non-negative'' [fqdn, url_redacted target]])"

(* src: internal/waf/config_validation.go:213-254 ValidateConfig (upstreams, health check, bypass secret, block page) *)
definition validate_backend :: "config_os \<Rightarrow> string \<Rightarrow> tenant \<Rightarrow> go_error option" where
  "validate_backend os fqdn tenant =
     (let hc = tn_health_check tenant; secret = sp_dev_bypass_secret (tn_security tenant);
          path = sp_block_page_path (tn_security tenant)
      in first_error [
        check (tn_upstreams tenant = []) ''tenant %s must define at least one upstream'' [fqdn],
        first_error (map (validate_upstream os fqdn) (tn_upstreams tenant)),
        check (hc_interval hc < 0 \<or> hc_timeout hc < 0) ''tenant %s health_check interval and timeout must be non-negative'' [fqdn],
        if hc_path hc \<noteq> [] then wrap_error ''tenant %s %w'' [fqdn] (validate_inspection_paths ''health_check.path'' [hc_path hc])
        else None,
        check (secret \<noteq> [] \<and> int (length secret) < min_dev_bypass_secret_bytes)
          ''tenant %s dev_bypass_secret must be at least %d characters'' [fqdn, itoa min_dev_bypass_secret_bytes],
        if path = [] then None
        else (case cv_stat os path of
                None \<Rightarrow> Some (Errorf ''tenant %s block_page_path: %w'' [fqdn] None)
              | Some regular \<Rightarrow> check (\<not> regular) ''tenant %s block_page_path %s is not a regular file'' [fqdn, path])])"

(* src: internal/waf/config_validation.go:256-265 ValidateConfig (WAF) *)
definition validate_waf :: "app_config \<Rightarrow> string \<Rightarrow> security_policy \<Rightarrow> go_error option" where
  "validate_waf cfg fqdn sp =
     (if \<not> opt_true (sp_waf_enabled sp) then None
      else first_error [
        check (sp_paranoia_level sp < 1 \<or> sp_paranoia_level sp > 4)
          ''tenant %s paranoia_level must be between 1 and 4 when waf_enabled is true'' [fqdn],
        first_error (map (\<lambda>set_name. check (map_of (cf_waf_rule_sets cfg) set_name = None)
          ''tenant %s references unknown waf_rule_set %q'' [fqdn, set_name]) (sp_include_rule_sets sp))])"

(* src: internal/waf/config_validation.go:267-274 ValidateConfig (CrowdSec) *)
definition validate_crowdsec :: "config_os \<Rightarrow> app_config \<Rightarrow> string \<Rightarrow> security_policy \<Rightarrow> go_error option" where
  "validate_crowdsec os cfg fqdn sp =
     (if \<not> opt_true (sp_crowdsec_enabled sp) then None
      else first_error [
        check (blank (cf_crowdsec_api_url cfg) \<or> blank (cf_crowdsec_api_key cfg))
          ''tenant %s enables crowdsec but crowdsec.api_url/api_key are not both configured'' [fqdn],
        validate_service_url os ''crowdsec.api_url'' (cf_crowdsec_api_url cfg) (gl_allow_insecure_service_urls (cf_global cfg))])"

definition country_code :: "string \<Rightarrow> bool" where
  "country_code s = (length s = 2 \<and> list_all is_upper_byte s)"

(* src: internal/waf/config_validation.go:276-289 ValidateConfig (GeoIP) *)
definition validate_geoip :: "app_config \<Rightarrow> string \<Rightarrow> security_policy \<Rightarrow> go_error option" where
  "validate_geoip cfg fqdn sp =
     (if \<not> opt_true (sp_geoip_enabled sp) then None
      else first_error [
        check (blank (cf_geoip_db_path cfg)) ''tenant %s enables geoip but geoip.db_path is empty'' [fqdn],
        check (sp_blocked_countries sp = []) ''tenant %s enables geoip but blocked_countries is empty'' [fqdn],
        first_error (map (\<lambda>country. check (\<not> country_code (to_upper (trim_space country)))
          ''tenant %s has invalid ISO country code %q'' [fqdn, to_upper (trim_space country)]) (sp_blocked_countries sp))])"

(* src: internal/waf/config_validation.go:306-316 ValidateConfig (one basic auth credential) *)
definition validate_credential :: "config_os \<Rightarrow> string \<Rightarrow> basic_auth_credentials \<Rightarrow> go_error option" where
  "validate_credential os fqdn cred = first_error [
     check (blank (ba_user cred)) ''tenant %s has a basic_auth entry with empty user'' [fqdn],
     check (blank (ba_password cred)) ''tenant %s basic_auth user %q has an empty password hash'' [fqdn, ba_user cred],
     check (cv_bcrypt_cost os (ba_password cred) = None)
       ''tenant %s basic_auth user %q must use bcrypt password hashes: %w'' [fqdn, ba_user cred]]"

(* src: internal/waf/config_validation.go:291-316 ValidateConfig (authentication) *)
definition validate_auth :: "config_os \<Rightarrow> app_config \<Rightarrow> string \<Rightarrow> security_policy \<Rightarrow> go_error option" where
  "validate_auth os cfg fqdn sp =
     (let j = sp_jwt sp in first_error [
        check (jwt_enabled j \<and> sp_basic_auth sp \<noteq> [])
          ''tenant %s cannot combine jwt_validation and basic_auth: both read the Authorization header'' [fqdn],
        if \<not> jwt_enabled j then None
        else first_error [
          check (blank (jwks_endpoint j)) ''tenant %s enables jwt_validation but jwks_endpoint is empty'' [fqdn],
          check (blank (jwt_issuer j) \<or> blank (jwt_audience j)) ''tenant %s jwt_validation issuer and audience are required'' [fqdn],
          validate_service_url os (''tenant '' @ fqdn @ '' jwt_validation.jwks_endpoint'') (jwks_endpoint j)
            (gl_allow_insecure_service_urls (cf_global cfg))],
        first_error (map (validate_credential os fqdn) (sp_basic_auth sp))])"

(* src: internal/waf/config_validation.go:318-337 ValidateConfig (response masking) *)
definition validate_masking :: "config_os \<Rightarrow> string \<Rightarrow> tenant \<Rightarrow> go_error option" where
  "validate_masking os fqdn tenant =
     (let rules = sp_response_masking (tn_security tenant); ht = tn_header_transform tenant in first_error [
        first_error (map (\<lambda>rule. first_error [
          check (blank (rm_pattern rule)) ''tenant %s has empty response_masking pattern'' [fqdn],
          check (cv_regexp os (rm_pattern rule) = None)
            ''tenant %s has invalid response_masking pattern %q: %v'' [fqdn, rm_pattern rule]]) rules),
        if rules = [] then None
        else first_error [
          first_error (map (\<lambda>k. check (is_representation_header k)
            ''tenant %s cannot strip response header %s while response masking is enabled'' [fqdn, k]) (ht_strip_response ht)),
          first_error (map (\<lambda>k. check (is_representation_header k)
            ''tenant %s cannot inject response header %s while response masking is enabled'' [fqdn, k])
            (map fst (ht_inject_response ht)))]])"

(* src: internal/waf/config_validation.go:339-363 ValidateConfig (rate limit, circuit breaker) *)
definition validate_limits :: "string \<Rightarrow> security_policy \<Rightarrow> go_error option" where
  "validate_limits fqdn sp =
     (let rl = sp_rate_limit sp; cb = sp_circuit_breaker sp in first_error [
        check (rl_requests_per_minute rl < 0) ''tenant %s rate_limit.requests_per_minute must be >= 0'' [fqdn],
        check (rl_burst rl < 0) ''tenant %s rate_limit.burst must be >= 0'' [fqdn],
        check (rl_requests_per_minute rl > 0 \<and> rl_burst rl = 0)
          ''tenant %s rate_limit.burst must be > 0 when rate limiting is enabled'' [fqdn],
        check (rl_requests_per_minute rl = 0 \<and> rl_burst rl > 0)
          ''tenant %s rate_limit.requests_per_minute must be > 0 when burst is set'' [fqdn],
        if \<not> cb_enabled cb then None
        else first_error [
          check (cb_threshold cb \<le> 0) ''tenant %s circuit_breaker.threshold must be positive'' [fqdn],
          check (cb_cooldown cb < 0) ''tenant %s circuit_breaker.cooldown must be non-negative'' [fqdn],
          first_error (map (\<lambda>status. check (status < 400 \<or> status > 599)
            ''tenant %s circuit_breaker.failure_status_codes must contain only HTTP 400..599'' [fqdn])
            (cb_failure_status_codes cb))]])"

(* src: internal/waf/config_validation.go:365-378 ValidateConfig (GraphQL) *)
definition validate_graphql :: "string \<Rightarrow> graphql_protection \<Rightarrow> go_error option" where
  "validate_graphql fqdn gq =
     (if \<not> gq_enabled gq then None
      else first_error [
        check (gq_max_query_depth gq < 0) ''tenant %s graphql.max_query_depth must be >= 0'' [fqdn],
        check (gq_max_batched_queries gq < 0) ''tenant %s graphql.max_batched_queries must be >= 0'' [fqdn],
        check (gq_max_query_bytes gq < 0) ''tenant %s graphql.max_query_bytes must be >= 0'' [fqdn],
        wrap_error ''tenant %s %w'' [fqdn] (validate_inspection_paths ''graphql.paths'' (gq_paths gq))])"

(* src: internal/waf/config_validation.go:411-429 ValidateConfig (LLM modes) *)
definition validate_llm_mode :: "config_os \<Rightarrow> app_config \<Rightarrow> string \<Rightarrow> security_policy \<Rightarrow> go_error option" where
  "validate_llm_mode os cfg fqdn sp =
     (let llm = sp_llm sp in first_error [
        if \<not> (llm_mode llm = ''ml'' \<or> llm_mode llm = ''hybrid'') then None
        else first_error [
          check (llm_sidecar_url llm = []) ''tenant %s llm_protection enables ml/hybrid but sidecar_url is empty'' [fqdn],
          check (blank (llm_sidecar_token llm)) ''tenant %s llm_protection enables ml/hybrid but sidecar_token is empty'' [fqdn],
          validate_service_url os (''tenant '' @ fqdn @ '' llm_protection.sidecar_url'') (llm_sidecar_url llm)
            (gl_allow_insecure_service_urls (cf_global cfg))],
        if \<not> (llm_mode llm = ''rules'' \<or> llm_mode llm = ''hybrid'') then None
        else first_error [
          check (\<not> opt_true (sp_waf_enabled sp)) ''tenant %s llm_protection mode %s requires waf_enabled'' [fqdn, llm_mode llm],
          check (''llm-protection'' \<notin> set (sp_include_rule_sets sp))
            ''tenant %s llm_protection mode %s requires the llm-protection rule set'' [fqdn, llm_mode llm]]])"

(* src: internal/waf/config_validation.go:380-430 ValidateConfig (LLM protection) *)
definition validate_llm :: "config_os \<Rightarrow> app_config \<Rightarrow> string \<Rightarrow> security_policy \<Rightarrow> go_error option" where
  "validate_llm os cfg fqdn sp =
     (let llm = sp_llm sp in first_error [
        wrap_error ''tenant %s %w'' [fqdn] (validate_inspection_paths ''llm_protection.inspect_paths'' (llm_inspect_paths llm)),
        if \<not> llm_enabled llm then None
        else first_error [
          check (llm_mode llm \<noteq> ''rules'' \<and> llm_mode llm \<noteq> ''ml'' \<and> llm_mode llm \<noteq> ''hybrid'')
            ''tenant %s llm_protection.mode must be one of [rules, ml, hybrid]'' [fqdn],
          check (llm_action llm \<noteq> ''deny'' \<and> llm_action llm \<noteq> ''audit'')
            ''tenant %s llm_protection.action must be one of [deny, audit]'' [fqdn],
          check (llm_fail_mode llm \<noteq> ''open'' \<and> llm_fail_mode llm \<noteq> ''closed'')
            ''tenant %s llm_protection.fail_mode must be one of [open, closed]'' [fqdn],
          check (llm_threshold llm < 0 \<or> llm_threshold llm > 1)
            ''tenant %s llm_protection.threshold must be between 0.0 and 1.0'' [fqdn],
          check (llm_timeout llm \<le> 0) ''tenant %s llm_protection.timeout must be positive'' [fqdn],
          check (llm_max_text_bytes llm \<le> 0) ''tenant %s llm_protection.max_text_bytes must be positive'' [fqdn],
          check (llm_max_body_bytes llm < 0) ''tenant %s llm_protection.max_body_bytes must be >= 0'' [fqdn],
          check (llm_sidecar_max_batch llm \<le> 0) ''tenant %s llm_protection.sidecar_max_batch must be positive'' [fqdn],
          validate_llm_mode os cfg fqdn sp]])"

subsection \<open>The whole configuration\<close>

(* src: internal/waf/config_validation.go:213-430 ValidateConfig (one tenant) *)
definition validate_tenant :: "config_os \<Rightarrow> app_config \<Rightarrow> string \<Rightarrow> tenant \<Rightarrow> go_error option" where
  "validate_tenant os cfg fqdn tenant =
     (let sp = tn_security tenant in first_error [
        validate_backend os fqdn tenant, validate_waf cfg fqdn sp, validate_crowdsec os cfg fqdn sp, validate_geoip cfg fqdn sp,
        validate_auth os cfg fqdn sp, validate_masking os fqdn tenant, validate_limits fqdn sp,
        validate_graphql fqdn (sp_graphql sp), validate_llm os cfg fqdn sp])"

text \<open>\<open>seen\<close> is the map from normalized hosts to the keys they come from.\<close>

(* src: internal/waf/config_validation.go:194-431 ValidateConfig (tenants) *)
fun validate_tenants :: "config_os \<Rightarrow> app_config \<Rightarrow> (string \<times> string) list \<Rightarrow> (string \<times> tenant) list \<Rightarrow> go_error option" where
  "validate_tenants os cfg seen [] = None"
| "validate_tenants os cfg seen ((fqdn, tenant) # ts) =
     first_error [
       validate_tenant_host (gl_acme (cf_global cfg)) fqdn,
       (case map_of seen (normalize_host fqdn) of
          Some original \<Rightarrow> Some (Errorf ''tenant host %s collides with %s after normalization'' [fqdn, original] None)
        | None \<Rightarrow> None),
       validate_tenant os cfg fqdn tenant,
       validate_tenants os cfg (assoc_put (normalize_host fqdn) fqdn seen) ts]"

(* src: internal/waf/config_validation.go:69-434 ValidateConfig *)
definition validate_config :: "config_os \<Rightarrow> app_config \<Rightarrow> go_error option" where
  "validate_config os cfg = first_error [
     validate_global cfg,
     validate_coordinator (gl_coordinator (cf_global cfg)),
     validate_ip_sets (cf_global cfg),
     validate_acme (gl_acme (cf_global cfg)),
     validate_logging os cfg,
     check (cf_tenants cfg = []) ''at least one tenant must be configured'' [],
     validate_tenants os cfg [] (cf_tenants cfg)]"

subsection \<open>What acceptance means\<close>

declare first_error.simps [simp del]

lemma validate_inspection_paths_accepted [accepted]:
  "validate_inspection_paths name paths = None \<longleftrightarrow>
   (\<forall>p \<in> set paths. has_prefix p ''/'' \<and> \<not> list_ex bad_path_rune (runes p))"
  by (induction paths) auto

lemma validate_tenants_accepted [accepted]:
  "validate_tenants os cfg seen ts = None \<longleftrightarrow>
   (\<forall>(fqdn, t) \<in> set ts. validate_tenant_host (gl_acme (cf_global cfg)) fqdn = None \<and> validate_tenant os cfg fqdn t = None) \<and>
   distinct (map (normalize_host \<circ> fst) ts) \<and>
   (\<forall>(fqdn, t) \<in> set ts. normalize_host fqdn \<notin> fst ` set seen)"
proof (induction ts arbitrary: seen)
  case Nil
  then show ?case by simp
next
  case (Cons p ts)
  obtain f t where p: "p = (f, t)" by fastforce
  have c: "(case map_of seen (normalize_host f) of
          Some original \<Rightarrow> Some (Errorf ''tenant host %s collides with %s after normalization'' [f, original] None)
        | None \<Rightarrow> None) = None \<longleftrightarrow> normalize_host f \<notin> fst ` set seen"
    unfolding map_of_eq_None_iff [symmetric] by (simp split: option.split)
  show ?case unfolding p validate_tenants.simps first_error_accepted list.set ball_simps c Cons.IH
    by (auto simp: image_iff comp_def)
qed

lemma other_tenants:
  "cf_global (cfg\<lparr>cf_tenants := ts\<rparr>) = cf_global cfg" "cf_access_log (cfg\<lparr>cf_tenants := ts\<rparr>) = cf_access_log cfg"
  "cf_error_log (cfg\<lparr>cf_tenants := ts\<rparr>) = cf_error_log cfg" "cf_log_forwarder (cfg\<lparr>cf_tenants := ts\<rparr>) = cf_log_forwarder cfg"
  "cf_crowdsec_api_url (cfg\<lparr>cf_tenants := ts\<rparr>) = cf_crowdsec_api_url cfg"
  "cf_crowdsec_api_key (cfg\<lparr>cf_tenants := ts\<rparr>) = cf_crowdsec_api_key cfg"
  "cf_crowdsec_cache_ttl (cfg\<lparr>cf_tenants := ts\<rparr>) = cf_crowdsec_cache_ttl cfg"
  "cf_geoip_db_path (cfg\<lparr>cf_tenants := ts\<rparr>) = cf_geoip_db_path cfg"
  "cf_waf_rule_sets (cfg\<lparr>cf_tenants := ts\<rparr>) = cf_waf_rule_sets cfg"
  by simp_all

lemma validate_tenant_other_tenants:
  "validate_tenant os (cfg\<lparr>cf_tenants := ts\<rparr>) fqdn t = validate_tenant os cfg fqdn t"
  by (simp only: validate_tenant_def validate_waf_def validate_crowdsec_def validate_geoip_def validate_auth_def validate_llm_def
      validate_llm_mode_def other_tenants)

lemma validate_other_tenants:
  "validate_global (cfg\<lparr>cf_tenants := ts\<rparr>) = validate_global cfg" "validate_logging os (cfg\<lparr>cf_tenants := ts\<rparr>) = validate_logging os cfg"
  by (simp_all only: validate_global_def validate_logging_def other_tenants)

lemma validate_config_accepted [accepted]:
  "validate_config os cfg = None \<longleftrightarrow>
   validate_global cfg = None \<and> validate_coordinator (gl_coordinator (cf_global cfg)) = None \<and>
   validate_ip_sets (cf_global cfg) = None \<and> validate_acme (gl_acme (cf_global cfg)) = None \<and> validate_logging os cfg = None \<and>
   cf_tenants cfg \<noteq> [] \<and> validate_tenants os cfg [] (cf_tenants cfg) = None"
  unfolding validate_config_def by (simp only: first_error_accepted list.set ball_simps check_accepted) auto

lemma accepted_tenant:
  "\<lbrakk> validate_config os cfg = None; (fqdn, t) \<in> set (cf_tenants cfg) \<rbrakk> \<Longrightarrow>
   validate_tenant_host (gl_acme (cf_global cfg)) fqdn = None \<and> validate_tenant os cfg fqdn t = None"
  unfolding validate_config_accepted validate_tenants_accepted by blast

lemma validate_tenant_accepted:
  assumes "validate_tenant os cfg fqdn t = None"
  shows "validate_backend os fqdn t = None" "validate_waf cfg fqdn (tn_security t) = None"
    "validate_crowdsec os cfg fqdn (tn_security t) = None" "validate_geoip cfg fqdn (tn_security t) = None"
    "validate_auth os cfg fqdn (tn_security t) = None" "validate_masking os fqdn t = None"
    "validate_limits fqdn (tn_security t) = None" "validate_graphql fqdn (sp_graphql (tn_security t)) = None"
    "validate_llm os cfg fqdn (tn_security t) = None"
  using assms unfolding validate_tenant_def Let_def by (simp_all only: first_error_accepted list.set ball_simps)

text \<open>Whether a configuration is accepted does not depend on the order in which Go iterates over its tenants, although the
  error that a rejected configuration is reported with does: acceptance is the same for every order of the same tenants.\<close>

theorem validate_config_order_irrelevant:
  assumes "mset ts = mset (cf_tenants cfg)"
  shows "validate_config os (cfg\<lparr>cf_tenants := ts\<rparr>) = None \<longleftrightarrow> validate_config os cfg = None"
proof -
  have "set ts = set (cf_tenants cfg)" "ts = [] \<longleftrightarrow> cf_tenants cfg = []"
    using assms by (auto dest: mset_eq_setD)
  moreover have "mset (map (normalize_host \<circ> fst) ts) = mset (map (normalize_host \<circ> fst) (cf_tenants cfg))"
    using assms by simp
  then have "distinct (map (normalize_host \<circ> fst) ts) = distinct (map (normalize_host \<circ> fst) (cf_tenants cfg))"
    by (rule mset_eq_imp_distinct_iff)
  ultimately show ?thesis
    by (simp add: validate_config_accepted validate_tenants_accepted validate_tenant_other_tenants validate_other_tenants)
qed

subsection \<open>Service addresses\<close>

definition secure_url :: "config_os \<Rightarrow> string \<Rightarrow> bool" where
  "secure_url os raw =
     (\<exists>u. cv_url_parse os (trim_space raw) = Some u \<and> \<not> url_user u \<and> service_host u \<noteq> [] \<and>
          (url_scheme u = ''https'' \<or>
           url_scheme u = ''http'' \<and> (equal_fold (service_host u) ''localhost'' \<or>
             (\<exists>a. parse_addr (service_host u) = Some a \<and> is_loopback a))))"

definition tenant_services :: "app_config \<Rightarrow> security_policy \<Rightarrow> string list" where
  "tenant_services cfg sp =
     (if opt_true (sp_crowdsec_enabled sp) then [cf_crowdsec_api_url cfg] else []) @
     (if jwt_enabled (sp_jwt sp) then [jwks_endpoint (sp_jwt sp)] else []) @
     (if llm_enabled (sp_llm sp) \<and> llm_mode (sp_llm sp) \<noteq> ''rules'' then [llm_sidecar_url (sp_llm sp)] else [])"

definition used_services :: "app_config \<Rightarrow> string list" where
  "used_services cfg =
     (if fw_enabled (cf_log_forwarder cfg) then [fw_url (cf_log_forwarder cfg)] else []) @
     concat (map (\<lambda>(fqdn, t). tenant_services cfg (tn_security t)) (cf_tenants cfg))"

lemma validate_service_url_secure [accepted]:
  "validate_service_url os name raw False = None \<longleftrightarrow> secure_url os raw"
  by (auto simp: validate_service_url_def secure_url_def split: option.splits)

lemma crowdsec_url_secure:
  "\<lbrakk> validate_crowdsec os cfg fqdn sp = None; \<not> gl_allow_insecure_service_urls (cf_global cfg); opt_true (sp_crowdsec_enabled sp) \<rbrakk> \<Longrightarrow>
   secure_url os (cf_crowdsec_api_url cfg)"
  by (simp add: validate_crowdsec_def validate_service_url_secure)

lemma jwks_url_secure:
  "\<lbrakk> validate_auth os cfg fqdn sp = None; \<not> gl_allow_insecure_service_urls (cf_global cfg); jwt_enabled (sp_jwt sp) \<rbrakk> \<Longrightarrow>
   secure_url os (jwks_endpoint (sp_jwt sp))"
  by (simp add: validate_auth_def validate_service_url_secure Let_def)

lemma sidecar_url_secure:
  "\<lbrakk> validate_llm os cfg fqdn sp = None; \<not> gl_allow_insecure_service_urls (cf_global cfg); llm_enabled (sp_llm sp);
     llm_mode (sp_llm sp) \<noteq> ''rules'' \<rbrakk> \<Longrightarrow> secure_url os (llm_sidecar_url (sp_llm sp))"
  by (simp add: validate_llm_def validate_llm_mode_def validate_service_url_secure Let_def split: if_splits)

lemma tenant_services_secure:
  assumes "validate_tenant os cfg fqdn t = None" "\<not> gl_allow_insecure_service_urls (cf_global cfg)"
    "raw \<in> set (tenant_services cfg (tn_security t))"
  shows "secure_url os raw"
  using assms(3) crowdsec_url_secure [OF validate_tenant_accepted(3) [OF assms(1)] assms(2)]
    jwks_url_secure [OF validate_tenant_accepted(5) [OF assms(1)] assms(2)]
    sidecar_url_secure [OF validate_tenant_accepted(9) [OF assms(1)] assms(2)]
  by (auto simp: tenant_services_def split: if_splits)

text \<open>C31: unless the operator allows insecure service addresses, an accepted configuration names no service that would receive a
  secret or answer a security question over plain HTTP: the log forwarder, CrowdSec, every key set and every sidecar that is in
  use has an address without credentials that uses HTTPS, or HTTP to the local host only.\<close>

theorem accepted_services_secure:
  assumes "validate_config os cfg = None" "\<not> gl_allow_insecure_service_urls (cf_global cfg)"
    and "raw \<in> set (used_services cfg)"
  shows "secure_url os raw"
proof (cases "fw_enabled (cf_log_forwarder cfg) \<and> raw = fw_url (cf_log_forwarder cfg)")
  case True
  then show ?thesis using assms(1,2) by (simp add: validate_config_accepted validate_logging_def validate_service_url_secure)
next
  case False
  then obtain fqdn t where "(fqdn, t) \<in> set (cf_tenants cfg)" "raw \<in> set (tenant_services cfg (tn_security t))"
    using assms(3) by (auto simp: used_services_def split: if_splits)
  then show ?thesis using accepted_tenant [OF assms(1)] tenant_services_secure assms(2) by blast
qed

subsection \<open>A sample configuration\<close>

definition sample_url :: "string \<Rightarrow> string \<Rightarrow> parsed_url" where
  "sample_url scheme host = \<lparr>url_scheme = scheme, url_host = host, url_path = [], url_redacted = [], url_user = False\<rparr>"

definition sample_os :: config_os where
  "sample_os =
     \<lparr>cv_url_parse = map_of [(''https://idp.example.com'', sample_url ''https'' ''idp.example.com''),
        (''http://10.0.0.1:80'', sample_url ''http'' ''10.0.0.1:80'')],
      cv_regexp = (\<lambda>p. None), cv_bcrypt_cost = (\<lambda>h. None), cv_stat = (\<lambda>p. None), cv_getenv = (\<lambda>n. []),
      cv_read_file = (\<lambda>p. None), cv_read_dir = (\<lambda>p. DirMissing), cv_parse_duration = (\<lambda>s. None),
      cv_yaml_config = (\<lambda>s. (None, YamlEnd)), cv_yaml_shard = (\<lambda>s. (None, YamlEnd))\<rparr>"

definition zero_acme :: acme_settings where
  "zero_acme = \<lparr>am_enabled = False, am_agree_tos = False, am_email = [], am_storage_path = [], am_staging = False,
     am_dns_provider = [], am_dns_token = []\<rparr>"

definition zero_coordinator :: coordinator_settings where
  "zero_coordinator = \<lparr>cs_enabled = False, cs_role = [], cs_address = [], cs_secret = [], cs_ca_file = [], cs_cert_file = [],
     cs_key_file = [], cs_server_name = []\<rparr>"

definition zero_global :: global_settings where
  "zero_global = \<lparr>gl_log_level = [], gl_request_body_limit = 0, gl_response_buffer_limit = 0, gl_response_masking_limit = 0,
     gl_rules_dir = [], gl_oversize_action = [], gl_dependency_fail_mode = [], gl_allow_insecure_service_urls = False,
     gl_read_timeout = 0, gl_write_timeout = 0, gl_idle_timeout = 0, gl_admin_address = [], gl_max_idle_conns_per_host = 0,
     gl_max_conns_per_host = 0, gl_requests_per_minute = 0, gl_burst = 0, gl_trust_forwarded_for = False,
     gl_trusted_proxy_cidrs = [], gl_acme = zero_acme, gl_allow_list = [], gl_block_list = [], gl_coordinator = zero_coordinator\<rparr>"

definition zero_config :: app_config where
  "zero_config = \<lparr>cf_global = zero_global, cf_access_log = \<lparr>sk_enabled = False, sk_path = [], sk_format = []\<rparr>,
     cf_error_log = \<lparr>sk_enabled = False, sk_path = [], sk_format = []\<rparr>,
     cf_log_forwarder = \<lparr>fw_enabled = False, fw_url = [], fw_token = []\<rparr>, cf_crowdsec_api_url = [], cf_crowdsec_api_key = [],
     cf_crowdsec_cache_ttl = None, cf_geoip_db_path = [], cf_waf_rule_sets = [], cf_tenants = [], cf_builtin_llm_rules = False\<rparr>"

definition sample_tenant :: tenant where
  "sample_tenant = zero_tenant\<lparr>tn_upstreams := [\<lparr>uc_url = ''http://10.0.0.1:80'', uc_response_header_timeout = 0\<rparr>],
     tn_security := zero_security\<lparr>sp_jwt := \<lparr>jwt_enabled = True, jwks_endpoint = ''https://idp.example.com'',
       jwt_issuer = ''idp'', jwt_audience = ''www''\<rparr>\<rparr>\<rparr>"

definition sample_config :: app_config where
  "sample_config = zero_config\<lparr>cf_tenants := [(''WWW.example.com.'', sample_tenant), (''*.example.com'', sample_tenant)]\<rparr>"

lemma sample_config_accepted: "validate_config sample_os sample_config = None"
  by code_simp

theorem accepted_services_secure_witness:
  "validate_config sample_os sample_config = None \<and> used_services sample_config = [''https://idp.example.com'', ''https://idp.example.com''] \<and>
   secure_url sample_os ''https://idp.example.com''"
proof -
  have u: "used_services sample_config = [''https://idp.example.com'', ''https://idp.example.com'']" by code_simp
  have "\<not> gl_allow_insecure_service_urls (cf_global sample_config)" by code_simp
  from accepted_services_secure [OF sample_config_accepted this, of "''https://idp.example.com''"] u sample_config_accepted
  show ?thesis by simp
qed

theorem validate_config_order_irrelevant_witness:
  "validate_config sample_os (sample_config\<lparr>cf_tenants := rev (cf_tenants sample_config)\<rparr>) = None"
  using validate_config_order_irrelevant [of "rev (cf_tenants sample_config)" sample_config sample_os] sample_config_accepted
  by simp

end
