(* ===== verification/Load.thy ===== *)
theory Load
  imports Validate GraphQL
begin

text \<open>
  Loading the configuration: \<open>secretEnv\<close>, \<open>ApplyEnvOverrides\<close>, \<open>LoadConfig\<close> and the
  generation of the Coraza directives of a tenant, from \<open>internal/waf/config.go\<close> and
  \<open>internal/waf/llm_protection.go\<close>.  Reading files, the environment and YAML are the
  fields of \<open>config_os\<close>; the warnings that loading logs are left out.  The outcome of
  \<open>LoadConfig\<close> is an option, whose \<open>None\<close> is the panic of \<open>regexp.MustCompile\<close>.
\<close>

subsection \<open>Booleans\<close>

definition parse_bool :: "string \<Rightarrow> bool option" where
  "parse_bool s =
     (if s \<in> {''1'', ''t'', ''T'', ''TRUE'', ''true'', ''True''} then Some True
      else if s \<in> {''0'', ''f'', ''F'', ''FALSE'', ''false'', ''False''} then Some False else None)"

subsection \<open>Environment overrides\<close>

(* src: internal/waf/config.go:326-339 secretEnv *)
definition secret_env :: "config_os \<Rightarrow> string \<Rightarrow> go_error + string" where
  "secret_env os name =
     (let val = cv_getenv os name; path = cv_getenv os (name @ ''_FILE'') in
      if val \<noteq> [] then Inr val
      else if path = [] then Inr []
      else case cv_read_file os path of
             None \<Rightarrow> Inl (Errorf ''%s_FILE: %w'' [name] None)
           | Some data \<Rightarrow> Inr (trim_space data))"

text \<open>One override: it fails, or it changes the configuration.\<close>

type_synonym override = "config_os \<Rightarrow> app_config \<Rightarrow> go_error + app_config"

definition env_string :: "string \<Rightarrow> (string \<Rightarrow> app_config \<Rightarrow> app_config) \<Rightarrow> override" where
  "env_string name upd os cfg = (let val = cv_getenv os name in Inr (if val \<noteq> [] then upd val cfg else cfg))"

definition env_parsed :: "(config_os \<Rightarrow> string \<Rightarrow> 'a option) \<Rightarrow> string \<Rightarrow> ('a \<Rightarrow> app_config \<Rightarrow> app_config) \<Rightarrow> override" where
  "env_parsed parse name upd os cfg =
     (let val = cv_getenv os name in
      if val = [] then Inr cfg
      else case parse os val of None \<Rightarrow> Inl (Errorf (name @ '': %w'') [] None) | Some x \<Rightarrow> Inr (upd x cfg))"

definition env_int64 :: "string \<Rightarrow> (int \<Rightarrow> app_config \<Rightarrow> app_config) \<Rightarrow> override" where
  "env_int64 = env_parsed (\<lambda>os. parse_int64)"

definition env_bool :: "string \<Rightarrow> (bool \<Rightarrow> app_config \<Rightarrow> app_config) \<Rightarrow> override" where
  "env_bool = env_parsed (\<lambda>os. parse_bool)"

definition env_duration :: "string \<Rightarrow> (duration \<Rightarrow> app_config \<Rightarrow> app_config) \<Rightarrow> override" where
  "env_duration = env_parsed cv_parse_duration"

definition env_secret :: "string \<Rightarrow> (string \<Rightarrow> app_config \<Rightarrow> app_config) \<Rightarrow> override" where
  "env_secret name upd os cfg =
     (case secret_env os name of Inl e \<Rightarrow> Inl e | Inr val \<Rightarrow> Inr (if val \<noteq> [] then upd val cfg else cfg))"

fun run_overrides :: "override list \<Rightarrow> override" where
  "run_overrides [] os cfg = Inr cfg"
| "run_overrides (f # fs) os cfg = (case f os cfg of Inl e \<Rightarrow> Inl e | Inr cfg' \<Rightarrow> run_overrides fs os cfg')"

abbreviation in_global :: "(global_settings \<Rightarrow> global_settings) \<Rightarrow> app_config \<Rightarrow> app_config" where
  "in_global f \<equiv> cf_global_update f"

abbreviation in_acme :: "(acme_settings \<Rightarrow> acme_settings) \<Rightarrow> app_config \<Rightarrow> app_config" where
  "in_acme f \<equiv> cf_global_update (gl_acme_update f)"

abbreviation in_coordinator :: "(coordinator_settings \<Rightarrow> coordinator_settings) \<Rightarrow> app_config \<Rightarrow> app_config" where
  "in_coordinator f \<equiv> cf_global_update (gl_coordinator_update f)"

(* src: internal/waf/config.go:355-362 AppConfig.ApplyEnvOverrides (deprecated alias) *)
definition env_deprecated_limit :: override where
  "env_deprecated_limit os cfg =
     (if cv_getenv os ''WAF_GLOBAL_REQUEST_BODY_LIMIT'' = []
      then env_int64 ''WAF_GLOBAL_RESPONSE_BUFFER_LIMIT'' (\<lambda>n. in_global (\<lambda>g. g\<lparr>gl_request_body_limit := n\<rparr>)) os cfg
      else Inr cfg)"

(* src: internal/waf/config.go:343-409 AppConfig.ApplyEnvOverrides (global settings) *)
definition global_overrides :: "override list" where
  "global_overrides = [
     env_string ''WAF_GLOBAL_LOG_LEVEL'' (\<lambda>v. in_global (\<lambda>g. g\<lparr>gl_log_level := v\<rparr>)),
     env_int64 ''WAF_GLOBAL_REQUEST_BODY_LIMIT'' (\<lambda>n. in_global (\<lambda>g. g\<lparr>gl_request_body_limit := n\<rparr>)),
     env_deprecated_limit,
     env_string ''WAF_GLOBAL_RULES_DIR'' (\<lambda>v. in_global (\<lambda>g. g\<lparr>gl_rules_dir := v\<rparr>)),
     env_int64 ''WAF_GLOBAL_RESPONSE_MASKING_LIMIT'' (\<lambda>n. in_global (\<lambda>g. g\<lparr>gl_response_masking_limit := n\<rparr>)),
     env_string ''WAF_GLOBAL_REQUEST_BODY_OVERSIZE_ACTION'' (\<lambda>v. in_global (\<lambda>g. g\<lparr>gl_oversize_action := v\<rparr>)),
     env_string ''WAF_GLOBAL_SECURITY_DEPENDENCY_FAILURE_MODE'' (\<lambda>v. in_global (\<lambda>g. g\<lparr>gl_dependency_fail_mode := v\<rparr>)),
     env_bool ''WAF_GLOBAL_ALLOW_INSECURE_SERVICE_URLS'' (\<lambda>b. in_global (\<lambda>g. g\<lparr>gl_allow_insecure_service_urls := b\<rparr>)),
     env_duration ''WAF_GLOBAL_READ_TIMEOUT'' (\<lambda>d. in_global (\<lambda>g. g\<lparr>gl_read_timeout := d\<rparr>)),
     env_duration ''WAF_GLOBAL_WRITE_TIMEOUT'' (\<lambda>d. in_global (\<lambda>g. g\<lparr>gl_write_timeout := d\<rparr>)),
     env_duration ''WAF_GLOBAL_IDLE_TIMEOUT'' (\<lambda>d. in_global (\<lambda>g. g\<lparr>gl_idle_timeout := d\<rparr>)),
     env_string ''WAF_GLOBAL_ADMIN_ADDRESS'' (\<lambda>v. in_global (\<lambda>g. g\<lparr>gl_admin_address := v\<rparr>))]"

(* src: internal/waf/config.go:410-457 AppConfig.ApplyEnvOverrides (ACME, trusted proxies) *)
definition acme_overrides :: "override list" where
  "acme_overrides = [
     env_bool ''WAF_GLOBAL_ACME_ENABLED'' (\<lambda>b. in_acme (\<lambda>a. a\<lparr>am_enabled := b\<rparr>)),
     env_bool ''WAF_GLOBAL_ACME_AGREE_TOS'' (\<lambda>b. in_acme (\<lambda>a. a\<lparr>am_agree_tos := b\<rparr>)),
     env_string ''WAF_GLOBAL_ACME_EMAIL'' (\<lambda>v. in_acme (\<lambda>a. a\<lparr>am_email := v\<rparr>)),
     env_string ''WAF_GLOBAL_ACME_STORAGE_PATH'' (\<lambda>v. in_acme (\<lambda>a. a\<lparr>am_storage_path := v\<rparr>)),
     env_bool ''WAF_GLOBAL_ACME_STAGING'' (\<lambda>b. in_acme (\<lambda>a. a\<lparr>am_staging := b\<rparr>)),
     env_string ''WAF_GLOBAL_ACME_DNS_PROVIDER'' (\<lambda>v. in_acme (\<lambda>a. a\<lparr>am_dns_provider := v\<rparr>)),
     env_secret ''WAF_GLOBAL_ACME_DNS_TOKEN'' (\<lambda>v. in_acme (\<lambda>a. a\<lparr>am_dns_token := v\<rparr>)),
     env_bool ''WAF_GLOBAL_TRUST_FORWARDED_FOR'' (\<lambda>b. in_global (\<lambda>g. g\<lparr>gl_trust_forwarded_for := b\<rparr>)),
     env_string ''WAF_GLOBAL_TRUSTED_PROXY_CIDRS''
       (\<lambda>v. in_global (\<lambda>g. g\<lparr>gl_trusted_proxy_cidrs := map trim_space (str_split (CHR '','') v)\<rparr>))]"

(* src: internal/waf/config.go:459-489 AppConfig.ApplyEnvOverrides (coordinator) *)
definition coordinator_overrides :: "override list" where
  "coordinator_overrides = [
     env_bool ''WAF_COORDINATOR_ENABLED'' (\<lambda>b. in_coordinator (\<lambda>c. c\<lparr>cs_enabled := b\<rparr>)),
     env_string ''WAF_COORDINATOR_ROLE'' (\<lambda>v. in_coordinator (\<lambda>c. c\<lparr>cs_role := v\<rparr>)),
     env_string ''WAF_COORDINATOR_ADDRESS'' (\<lambda>v. in_coordinator (\<lambda>c. c\<lparr>cs_address := v\<rparr>)),
     env_secret ''WAF_COORDINATOR_SECRET'' (\<lambda>v. in_coordinator (\<lambda>c. c\<lparr>cs_secret := v\<rparr>)),
     env_string ''WAF_COORDINATOR_TLS_CA_FILE'' (\<lambda>v. in_coordinator (\<lambda>c. c\<lparr>cs_ca_file := v\<rparr>)),
     env_string ''WAF_COORDINATOR_TLS_CERT_FILE'' (\<lambda>v. in_coordinator (\<lambda>c. c\<lparr>cs_cert_file := v\<rparr>)),
     env_string ''WAF_COORDINATOR_TLS_KEY_FILE'' (\<lambda>v. in_coordinator (\<lambda>c. c\<lparr>cs_key_file := v\<rparr>)),
     env_string ''WAF_COORDINATOR_TLS_SERVER_NAME'' (\<lambda>v. in_coordinator (\<lambda>c. c\<lparr>cs_server_name := v\<rparr>))]"

(* src: internal/waf/config.go:491-504 AppConfig.ApplyEnvOverrides (CrowdSec, log forwarder) *)
definition service_overrides :: "override list" where
  "service_overrides = [
     env_string ''WAF_CROWDSEC_URL'' (\<lambda>v cfg. cfg\<lparr>cf_crowdsec_api_url := v\<rparr>),
     env_secret ''WAF_CROWDSEC_KEY'' (\<lambda>v cfg. cfg\<lparr>cf_crowdsec_api_key := v\<rparr>),
     env_secret ''WAF_LOG_FORWARDER_TOKEN'' (\<lambda>v. cf_log_forwarder_update (\<lambda>f. f\<lparr>fw_token := v\<rparr>))]"

(* src: internal/waf/config.go:342-506 AppConfig.ApplyEnvOverrides *)
definition apply_env_overrides :: override where
  "apply_env_overrides = run_overrides (global_overrides @ acme_overrides @ coordinator_overrides @ service_overrides)"

subsection \<open>The built-in rules\<close>

abbreviation dq :: string where "dq \<equiv> [CHR 0x22]"
abbreviation nl :: string where "nl \<equiv> [CHR 0x0A]"
abbreviation bs :: string where "bs \<equiv> [CHR 0x5C]"

text \<open>\<open>regexp.QuoteMeta\<close>.\<close>

definition meta_byte :: "char \<Rightarrow> bool" where
  "meta_byte c = (c \<in> set (bs @ ''.+*?()|[]{}^$''))"

definition quote_meta :: "string \<Rightarrow> string" where
  "quote_meta s = concat (map (\<lambda>c. if meta_byte c then bs @ [c] else [c]) s)"

(* src: internal/waf/llm_protection.go:44-48 buildLLMProtectionRules (head) *)
definition llm_rules_head :: string where
  "llm_rules_head = nl @ ''SecRequestBodyAccess On'' @ nl @
     ''SecRule REQUEST_HEADERS:Content-Type '' @ dq @ ''(?i)application/json'' @ dq @ '' '' @ bs @ nl @
     ''    '' @ dq @ ''id:440010,phase:1,pass,nolog,ctl:requestBodyProcessor=JSON'' @ dq @ nl"

(* src: internal/waf/llm_protection.go:50-57 buildLLMProtectionRules (paths) *)
definition llm_rules_scope :: "string list \<Rightarrow> string" where
  "llm_rules_scope paths = nl @ ''SecRule REQUEST_FILENAME '' @ dq @ ''!@rx ^(?:'' @
     str_join (map (\<lambda>path. quote_meta (trim_suffix path ''/'')) paths) ''|'' @ '')(?:/|$)'' @ dq @ '' '' @ bs @ nl @
     ''    '' @ dq @ ''id:440011,phase:2,pass,nolog,t:none,t:normalizePath,skipAfter:SYNIT-LLM-END'' @ dq @ nl"

text \<open>
  The text of the detection rules, with \<open>~\<close>, \<open>`\<close> and \<open>^\<close> for backslash, double and single quote.
\<close>

definition rule_text :: "string \<Rightarrow> string" where
  "rule_text s = map (\<lambda>c. if c = CHR ''~'' then CHR 0x5C else if c = CHR ''`'' then CHR 0x22 else if c = CHR ''^'' then CHR 0x27 else c) s"

(* src: internal/waf/llm_protection.go:28-36 llmProtectionDetectionRules *)
definition llm_protection_detection_rules :: string where
  "llm_protection_detection_rules = rule_text (
     nl @
     ''# Instruction override and known jailbreak personas'' @ nl @
     ''SecRule ARGS|REQUEST_BODY `@rx (?i)(?:(?:ignore|disregard|forget|override)~s+(?:all~s+|any~s+|the~s+|your~s+)?(?:previ'' @
     ''ous|prior|above|earlier|preceding)~s+(?:instructions?|prompts?|rules|directions|context)|~bdan~s+mode~b|~bdo~s+anythin'' @
     ''g~s+now~b|~bjailbreak~s+(?:mode|prompt)~b|you~s+are~s+now~s+(?:in~s+)?(?:dan|developer|jailbreak|unrestricted|god)~s+m'' @
     ''ode)` ~'' @ nl @
     ''    `id:440012,phase:2,deny,status:403,log,msg:^Potential classic prompt injection pattern matched^`'' @ nl @
     nl @
     ''# System prompt extraction attempts'' @ nl @
     ''SecRule ARGS|REQUEST_BODY `@rx (?i)(?:(?:repeat|reveal|print|show|output|leak)~s+(?:me~s+)?(?:your|the)~s+(?:system~s+'' @
     ''|initial~s+|hidden~s+|original~s+)?(?:prompt|instructions)|what~s+(?:is|are)~s+your~s+system~s+(?:prompt|instructions)'' @
     '')` ~'' @ nl @
     ''    `id:440013,phase:2,deny,status:403,log,msg:^Potential system prompt extraction attempt matched^`'' @ nl)"

(* src: internal/waf/llm_protection.go:42-62 buildLLMProtectionRules *)
definition build_llm_protection_rules :: "string list \<Rightarrow> string" where
  "build_llm_protection_rules paths =
     llm_rules_head @ (if paths \<noteq> [] then llm_rules_scope paths else []) @ llm_protection_detection_rules @ ''SecMarker '' @ dq @ ''SYNIT-LLM-END'' @ dq @ nl"

(* src: internal/waf/config.go:37 requestBodyErrorRule *)
definition request_body_error_rule :: string where
  "request_body_error_rule = ''SecRule REQBODY_ERROR '' @ dq @ ''!@eq 0'' @ dq @ '' '' @ dq @
     ''id:440001,phase:2,deny,status:403,log,msg:'' @ [CHR 0x27] @ ''Request body parsing failed'' @ [CHR 0x27] @ dq"

definition inspection_rule :: "string \<Rightarrow> string \<Rightarrow> string \<Rightarrow> string \<Rightarrow> string \<Rightarrow> string" where
  "inspection_rule var op rule_id phase msg = ''SecRule '' @ var @ '' '' @ dq @ op @ dq @ '' '' @ dq @ ''id:'' @ rule_id @ '',phase:'' @ phase @
     '',t:none,deny,status:403,log,msg:'' @ [CHR 0x27] @ msg @ [CHR 0x27] @ dq @ nl"

(* src: internal/waf/config.go:51-56 requestInspectionRules *)
definition request_inspection_rules :: string where
  "request_inspection_rules = nl @
     inspection_rule ''ARGUMENTS_LIMIT_REACHED'' ''@eq 1'' ''440002'' ''1'' ''Request argument limit reached'' @
     inspection_rule ''ARGUMENTS_LIMIT_REACHED'' ''@eq 1'' ''440003'' ''2'' ''Request argument limit reached'' @
     inspection_rule ''URI_PARSE_ERROR'' ''@eq 1'' ''440004'' ''1'' ''Request URI parsing failed'' @
     inspection_rule ''MULTIPART_STRICT_ERROR'' ''!@eq 0'' ''440005'' ''2'' ''Multipart request body validation failed''"

(* src: internal/waf/config.go:757-759 tenantDirectives (paranoia level) *)
definition paranoia_action :: "int \<Rightarrow> string" where
  "paranoia_action level = ''SecAction '' @ dq @ ''id:440000,phase:1,nolog,pass,t:none,setvar:tx.paranoia_level='' @ itoa level @
     '',setvar:tx.blocking_paranoia_level='' @ itoa level @ '',setvar:tx.detection_paranoia_level='' @ itoa level @ dq @ nl"

(* src: internal/waf/config.go:751-785 tenantDirectives *)
definition tenant_directives :: "app_config \<Rightarrow> tenant \<Rightarrow> string" where
  "tenant_directives cfg tenant =
     (let sp = tn_security tenant in
      paranoia_action (sp_paranoia_level sp) @
      concat (map (\<lambda>set_name.
        (if set_name = ''llm-protection'' \<and> cf_builtin_llm_rules cfg
         then build_llm_protection_rules (llm_inspect_paths (sp_llm sp))
         else case map_of (cf_waf_rule_sets cfg) set_name of None \<Rightarrow> [] | Some rules \<Rightarrow> rules) @ nl) (sp_include_rule_sets sp)) @
      (if sp_custom_rules sp \<noteq> [] then sp_custom_rules sp @ nl else []) @
      request_body_error_rule @ nl @ request_inspection_rules @
      (if sp_audit_mode sp then ''SecRuleEngine DetectionOnly'' @ nl else ''SecRuleEngine On'' @ nl))"

subsection \<open>LoadConfig\<close>

(* src: internal/waf/config.go:508-522 decodeYAMLStrict *)
definition decode_yaml_strict :: "'a option \<times> yaml_next \<Rightarrow> go_error + 'a" where
  "decode_yaml_strict = (\<lambda>(first, next).
     case first of
       None \<Rightarrow> Inl (Errorf ''yaml'' [] None)
     | Some v \<Rightarrow>
         (case next of
            YamlEnd \<Rightarrow> Inr v
          | YamlDocument \<Rightarrow> Inl (Errorf ''multiple YAML documents are not supported'' [] None)
          | YamlBroken \<Rightarrow> Inl (Errorf ''yaml'' [] None)))"

(* src: internal/waf/config.go:559-564 LoadConfig (merge) *)
fun merge_tenants :: "(string \<times> tenant) list \<Rightarrow> (string \<times> tenant) list \<Rightarrow> go_error + (string \<times> tenant) list" where
  "merge_tenants tenants [] = Inr tenants"
| "merge_tenants tenants ((host, tenant) # shard) =
     (if map_of tenants host \<noteq> None then Inl (Errorf ''tenant %s is defined more than once'' [host] None)
      else merge_tenants (assoc_put host tenant tenants) shard)"

(* src: internal/waf/config.go:541-565 LoadConfig (tenant shards) *)
fun load_shards :: "config_os \<Rightarrow> string \<Rightarrow> (string \<times> bool) list \<Rightarrow> (string \<times> tenant) list \<Rightarrow> go_error + (string \<times> tenant) list" where
  "load_shards os dir [] tenants = Inr tenants"
| "load_shards os dir ((name, is_dir) # files) tenants =
     (if is_dir \<or> \<not> has_suffix name ''.yml'' \<and> \<not> has_suffix name ''.yaml'' then load_shards os dir files tenants
      else case cv_read_file os (filepath_join dir name) of
             None \<Rightarrow> Inl (Errorf ''read tenant shard %s: %w'' [name] None)
           | Some data \<Rightarrow>
               (case decode_yaml_strict (cv_yaml_shard os data) of
                  Inl e \<Rightarrow> Inl (Errorf ''decode tenant shard %s: %w'' [name] (Some e))
                | Inr shard \<Rightarrow>
                    (case merge_tenants tenants shard of
                       Inl e \<Rightarrow> Inl e
                     | Inr tenants \<Rightarrow> load_shards os dir files tenants)))"

(* src: internal/waf/config.go:567-576 LoadConfig (deprecated limit) *)
definition fold_deprecated_limit :: "app_config \<Rightarrow> go_error + app_config" where
  "fold_deprecated_limit cfg =
     (let old = gl_response_buffer_limit (cf_global cfg); current = gl_request_body_limit (cf_global cfg) in
      if old = 0 then Inr cfg
      else if current \<noteq> 0 \<and> current \<noteq> old then
        Inl (Errorf ''global_settings.response_buffer_limit is the deprecated name of request_body_limit; set only request_body_limit'' [] None)
      else Inr (in_global (\<lambda>g. g\<lparr>gl_request_body_limit := old, gl_response_buffer_limit := 0\<rparr>) cfg))"

(* src: internal/waf/config.go:580-592 LoadConfig (defaults) *)
definition config_defaults :: "app_config \<Rightarrow> app_config" where
  "config_defaults cfg =
     (let cfg = (if gl_admin_address (cf_global cfg) = [] then in_global (\<lambda>g. g\<lparr>gl_admin_address := ''127.0.0.1:9090''\<rparr>) cfg else cfg);
          cfg = (if gl_rules_dir (cf_global cfg) = [] then in_global (\<lambda>g. g\<lparr>gl_rules_dir := ''/etc/waf/rules''\<rparr>) cfg else cfg)
      in if map_of (cf_waf_rule_sets cfg) ''llm-protection'' = None
         then cfg\<lparr>cf_waf_rule_sets := assoc_put ''llm-protection'' (build_llm_protection_rules []) (cf_waf_rule_sets cfg),
                  cf_builtin_llm_rules := True\<rparr>
         else cfg)"

(* src: internal/waf/config.go:596-610 LoadConfig (sidecar token) *)
definition load_sidecar_token :: "config_os \<Rightarrow> string \<Rightarrow> llm_protection_config \<Rightarrow> go_error + llm_protection_config" where
  "load_sidecar_token os fqdn llm =
     (let uses_sidecar = llm_enabled llm \<and> (llm_mode llm = ''ml'' \<or> llm_mode llm = ''hybrid'') in
      if uses_sidecar \<and> llm_sidecar_token llm \<noteq> [] \<and> llm_sidecar_token_env llm \<noteq> [] then
        Inl (Errorf ''tenant %s llm_protection must set only one of sidecar_token or sidecar_token_env'' [fqdn] None)
      else if uses_sidecar \<and> llm_sidecar_token llm = [] \<and> llm_sidecar_token_env llm \<noteq> [] then
        (case secret_env os (llm_sidecar_token_env llm) of
           Inl e \<Rightarrow> Inl (Errorf ''tenant %s llm_protection token: %w'' [fqdn] (Some e))
         | Inr token \<Rightarrow>
             if blank token then
               Inl (Errorf ''tenant %s llm_protection token environment variable %s is empty'' [fqdn, llm_sidecar_token_env llm] None)
             else Inr (llm\<lparr>llm_sidecar_token := token\<rparr>))
      else Inr llm)"

(* src: internal/waf/config.go:593-615 LoadConfig (tenants) *)
fun prepare_tenants :: "config_os \<Rightarrow> (string \<times> tenant) list \<Rightarrow> go_error + (string \<times> tenant) list" where
  "prepare_tenants os [] = Inr []"
| "prepare_tenants os ((fqdn, tenant) # ts) =
     (let sp = tn_security tenant in
      case load_sidecar_token os fqdn (llm_set_defaults (sp_llm sp)) of
        Inl e \<Rightarrow> Inl e
      | Inr llm \<Rightarrow>
          (case prepare_tenants os ts of
             Inl e \<Rightarrow> Inl e
           | Inr ts' \<Rightarrow>
               Inr ((fqdn, tenant\<lparr>tn_security := sp\<lparr>sp_llm := llm, sp_graphql := graphql_set_defaults (sp_graphql sp),
                 sp_blocked_countries := map (\<lambda>c. to_upper (trim_space c)) (sp_blocked_countries sp)\<rparr>\<rparr>) # ts')))"

(* src: internal/waf/config.go:627-633 compileResponseMasking *)
fun compile_response_masking :: "config_os \<Rightarrow> response_masking_rule list \<Rightarrow> response_masking_rule list option" where
  "compile_response_masking os [] = Some []"
| "compile_response_masking os (rule # rules) =
     (case (case rm_compiled rule of Some re \<Rightarrow> Some re | None \<Rightarrow> cv_regexp os (rm_pattern rule)) of
        None \<Rightarrow> None
      | Some re \<Rightarrow> map_option ((#) (rule\<lparr>rm_compiled := Some re\<rparr>)) (compile_response_masking os rules))"

(* src: internal/waf/config.go:620-622 LoadConfig (patterns) *)
fun compile_tenants :: "config_os \<Rightarrow> (string \<times> tenant) list \<Rightarrow> (string \<times> tenant) list option" where
  "compile_tenants os [] = Some []"
| "compile_tenants os ((fqdn, tenant) # ts) =
     (case compile_response_masking os (sp_response_masking (tn_security tenant)) of
        None \<Rightarrow> None
      | Some rules \<Rightarrow>
          map_option ((#) (fqdn, tn_security_update (\<lambda>sp. sp\<lparr>sp_response_masking := rules\<rparr>) tenant)) (compile_tenants os ts))"

(* src: internal/waf/config.go:526-565 LoadConfig (files) *)
definition read_config :: "config_os \<Rightarrow> string \<Rightarrow> go_error + app_config" where
  "read_config os path =
     (case cv_read_file os path of
        None \<Rightarrow> Inl (Errorf ''read config file: %w'' [] None)
      | Some data \<Rightarrow>
          (case decode_yaml_strict (cv_yaml_config os data) of
             Inl e \<Rightarrow> Inl (Errorf ''decode config: %w'' [] (Some e))
           | Inr cfg \<Rightarrow>
               (let dir = filepath_join (filepath_dir path) ''tenants.d'' in
                case cv_read_dir os dir of
                  DirUnreadable \<Rightarrow> Inl (Errorf ''read tenant shard directory: %w'' [] None)
                | DirMissing \<Rightarrow> Inr cfg
                | DirEntries files \<Rightarrow>
                    (case load_shards os dir files (cf_tenants cfg) of
                       Inl e \<Rightarrow> Inl e
                     | Inr tenants \<Rightarrow> Inr (cfg\<lparr>cf_tenants := tenants\<rparr>)))))"

(* src: internal/waf/config.go:567-615 LoadConfig (layers) *)
definition layer_config :: "config_os \<Rightarrow> app_config \<Rightarrow> go_error + app_config" where
  "layer_config os cfg =
     (case fold_deprecated_limit cfg of
        Inl e \<Rightarrow> Inl e
      | Inr cfg \<Rightarrow>
          (case apply_env_overrides os cfg of
             Inl e \<Rightarrow> Inl (Errorf ''apply environment overrides: %w'' [] (Some e))
           | Inr cfg \<Rightarrow>
               (let cfg = config_defaults cfg in
                case prepare_tenants os (cf_tenants cfg) of
                  Inl e \<Rightarrow> Inl e
                | Inr tenants \<Rightarrow> Inr (cfg\<lparr>cf_tenants := tenants\<rparr>))))"

(* src: internal/waf/config.go:525-624 LoadConfig *)
definition load_config :: "config_os \<Rightarrow> string \<Rightarrow> (go_error + app_config) option" where
  "load_config os path =
     (case read_config os path of
        Inl e \<Rightarrow> Some (Inl e)
      | Inr cfg \<Rightarrow>
          (case layer_config os cfg of
             Inl e \<Rightarrow> Some (Inl e)
           | Inr cfg \<Rightarrow>
               (case validate_config os cfg of
                  Some e \<Rightarrow> Some (Inl e)
                | None \<Rightarrow> map_option (\<lambda>ts. Inr (cfg\<lparr>cf_tenants := ts\<rparr>)) (compile_tenants os (cf_tenants cfg)))))"

subsection \<open>The built-in rules keep their shape\<close>

definition rule_safe :: "char \<Rightarrow> bool" where
  "rule_safe c = (c \<noteq> CHR 0x22 \<and> c \<noteq> CHR 0x27 \<and> 32 < byte_val c \<and> byte_val c \<noteq> 127)"

lemma bad_path_runeI: "r \<in> {32, 34, 39, 127} \<or> 0 \<le> r \<and> r \<le> 31 \<Longrightarrow> bad_path_rune r"
  unfolding bad_path_rune_def is_control_rune_def is_space_rune_def by fastforce

lemma inspection_path_safe:
  assumes "\<not> list_ex bad_path_rune (runes p)" "c \<in> set p"
  shows "rule_safe c"
proof -
  have q: "byte_val (CHR 0x22) = 34" "byte_val (CHR 0x27) = 39" by (simp_all add: byte_val_def)
  show ?thesis
  proof (cases "byte_val c < 128")
    case True
    have "\<not> bad_path_rune (byte_val c)" using assms ascii_rune [OF assms(2) True] by (auto simp: list_ex_iff)
    then have "byte_val c \<notin> {32, 34, 39, 127}" "\<not> byte_val c \<le> 31"
      using byte_val_bounds(1) [of c] bad_path_runeI [of "byte_val c"] by blast+
    then show ?thesis using q by (auto simp: rule_safe_def)
  next
    case False
    then show ?thesis using q by (auto simp: rule_safe_def)
  qed
qed

lemma set_quote_meta: "c \<in> set (quote_meta s) \<Longrightarrow> c \<in> set s \<or> c = CHR 0x5C"
  by (auto simp: quote_meta_def split: if_splits)

lemma set_trim_suffix: "set (trim_suffix s t) \<subseteq> set s"
  by (auto simp: trim_suffix_def dest: in_set_takeD)

lemma set_str_join: "c \<in> set (str_join ws sep) \<Longrightarrow> c \<in> set sep \<or> (\<exists>w \<in> set ws. c \<in> set w)"
  by (induction ws sep rule: str_join.induct) auto

text \<open>C33: the inspection paths of a tenant cannot change the built-in rules they are pasted into.  When the paths pass
  validation, the generated text is the constant text of the rules with one list of alternatives in the middle of a quoted
  operator, and that list has no quote, blank, line break or control character that could end the operator.\<close>

theorem llm_rules_not_injectable:
  assumes "validate_inspection_paths name paths = None" "paths \<noteq> []"
  shows "\<exists>alternatives. list_all rule_safe alternatives \<and> build_llm_protection_rules paths =
    llm_rules_head @ nl @ ''SecRule REQUEST_FILENAME '' @ dq @ ''!@rx ^(?:'' @ alternatives @ '')(?:/|$)'' @ dq @ '' '' @ bs @ nl @
    ''    '' @ dq @ ''id:440011,phase:2,pass,nolog,t:none,t:normalizePath,skipAfter:SYNIT-LLM-END'' @ dq @ nl @
    llm_protection_detection_rules @ ''SecMarker '' @ dq @ ''SYNIT-LLM-END'' @ dq @ nl"
proof -
  let ?alt = "str_join (map (\<lambda>path. quote_meta (trim_suffix path ''/'')) paths) ''|''"
  have "rule_safe c" if "c \<in> set ?alt" for c
  proof -
    have s: "rule_safe (CHR 0x5C)" "rule_safe (CHR ''|'')" by (simp_all add: rule_safe_def byte_val_def)
    from set_str_join [OF that] consider "c = CHR ''|''" | "c = CHR 0x5C" | p where "p \<in> set paths" "c \<in> set (trim_suffix p ''/'')"
      using set_quote_meta by fastforce
    then show ?thesis
    proof cases
      case (3 p)
      then have "c \<in> set p" using set_trim_suffix by blast
      then show ?thesis using assms(1) 3(1) inspection_path_safe by (auto simp: validate_inspection_paths_accepted)
    qed (use s in simp_all)
  qed
  then have "list_all rule_safe ?alt" by (simp add: list_all_iff)
  moreover have "build_llm_protection_rules paths =
    llm_rules_head @ nl @ ''SecRule REQUEST_FILENAME '' @ dq @ ''!@rx ^(?:'' @ ?alt @ '')(?:/|$)'' @ dq @ '' '' @ bs @ nl @
    ''    '' @ dq @ ''id:440011,phase:2,pass,nolog,t:none,t:normalizePath,skipAfter:SYNIT-LLM-END'' @ dq @ nl @
    llm_protection_detection_rules @ ''SecMarker '' @ dq @ ''SYNIT-LLM-END'' @ dq @ nl"
    using assms(2) unfolding build_llm_protection_rules_def llm_rules_scope_def by (simp only: if_True append_assoc simp_thms not_False_eq_True)
  ultimately show ?thesis by blast
qed

theorem llm_rules_not_injectable_witness:
  "validate_inspection_paths ''llm_protection.inspect_paths'' [''/v1/chat/'', ''/api.v2''] = None \<and>
   (\<exists>alternatives. list_all rule_safe alternatives \<and> build_llm_protection_rules [''/v1/chat/'', ''/api.v2''] =
    llm_rules_head @ nl @ ''SecRule REQUEST_FILENAME '' @ dq @ ''!@rx ^(?:'' @ alternatives @ '')(?:/|$)'' @ dq @ '' '' @ bs @ nl @
    ''    '' @ dq @ ''id:440011,phase:2,pass,nolog,t:none,t:normalizePath,skipAfter:SYNIT-LLM-END'' @ dq @ nl @
    llm_protection_detection_rules @ ''SecMarker '' @ dq @ ''SYNIT-LLM-END'' @ dq @ nl)"
proof -
  have v: "validate_inspection_paths ''llm_protection.inspect_paths'' [''/v1/chat/'', ''/api.v2''] = None" by code_simp
  show ?thesis by (rule conjI [OF v llm_rules_not_injectable [OF v]]) simp
qed

subsection \<open>What a loaded configuration guarantees\<close>

definition ip_entries_ok :: "string list \<Rightarrow> bool" where
  "ip_entries_ok entries = list_all (\<lambda>entry. parse_prefix entry \<noteq> None \<or> parse_addr entry \<noteq> None) entries"

definition llm_wf :: "security_policy \<Rightarrow> bool" where
  "llm_wf sp =
     (let llm = sp_llm sp in
      llm_enabled llm \<longrightarrow> 0 < llm_max_text_bytes llm \<and> 0 < llm_sidecar_max_batch llm \<and> 0 < llm_timeout llm \<and>
        0 \<le> llm_threshold llm \<and> llm_threshold llm \<le> 1 \<and> (llm_fail_mode llm = ''open'' \<or> llm_fail_mode llm = ''closed'') \<and>
        (llm_action llm = ''deny'' \<or> llm_action llm = ''audit'') \<and>
        (llm_mode llm \<noteq> ''rules'' \<longrightarrow> llm_sidecar_token llm \<noteq> []) \<and> (llm_mode llm \<noteq> ''ml'' \<longrightarrow> opt_true (sp_waf_enabled sp)))"

definition auth_wf :: "security_policy \<Rightarrow> bool" where
  "auth_wf sp = (jwt_enabled (sp_jwt sp) \<longrightarrow> jwt_issuer (sp_jwt sp) \<noteq> [] \<and> jwt_audience (sp_jwt sp) \<noteq> [] \<and> sp_basic_auth sp = [])"

definition limits_wf :: "security_policy \<Rightarrow> bool" where
  "limits_wf sp =
     (0 \<le> rl_requests_per_minute (sp_rate_limit sp) \<and> (0 < rl_requests_per_minute (sp_rate_limit sp) \<longleftrightarrow> 0 < rl_burst (sp_rate_limit sp)) \<and>
      (cb_enabled (sp_circuit_breaker sp) \<longrightarrow> 0 < cb_threshold (sp_circuit_breaker sp) \<and> 0 \<le> cb_cooldown (sp_circuit_breaker sp)))"

definition policy_wf :: "security_policy \<Rightarrow> bool" where
  "policy_wf sp = (llm_wf sp \<and> auth_wf sp \<and> limits_wf sp \<and>
     (opt_true (sp_geoip_enabled sp) \<longrightarrow> sp_blocked_countries sp \<noteq> [] \<and> list_all country_code (sp_blocked_countries sp)))"

definition tenant_wf :: "config_os \<Rightarrow> tenant \<Rightarrow> bool" where
  "tenant_wf os t =
     (tn_upstreams t \<noteq> [] \<and> policy_wf (tn_security t) \<and>
      list_all (\<lambda>rule. rm_compiled rule \<noteq> None) (sp_response_masking (tn_security t)))"

definition config_wf :: "config_os \<Rightarrow> app_config \<Rightarrow> bool" where
  "config_wf os cfg =
     (let g = cf_global cfg in
      cf_tenants cfg \<noteq> [] \<and> distinct (map (normalize_host \<circ> fst) (cf_tenants cfg)) \<and>
      list_all (\<lambda>(fqdn, t). normalize_host fqdn \<noteq> [] \<and> tenant_wf os t) (cf_tenants cfg) \<and>
      (0 < gl_requests_per_minute g \<longrightarrow> 0 < gl_burst g) \<and> 0 \<le> gl_request_body_limit g \<and>
      ip_entries_ok (gl_allow_list g) \<and> ip_entries_ok (gl_block_list g) \<and> ip_entries_ok (gl_trusted_proxy_cidrs g) \<and>
      (gl_trust_forwarded_for g \<longrightarrow> gl_trusted_proxy_cidrs g \<noteq> []) \<and> split_host_port (gl_admin_address g) \<noteq> None)"

lemma blank_Nil [simp]: "trim_space [] = []"
  by (simp add: trim_space_def)

lemma validate_llm_wf: "validate_llm os cfg fqdn sp = None \<Longrightarrow> llm_wf sp"
  by (auto simp: validate_llm_def validate_llm_mode_def llm_wf_def Let_def split: if_splits)

lemma validate_auth_wf: "validate_auth os cfg fqdn sp = None \<Longrightarrow> auth_wf sp"
  by (auto simp: validate_auth_def auth_wf_def Let_def split: if_splits)

lemma validate_limits_wf: "validate_limits fqdn sp = None \<Longrightarrow> limits_wf sp"
  by (auto simp: validate_limits_def limits_wf_def Let_def split: if_splits)

lemma validate_geoip_countries:
  "\<lbrakk> validate_geoip cfg fqdn sp = None; opt_true (sp_geoip_enabled sp) \<rbrakk> \<Longrightarrow>
   sp_blocked_countries sp \<noteq> [] \<and> list_all (\<lambda>c. country_code (to_upper (trim_space c))) (sp_blocked_countries sp)"
  by (auto simp: validate_geoip_def list_all_iff)

lemma validate_masking_compiles:
  "validate_masking os fqdn t = None \<Longrightarrow> rule \<in> set (sp_response_masking (tn_security t)) \<Longrightarrow> cv_regexp os (rm_pattern rule) \<noteq> None"
  by (auto simp: validate_masking_def Let_def)

lemma compile_response_masking_some:
  "(\<forall>rule \<in> set rules. cv_regexp os (rm_pattern rule) \<noteq> None) \<Longrightarrow>
   \<exists>rs. compile_response_masking os rules = Some rs \<and> list_all (\<lambda>rule. rm_compiled rule \<noteq> None) rs"
  by (induction rules) (auto split: option.splits)

lemma is_space_upper_byte [simp]: "is_space_byte (upper_byte c) = is_space_byte c"
  by (auto simp: is_space_byte_def upper_byte_def is_lower_byte_def)

lemma upper_byte_idem [simp]: "upper_byte (upper_byte c) = upper_byte c"
  by (auto simp: upper_byte_def is_lower_byte_def)

lemma trim_space_idem: "trim_space (trim_space s) = trim_space s"
proof -
  let ?u = "dropWhile is_space_byte s"
  let ?w = "rev (dropWhile is_space_byte (rev ?u))"
  have "rev (rev ?u) = ?w @ rev (takeWhile is_space_byte (rev ?u))"
    by (simp only: takeWhile_dropWhile_id flip: rev_append)
  then have "?u = ?w @ rev (takeWhile is_space_byte (rev ?u))" by simp
  then have "?w = [] \<or> \<not> is_space_byte (List.hd ?w)"
    by (metis append_is_Nil_conv hd_append2 hd_dropWhile)
  then have "dropWhile is_space_byte ?w = ?w" by (metis dropWhile_eq_self_iff)
  then show ?thesis by (simp add: trim_space_def)
qed

lemma trim_space_to_upper: "trim_space (to_upper s) = to_upper (trim_space s)"
  by (simp add: trim_space_def to_upper_def dropWhile_map rev_map comp_def)

lemma to_upper_idem: "to_upper (to_upper s) = to_upper s"
  by (simp add: to_upper_def)

text \<open>What preparing the tenants establishes: the country codes are normalized.\<close>

definition countries_normal :: "tenant \<Rightarrow> bool" where
  "countries_normal t = (\<forall>c \<in> set (sp_blocked_countries (tn_security t)). to_upper (trim_space c) = c)"

lemma prepare_tenants_countries:
  "prepare_tenants os ts = Inr ts' \<Longrightarrow> (fqdn, t) \<in> set ts' \<Longrightarrow> countries_normal t"
  by (induction ts arbitrary: ts')
    (auto simp: countries_normal_def trim_space_to_upper to_upper_idem trim_space_idem Let_def split: sum.splits)

lemma compile_tenants_some:
  assumes "\<forall>(fqdn, t) \<in> set ts. validate_masking os fqdn t = None"
  shows "\<exists>ts'. compile_tenants os ts = Some ts' \<and> map fst ts' = map fst ts \<and>
    (\<forall>(fqdn, t') \<in> set ts'. \<exists>t rules. (fqdn, t) \<in> set ts \<and> list_all (\<lambda>rule. rm_compiled rule \<noteq> None) rules \<and>
       t' = tn_security_update (\<lambda>sp. sp\<lparr>sp_response_masking := rules\<rparr>) t)"
  using assms
proof (induction ts)
  case Nil
  then show ?case by simp
next
  case (Cons p ts)
  obtain f t where p: "p = (f, t)" by fastforce
  have "\<forall>rule \<in> set (sp_response_masking (tn_security t)). cv_regexp os (rm_pattern rule) \<noteq> None"
    using Cons.prems validate_masking_compiles by (auto simp: p)
  then obtain rs where rs: "compile_response_masking os (sp_response_masking (tn_security t)) = Some rs"
    "list_all (\<lambda>rule. rm_compiled rule \<noteq> None) rs" using compile_response_masking_some by blast
  obtain ts' where "compile_tenants os ts = Some ts'" "map fst ts' = map fst ts"
    "\<forall>(fqdn, t') \<in> set ts'. \<exists>t rules. (fqdn, t) \<in> set ts \<and> list_all (\<lambda>rule. rm_compiled rule \<noteq> None) rules \<and>
       t' = tn_security_update (\<lambda>sp. sp\<lparr>sp_response_masking := rules\<rparr>) t"
    using Cons by fastforce
  with rs show ?case by (fastforce simp: p)
qed

lemma validate_tenant_wf:
  assumes "validate_tenant os cfg fqdn t = None" "countries_normal t" "list_all (\<lambda>rule. rm_compiled rule \<noteq> None) rules"
  shows "tenant_wf os (tn_security_update (\<lambda>sp. sp\<lparr>sp_response_masking := rules\<rparr>) t)"
proof -
  note v = validate_tenant_accepted [OF assms(1)]
  have "tn_upstreams t \<noteq> []" using v(1) by (simp add: validate_backend_def Let_def)
  moreover have "opt_true (sp_geoip_enabled (tn_security t)) \<Longrightarrow>
    sp_blocked_countries (tn_security t) \<noteq> [] \<and> list_all country_code (sp_blocked_countries (tn_security t))"
    using validate_geoip_countries [OF v(4)] assms(2) by (auto simp: list_all_iff countries_normal_def)
  ultimately show ?thesis
    using validate_llm_wf [OF v(9)] validate_auth_wf [OF v(5)] validate_limits_wf [OF v(7)] assms(3)
    by (simp add: tenant_wf_def policy_wf_def llm_wf_def auth_wf_def limits_wf_def Let_def)
qed

lemma validate_ip_sets_ok:
  "validate_ip_sets g = None \<Longrightarrow> ip_entries_ok (gl_allow_list g) \<and> ip_entries_ok (gl_block_list g) \<and>
   ip_entries_ok (gl_trusted_proxy_cidrs g) \<and> (gl_trust_forwarded_for g \<longrightarrow> gl_trusted_proxy_cidrs g \<noteq> [])"
  by (auto simp: validate_ip_sets_def validate_ip_set_def ip_entries_ok_def list_all_iff)

lemma validate_global_ok:
  "\<lbrakk> validate_global cfg = None; gl_admin_address (cf_global cfg) \<noteq> [] \<rbrakk> \<Longrightarrow>
   (0 < gl_requests_per_minute (cf_global cfg) \<longrightarrow> 0 < gl_burst (cf_global cfg)) \<and> 0 \<le> gl_request_body_limit (cf_global cfg) \<and>
   split_host_port (gl_admin_address (cf_global cfg)) \<noteq> None"
  by (auto simp: validate_global_def Let_def)

lemma validate_tenant_host_ok: "validate_tenant_host a fqdn = None \<Longrightarrow> normalize_host fqdn \<noteq> []"
  by (simp add: validate_tenant_host_def Let_def)

lemma layer_config_inv:
  assumes "layer_config os cfg0 = Inr cfg"
  shows "gl_admin_address (cf_global cfg) \<noteq> []" "\<forall>(fqdn, t) \<in> set (cf_tenants cfg). countries_normal t"
proof -
  obtain c1 ts0 ts where "cfg = (config_defaults c1)\<lparr>cf_tenants := ts\<rparr>" "prepare_tenants os ts0 = Inr ts"
    using assms by (auto simp: layer_config_def Let_def split: sum.splits)
  then show "gl_admin_address (cf_global cfg) \<noteq> []" "\<forall>(fqdn, t) \<in> set (cf_tenants cfg). countries_normal t"
    using prepare_tenants_countries by (auto simp: config_defaults_def Let_def)
qed

lemma accepted_compiles_wf:
  assumes "validate_config os cfg = None" "gl_admin_address (cf_global cfg) \<noteq> []"
    and c: "\<forall>(fqdn, t) \<in> set (cf_tenants cfg). countries_normal t"
  shows "\<exists>ts. compile_tenants os (cf_tenants cfg) = Some ts \<and> config_wf os (cfg\<lparr>cf_tenants := ts\<rparr>)"
proof -
  note a = accepted_tenant [OF assms(1)] and v = assms(1) [unfolded validate_config_accepted validate_tenants_accepted]
  have "\<forall>(fqdn, t) \<in> set (cf_tenants cfg). validate_masking os fqdn t = None"
    using a validate_tenant_accepted(6) by blast
  from compile_tenants_some [OF this] obtain ts where ts: "compile_tenants os (cf_tenants cfg) = Some ts"
    "map fst ts = map fst (cf_tenants cfg)"
    "\<forall>(fqdn, t') \<in> set ts. \<exists>t rules. (fqdn, t) \<in> set (cf_tenants cfg) \<and> list_all (\<lambda>rule. rm_compiled rule \<noteq> None) rules \<and>
       t' = tn_security_update (\<lambda>sp. sp\<lparr>sp_response_masking := rules\<rparr>) t" by blast
  have "normalize_host fqdn \<noteq> [] \<and> tenant_wf os t'" if m: "(fqdn, t') \<in> set ts" for fqdn t'
  proof -
    obtain t rules where t: "(fqdn, t) \<in> set (cf_tenants cfg)" "list_all (\<lambda>rule. rm_compiled rule \<noteq> None) rules"
      "t' = tn_security_update (\<lambda>sp. sp\<lparr>sp_response_masking := rules\<rparr>) t" using ts(3) m by blast
    have "countries_normal t" using c t(1) by blast
    then show ?thesis using validate_tenant_wf [OF _ _ t(2)] validate_tenant_host_ok a [OF t(1)] unfolding t(3) by blast
  qed
  then have "list_all (\<lambda>(fqdn, t). normalize_host fqdn \<noteq> [] \<and> tenant_wf os t) ts" unfolding list_all_iff by blast
  moreover have "ts \<noteq> []" using v ts(2) by auto
  moreover have "distinct (map normalize_host (map fst ts))" using v unfolding ts(2) by simp
  moreover have "validate_ip_sets (cf_global cfg) = None" "validate_global cfg = None" using v by blast+
  note validate_ip_sets_ok [OF this(1)] validate_global_ok [OF this(2) assms(2)]
  ultimately have "config_wf os (cfg\<lparr>cf_tenants := ts\<rparr>)" by (simp add: config_wf_def Let_def)
  then show ?thesis using ts(1) by blast
qed

lemma load_config_wf:
  "case load_config os path of None \<Rightarrow> False | Some (Inl e) \<Rightarrow> True | Some (Inr cfg) \<Rightarrow> config_wf os cfg"
proof (cases "read_config os path")
  case (Inl e)
  then show ?thesis by (simp add: load_config_def)
next
  case (Inr cfg0)
  note r = Inr
  show ?thesis
  proof (cases "layer_config os cfg0")
    case (Inl e)
    then show ?thesis using r by (simp add: load_config_def)
  next
    case (Inr cfg)
    show ?thesis
    proof (cases "validate_config os cfg")
      case (Some e)
      then show ?thesis using r Inr by (simp add: load_config_def)
    next
      case None
      from accepted_compiles_wf [OF None layer_config_inv [OF Inr]] obtain ts
        where "compile_tenants os (cf_tenants cfg) = Some ts" "config_wf os (cfg\<lparr>cf_tenants := ts\<rparr>)" by blast
      then show ?thesis using r Inr None by (simp add: load_config_def)
    qed
  qed
qed

text \<open>C32: \<open>LoadConfig\<close> always returns: the patterns it compiles at the end were checked before, so \<open>MustCompile\<close> never panics.
  A configuration that it returns is well formed, whatever the files, the environment and the libraries answer: the tenants have
  distinct, non-empty hosts and upstreams, their limits, modes and thresholds are in range, a tenant that validates tokens names
  an issuer and an audience and uses no basic authentication, a sidecar has a token, the country codes are normalized, every
  masking pattern is compiled, and every entry of an IP set parses.\<close>

theorem load_config_well_formed:
  "case load_config os path of None \<Rightarrow> False | Some (Inl e) \<Rightarrow> True | Some (Inr cfg) \<Rightarrow> config_wf os cfg"
  by (rule load_config_wf)

text \<open>A file system that holds the sample configuration, without tenant shards, and one variable of the environment.\<close>

definition sample_load_os :: config_os where
  "sample_load_os = sample_os\<lparr>cv_read_file := (\<lambda>p. if p = ''/etc/waf/config.yml'' then Some ''sample'' else None),
     cv_yaml_config := (\<lambda>data. (Some sample_config, YamlEnd)),
     cv_getenv := (\<lambda>name. if name = ''WAF_GLOBAL_REQUEST_BODY_LIMIT'' then ''4096'' else [])\<rparr>"

lemma sample_load:
  "case load_config sample_load_os ''/etc/waf/config.yml'' of
     Some (Inr cfg) \<Rightarrow> map fst (cf_tenants cfg) = [''WWW.example.com.'', ''*.example.com''] \<and>
       gl_request_body_limit (cf_global cfg) = 4096 \<and> gl_admin_address (cf_global cfg) = ''127.0.0.1:9090''
   | _ \<Rightarrow> False"
  by code_simp

end
