(* ===== verification/Reload.thy ===== *)
theory Reload
  imports Load Handlers
begin

text \<open>
  \<open>Reload\<close> of \<open>internal/waf/config.go\<close>: it loads the configuration, builds the Coraza
  engines, the tenant states and the clients of the services, and publishes them.

  \<open>runtime\<close> is the handler with the state that only a reload touches: the pool
  settings, the counter of reloads, the upstreams that have a running health check,
  whether the CrowdSec check runs, and the domains handed to certificate management.
  Coraza is a function of the rules directory, of the fingerprint of the files in it
  and of the directives: two directories with the same fingerprint are taken to hold
  the same rules.  Closing the coordinator and the country database that a reload
  replaces acts on objects that are no longer used, and is left out.
\<close>

subsection \<open>State and parameters\<close>

record runtime =
  rn_handler :: proxy_handler
  rn_upstream_pool :: "upstream_pool_settings option"
  rn_reload_total :: "(string \<times> int) list"
  rn_health_checked :: "(string \<times> string) list"
  rn_crowdsec_check :: bool
  rn_managed_domains :: "string list"

text \<open>A file of the rules directory: its path, size and modification time.\<close>

type_synonym rule_file = "string \<times> int \<times> int"

record reload_env =
  re_os :: config_os
  re_walk :: "string \<Rightarrow> rule_file list"
  re_sha256 :: "string \<Rightarrow> string"
  re_coraza :: "string \<Rightarrow> string \<Rightarrow> string \<Rightarrow> coraza_waf option"
  re_bouncer_init :: "string \<Rightarrow> string \<Rightarrow> bool"
  re_crowdsec_probe :: bool
  re_open_db :: "string \<Rightarrow> geo_reader option"
  re_tls :: tls_env
  re_listen :: "string \<Rightarrow> bool"
  re_tcp_dial :: "string \<Rightarrow> duration \<Rightarrow> bool"
  re_http_get :: "url \<Rightarrow> string \<Rightarrow> duration \<Rightarrow> int option"

(* src: internal/waf/config.go:734-748 rulesDirFingerprint *)
definition rules_dir_fingerprint :: "rule_file list \<Rightarrow> string" where
  "rules_dir_fingerprint files =
     concat (map (\<lambda>(path, size, mtime). path @ [CHR 0x00] @ itoa size @ [CHR 0x00] @ itoa mtime @ [CHR 0x0A]) files)"

(* src: internal/waf/config.go:874 Reload (cache key) *)
definition waf_cache_input :: "string \<Rightarrow> string \<Rightarrow> string \<Rightarrow> string" where
  "waf_cache_input rules_dir fingerprint directives = rules_dir @ [CHR 0x00] @ fingerprint @ [CHR 0x00] @ directives"

subsection \<open>Building the tenants\<close>

text \<open>What the loop over the tenants builds up.\<close>

(* src: internal/waf/config.go:838-858 Reload (new state) *)
record build_state =
  bt_mapping :: "(string \<times> entry) list"
  bt_states :: "(string \<times> tenant_state) list"
  bt_proxy_tenants :: "string \<Rightarrow> tenant"
  bt_waf_cache :: "(string \<times> coraza_waf) list"
  bt_crowdsec :: bool
  bt_geoip :: bool

(* src: internal/waf/config.go:871-892 Reload (Coraza engine) *)
definition tenant_waf ::
  "reload_env \<Rightarrow> app_config \<Rightarrow> string \<Rightarrow> (string \<times> coraza_waf) list \<Rightarrow> (string \<times> coraza_waf) list \<Rightarrow> string \<Rightarrow> tenant \<Rightarrow>
   go_error + coraza_waf option \<times> (string \<times> coraza_waf) list" where
  "tenant_waf env cfg fingerprint old_cache cache fqdn tenant =
     (if \<not> opt_true (sp_waf_enabled (tn_security tenant)) then Inr (None, cache)
      else
        let rules_dir = gl_rules_dir (cf_global cfg);
            directives = tenant_directives cfg tenant;
            k = re_sha256 env (waf_cache_input rules_dir fingerprint directives)
        in case (case map_of cache k of
                   Some w \<Rightarrow> Some w
                 | None \<Rightarrow> (case map_of old_cache k of
                              Some w \<Rightarrow> Some w
                            | None \<Rightarrow> re_coraza env rules_dir fingerprint directives)) of
             None \<Rightarrow> Inl (Errorf ''failed to create WAF for tenant %s: %w'' [fqdn] None)
           | Some w \<Rightarrow> Inr (Some w, assoc_put k w cache))"

(* src: internal/waf/config.go:894-900 Reload (block page) *)
definition tenant_block_page :: "config_os \<Rightarrow> string \<Rightarrow> tenant \<Rightarrow> go_error + string" where
  "tenant_block_page os fqdn tenant =
     (let path = sp_block_page_path (tn_security tenant) in
      if path = [] then Inr []
      else case cv_read_file os path of
             None \<Rightarrow> Inl (Errorf ''tenant %s block_page_path: %w'' [fqdn] None)
           | Some page \<Rightarrow> Inr page)"

fun build_error_value :: "string \<Rightarrow> build_error \<Rightarrow> go_error" where
  "build_error_value host (InvalidMaskingPattern fqdn) = Errorf ''tenant %s has invalid response_masking pattern %q: %w'' [host] None"
| "build_error_value host (InvalidUpstreamUrl raw) = Errorf ''tenant %s has invalid upstream URL %q: %w'' [host, raw] None"
| "build_error_value host (NoUpstream fqdn) = Errorf ''tenant %s must define at least one valid upstream'' [host] None"

(* src: internal/waf/config.go:861-913 Reload (one tenant) *)
definition build_tenant ::
  "reload_env \<Rightarrow> app_config \<Rightarrow> string \<Rightarrow> upstream_pool_settings \<Rightarrow> (string \<times> coraza_waf) list \<Rightarrow>
   string \<Rightarrow> tenant \<Rightarrow> build_state \<Rightarrow> go_error + build_state" where
  "build_tenant env cfg fingerprint pool old_cache fqdn tenant bt =
     (case tenant_waf env cfg fingerprint old_cache (bt_waf_cache bt) fqdn tenant of
        Inl e \<Rightarrow> Inl e
      | Inr (waf, cache) \<Rightarrow>
          (case tenant_block_page (re_os env) fqdn tenant of
             Inl e \<Rightarrow> Inl e
           | Inr block_page \<Rightarrow>
               (let host = normalize_host fqdn in
                case build_tenant_state (cv_regexp (re_os env)) (\<lambda>raw. map_option url.truncate (cv_url_parse (re_os env) raw))
                       (Some pool) host tenant of
                  Inl e \<Rightarrow> Inl (build_error_value host e)
                | Inr (compiled, state) \<Rightarrow>
                    Inr \<lparr>bt_mapping = assoc_put host \<lparr>en_waf = waf, en_tenant = tenant, en_block_page = block_page\<rparr> (bt_mapping bt),
                         bt_states = assoc_put host state (bt_states bt),
                         bt_proxy_tenants = (bt_proxy_tenants bt)(host := compiled),
                         bt_waf_cache = cache,
                         bt_crowdsec = (bt_crowdsec bt \<or> opt_true (sp_crowdsec_enabled (tn_security tenant))),
                         bt_geoip = (bt_geoip bt \<or> opt_true (sp_geoip_enabled (tn_security tenant)))\<rparr>)))"

(* src: internal/waf/config.go:860-914 Reload (tenants) *)
fun build_tenants ::
  "reload_env \<Rightarrow> app_config \<Rightarrow> string \<Rightarrow> upstream_pool_settings \<Rightarrow> (string \<times> coraza_waf) list \<Rightarrow>
   (string \<times> tenant) list \<Rightarrow> build_state \<Rightarrow> go_error + build_state" where
  "build_tenants env cfg fingerprint pool old_cache [] bt = Inr bt"
| "build_tenants env cfg fingerprint pool old_cache ((fqdn, tenant) # ts) bt =
     (case build_tenant env cfg fingerprint pool old_cache fqdn tenant bt of
        Inl e \<Rightarrow> Inl e
      | Inr bt \<Rightarrow> build_tenants env cfg fingerprint pool old_cache ts bt)"

definition empty_build :: build_state where
  "empty_build = \<lparr>bt_mapping = [], bt_states = [], bt_proxy_tenants = (\<lambda>_. zero_tenant), bt_waf_cache = [],
     bt_crowdsec = False, bt_geoip = False\<rparr>"

subsection \<open>The services\<close>

(* src: internal/waf/config.go:809-822 Reload (added domains) *)
definition added_domains :: "registry \<Rightarrow> app_config \<Rightarrow> go_error + string list" where
  "added_domains r cfg =
     (let current = get_domains r;
          added = sort (filter (\<lambda>d. d \<notin> set current) (map (normalize_host \<circ> fst) (cf_tenants cfg)))
      in if \<not> am_enabled (gl_acme (cf_global cfg)) \<or> current = [] then Inr []
         else if added \<noteq> [] \<and> \<not> rg_domain_manager r then
           Inl (Errorf ''tenant domain changes require a restart while ACME is enabled'' [] None)
         else Inr added)"

(* src: internal/waf/config.go:805-822 Reload (ACME) *)
definition check_acme :: "registry \<Rightarrow> app_config \<Rightarrow> go_error + string list" where
  "check_acme r cfg =
     (if (case rg_acme_enabled r of None \<Rightarrow> False | Some b \<Rightarrow> b \<noteq> am_enabled (gl_acme (cf_global cfg)))
      then Inl (Errorf ''changing global_settings.acme.enabled requires a restart'' [] None)
      else added_domains r cfg)"

text \<open>The bouncer exists or not; the second component is the result of its first probe.\<close>

(* src: internal/waf/config.go:916-934 Reload (CrowdSec) *)
definition next_bouncer :: "reload_env \<Rightarrow> app_config \<Rightarrow> bool \<Rightarrow> go_error + bool \<times> bool" where
  "next_bouncer env cfg required =
     (if \<not> required then Inr (False, False)
      else if \<not> re_bouncer_init env (cf_crowdsec_api_url cfg) (cf_crowdsec_api_key cfg) then
        Inl (Errorf ''CrowdSec bouncer init failed: %w'' [] None)
      else if \<not> re_crowdsec_probe env \<and>
              normalize_dependency_fail_mode (gl_dependency_fail_mode (cf_global cfg)) = ''fail_closed'' then
        Inl (Errorf ''CrowdSec readiness check failed in fail-closed mode: %w'' [] None)
      else Inr (True, re_crowdsec_probe env))"

(* src: internal/waf/config.go:940-946 Reload (GeoIP) *)
definition next_geoip :: "reload_env \<Rightarrow> app_config \<Rightarrow> bool \<Rightarrow> go_error + geo_reader option" where
  "next_geoip env cfg required =
     (if \<not> required then Inr None
      else case open_country_lookup (re_open_db env) (cf_geoip_db_path cfg) of
             None \<Rightarrow> Inl (Errorf ''open GeoIP database: %w'' [] None)
           | Some reader \<Rightarrow> Inr (Some reader))"

(* src: internal/waf/config.go:948-984 Reload (coordinator) *)
definition next_coordinator :: "reload_env \<Rightarrow> coordinator_settings \<Rightarrow> coordinator option \<Rightarrow> go_error + coordinator option" where
  "next_coordinator env c old =
     (if \<not> cs_enabled c then Inr None
      else case configure_tls (re_tls env) (cs_ca_file c) (cs_cert_file c) (cs_key_file c) (cs_server_name c)
                  (new_coordinator (cs_role c) (cs_address c) (cs_secret c)) of
             Inl e \<Rightarrow> Inl (Errorf ''configure coordinator TLS: %w'' [] None)
           | Inr candidate \<Rightarrow>
               if same_configuration old (Some candidate) then Inr old
               else if (case old of
                          None \<Rightarrow> False
                        | Some o' \<Rightarrow> co_role o' = ''leader'' \<and> co_role candidate = ''leader'' \<and> co_address o' = co_address candidate)
                 then Inl (Errorf ''changing coordinator leader configuration on the same address requires a restart'' [] None)
               else (case start_coordinator (re_listen env) candidate of
                       Inl e \<Rightarrow> Inl (Errorf ''start coordinator: %w'' [] None)
                     | Inr started \<Rightarrow> Inr (Some started)))"

subsection \<open>Reload\<close>

record next_runtime =
  nx_build :: build_state
  nx_bouncer :: bool
  nx_crowdsec_healthy :: bool
  nx_geoip :: "geo_reader option"
  nx_coordinator :: "coordinator option"

(* src: internal/waf/config.go:838-984 Reload (preparation) *)
definition prepare_reload :: "reload_env \<Rightarrow> app_config \<Rightarrow> upstream_pool_settings \<Rightarrow> proxy_handler \<Rightarrow> go_error + next_runtime" where
  "prepare_reload env cfg pool h =
     (let fingerprint = rules_dir_fingerprint (re_walk env (gl_rules_dir (cf_global cfg))) in
      case build_tenants env cfg fingerprint pool (rg_waf_cache (ph_registry h)) (cf_tenants cfg) empty_build of
        Inl e \<Rightarrow> Inl e
      | Inr bt \<Rightarrow>
          (case next_bouncer env cfg (bt_crowdsec bt) of
             Inl e \<Rightarrow> Inl e
           | Inr (bouncer, healthy) \<Rightarrow>
               (case next_geoip env cfg (bt_geoip bt) of
                  Inl e \<Rightarrow> Inl e
                | Inr geoip \<Rightarrow>
                    (case next_coordinator env (gl_coordinator (cf_global cfg)) (rt_coordinator (ph_rate h)) of
                       Inl e \<Rightarrow> Inl e
                     | Inr coordinator \<Rightarrow>
                         Inr \<lparr>nx_build = bt, nx_bouncer = bouncer, nx_crowdsec_healthy = healthy, nx_geoip = geoip,
                              nx_coordinator = coordinator\<rparr>))))"

(* src: internal/waf/config.go:824-828 Reload (global limiter) *)
definition next_global_limiter :: "global_settings \<Rightarrow> limiter option" where
  "next_global_limiter g =
     (if gl_requests_per_minute g > 0 then Some (new_limiter (real_of_int (gl_requests_per_minute g) / 60) (gl_burst g)) else None)"

definition positive_or :: "int \<Rightarrow> int \<Rightarrow> int" where
  "positive_or limit fallback = (if limit \<le> 0 then fallback else limit)"

(* src: internal/waf/config.go:1024-1030 Reload (registry) *)
definition publish_registry :: "app_config \<Rightarrow> build_state \<Rightarrow> registry \<Rightarrow> registry" where
  "publish_registry cfg bt r = r\<lparr>rg_mapping := bt_mapping bt, rg_wildcards := Some (build_wildcard_index (bt_mapping bt)),
     rg_waf_cache := bt_waf_cache bt, rg_acme_enabled := Some (am_enabled (gl_acme (cf_global cfg)))\<rparr>"

(* src: internal/waf/config.go:986-1030 Reload (publication) *)
definition publish_handler :: "reload_env \<Rightarrow> app_config \<Rightarrow> next_runtime \<Rightarrow> proxy_handler \<Rightarrow> proxy_handler" where
  "publish_handler env cfg nx h =
     (let g = cf_global cfg;
          (states, m) = probe_tenant_states (re_tcp_dial env) (re_http_get env) (bt_states (nx_build nx)) (ph_upstream_metrics h);
          (states, old, m) = replace_tenant_states states (ph_tenant_states h) m
      in set_dependency_fail_mode (gl_dependency_fail_mode g)
         (h\<lparr>ph_global_limiter := next_global_limiter g,
            ph_allow_ips := parse_ip_sets (gl_allow_list g), ph_block_ips := parse_ip_sets (gl_block_list g),
            ph_trusted_proxies := parse_ip_sets (gl_trusted_proxy_cidrs g),
            ph_rate := (ph_rate h)\<lparr>rt_coordinator := nx_coordinator nx\<rparr>,
            ph_trust_forwarded_for := gl_trust_forwarded_for g,
            ph_request_body_limit := positive_or (gl_request_body_limit g) default_request_body_cap,
            ph_response_masking_limit := positive_or (gl_response_masking_limit g) default_request_body_cap,
            ph_crowdsec_required := (bt_crowdsec (nx_build nx) \<and>
              normalize_dependency_fail_mode (gl_dependency_fail_mode g) = ''fail_closed''),
            ph_crowdsec := \<lparr>cs_cache = [], cs_healthy = nx_crowdsec_healthy nx\<rparr>,
            ph_bouncer := nx_bouncer nx,
            ph_crowdsec_ttl := (case cf_crowdsec_cache_ttl cfg of None \<Rightarrow> default_crowdsec_cache_ttl | Some ttl \<Rightarrow> ttl),
            ph_geoip := nx_geoip nx,
            ph_tenant_states := states, ph_upstream_metrics := m, ph_proxy_tenants := bt_proxy_tenants (nx_build nx),
            ph_llm_cache := [], ph_auth_cache := [],
            ph_registry := publish_registry cfg (nx_build nx) (ph_registry h)\<rparr>))"

(* src: internal/waf/middleware.go:1014-1020 ProxyHandler.startHealthChecksForStates *)
definition start_health_checks :: "(string \<times> tenant_state) list \<Rightarrow> (string \<times> string) list" where
  "start_health_checks states = concat (map (\<lambda>(fqdn, state). map upstream_labels (ts_upstreams state)) states)"

(* src: internal/waf/config.go:986-1047 Reload (publication and health checks) *)
definition publish :: "reload_env \<Rightarrow> app_config \<Rightarrow> string list \<Rightarrow> next_runtime \<Rightarrow> runtime \<Rightarrow> runtime" where
  "publish env cfg added nx rt =
     (let h = publish_handler env cfg nx (rn_handler rt)
      in rt\<lparr>rn_handler := h, rn_health_checked := start_health_checks (ph_tenant_states h), rn_crowdsec_check := nx_bouncer nx,
            rn_managed_domains := rn_managed_domains rt @ added\<rparr>)"

(* src: internal/waf/config.go:792-799 Reload (counter) *)
definition count_reload :: "string \<Rightarrow> runtime \<Rightarrow> runtime" where
  "count_reload outcome rt = rt\<lparr>rn_reload_total := counter_inc outcome (rn_reload_total rt)\<rparr>"

(* src: internal/waf/config.go:833-836 Reload (pool settings) *)
definition reload_pool :: "app_config \<Rightarrow> upstream_pool_settings" where
  "reload_pool cfg = \<lparr>ps_max_idle_conns_per_host = gl_max_idle_conns_per_host (cf_global cfg),
     ps_max_conns_per_host = gl_max_conns_per_host (cf_global cfg)\<rparr>"

text \<open>\<open>None\<close> is a panic; the first component of the result is the error.\<close>

(* src: internal/waf/config.go:788-1056 SafeWAFRegistry.Reload *)
definition reload :: "reload_env \<Rightarrow> string \<Rightarrow> runtime \<Rightarrow> (go_error option \<times> runtime) option" where
  "reload env path rt =
     (case load_config (re_os env) path of
        None \<Rightarrow> None
      | Some (Inl e) \<Rightarrow> Some (Some e, count_reload ''failure'' rt)
      | Some (Inr cfg) \<Rightarrow>
          (case check_acme (ph_registry (rn_handler rt)) cfg of
             Inl e \<Rightarrow> Some (Some e, count_reload ''failure'' rt)
           | Inr added \<Rightarrow>
               (let rt = rt\<lparr>rn_upstream_pool := Some (reload_pool cfg)\<rparr> in
                case prepare_reload env cfg (reload_pool cfg) (rn_handler rt) of
                  Inl e \<Rightarrow> Some (Some e, count_reload ''failure'' rt)
                | Inr nx \<Rightarrow> Some (None, count_reload ''success'' (publish env cfg added nx rt)))))"

subsection \<open>The cache of Coraza engines\<close>

lemma append_sep_inject:
  "\<lbrakk> c \<notin> set a; c \<notin> set b; a @ [c] @ x = b @ [c] @ y \<rbrakk> \<Longrightarrow> a = b \<and> x = y"
proof (induction a arbitrary: b)
  case Nil
  then show ?case by (cases b) auto
next
  case (Cons d a)
  then show ?case by (cases b) auto
qed

definition file_ok :: "rule_file \<Rightarrow> bool" where
  "file_ok = (\<lambda>(path, size, mtime). path \<noteq> [] \<and> CHR 0x00 \<notin> set path \<and> 0 \<le> size \<and> 0 \<le> mtime)"

lemma fingerprint_line_inject:
  assumes "file_ok f" "file_ok g"
    and "rules_dir_fingerprint (f # fs) @ x = rules_dir_fingerprint (g # gs) @ y"
  shows "f = g \<and> rules_dir_fingerprint fs @ x = rules_dir_fingerprint gs @ y"
proof -
  obtain p s m q t n where f: "f = (p, s, m)" and g: "g = (q, t, n)" by (metis prod_cases3)
  have nul: "\<not> is_digit_byte (CHR 0x00)" "\<not> is_digit_byte (CHR 0x0A)" by code_simp+
  have ok: "CHR 0x00 \<notin> set p" "CHR 0x00 \<notin> set q" "0 \<le> s" "0 \<le> m" "0 \<le> t" "0 \<le> n"
    using assms(1,2) by (auto simp: f g file_ok_def)
  have e: "p @ [CHR 0x00] @ (itoa s @ [CHR 0x00] @ (itoa m @ [CHR 0x0A] @ (rules_dir_fingerprint fs @ x))) =
    q @ [CHR 0x00] @ (itoa t @ [CHR 0x00] @ (itoa n @ [CHR 0x0A] @ (rules_dir_fingerprint gs @ y)))"
    using assms(3) by (simp add: f g rules_dir_fingerprint_def)
  from append_sep_inject [OF ok(1,2) e] have p: "p = q" and
    e: "itoa s @ [CHR 0x00] @ (itoa m @ [CHR 0x0A] @ (rules_dir_fingerprint fs @ x)) =
    itoa t @ [CHR 0x00] @ (itoa n @ [CHR 0x0A] @ (rules_dir_fingerprint gs @ y))" by blast+
  from append_sep_inject [OF itoa_no_byte [OF nul(1) ok(3)] itoa_no_byte [OF nul(1) ok(5)] e]
  have s: "itoa s = itoa t" and e: "itoa m @ [CHR 0x0A] @ (rules_dir_fingerprint fs @ x) =
    itoa n @ [CHR 0x0A] @ (rules_dir_fingerprint gs @ y)" by blast+
  from append_sep_inject [OF itoa_no_byte [OF nul(2) ok(4)] itoa_no_byte [OF nul(2) ok(6)] e]
  have "itoa m = itoa n" "rules_dir_fingerprint fs @ x = rules_dir_fingerprint gs @ y" by blast+
  then show ?thesis using p s itoa_inject ok by (simp add: f g)
qed

lemma fingerprint_starts_path:
  assumes "file_ok f" "rules_dir_fingerprint (f # fs) @ x = CHR 0x00 # y"
  shows False
proof -
  obtain p s m where f: "f = (p, s, m)" by (metis prod_cases3)
  obtain c q where "p = c # q" using assms(1) by (cases p) (auto simp: f file_ok_def)
  then show False using assms by (auto simp: f file_ok_def rules_dir_fingerprint_def)
qed

lemma fingerprint_inject:
  "\<lbrakk> list_all file_ok fs; list_all file_ok gs;
     rules_dir_fingerprint fs @ CHR 0x00 # x = rules_dir_fingerprint gs @ CHR 0x00 # y \<rbrakk> \<Longrightarrow>
   fs = gs \<and> x = y"
proof (induction fs arbitrary: gs)
  case Nil
  then show ?case using fingerprint_starts_path by (cases gs) (auto simp: rules_dir_fingerprint_def, metis)
next
  case (Cons f fs)
  show ?case
  proof (cases gs)
    case Nil
    then show ?thesis using Cons.prems fingerprint_starts_path [of f fs] by (auto simp: rules_dir_fingerprint_def)
  next
    case (Cons g gs')
    then show ?thesis using Cons.prems fingerprint_line_inject [of f g fs _ gs'] Cons.IH [of gs'] by auto
  qed
qed

lemma waf_cache_input_inject:
  assumes "CHR 0x00 \<notin> set dir" "CHR 0x00 \<notin> set dir'" "list_all file_ok fs" "list_all file_ok gs"
    "waf_cache_input dir (rules_dir_fingerprint fs) ds = waf_cache_input dir' (rules_dir_fingerprint gs) ds'"
  shows "dir = dir' \<and> fs = gs \<and> ds = ds'"
proof -
  have e: "dir @ [CHR 0x00] @ (rules_dir_fingerprint fs @ CHR 0x00 # ds) = dir' @ [CHR 0x00] @ (rules_dir_fingerprint gs @ CHR 0x00 # ds')"
    using assms(5) by (simp add: waf_cache_input_def)
  from append_sep_inject [OF assms(1,2) e] fingerprint_inject [OF assms(3,4)] show ?thesis by blast
qed

text \<open>Every cached engine is the one that Coraza builds from what its key was computed from.\<close>

definition coherent ::
  "(string \<Rightarrow> string \<Rightarrow> string \<Rightarrow> coraza_waf option) \<Rightarrow> (string \<Rightarrow> string) \<Rightarrow> (string \<times> coraza_waf) list \<Rightarrow> bool" where
  "coherent coraza sha cache \<longleftrightarrow>
     (\<forall>k w. map_of cache k = Some w \<longrightarrow>
        (\<exists>dir files ds. CHR 0x00 \<notin> set dir \<and> list_all file_ok files \<and>
           k = sha (waf_cache_input dir (rules_dir_fingerprint files) ds) \<and> coraza dir (rules_dir_fingerprint files) ds = Some w))"

lemma coherent_hit:
  assumes "coherent coraza sha cache" "inj sha" "CHR 0x00 \<notin> set dir" "list_all file_ok files"
    "map_of cache (sha (waf_cache_input dir (rules_dir_fingerprint files) ds)) = Some w"
  shows "coraza dir (rules_dir_fingerprint files) ds = Some w"
proof -
  obtain dir' files' ds' where d: "CHR 0x00 \<notin> set dir'" "list_all file_ok files'"
    "sha (waf_cache_input dir (rules_dir_fingerprint files) ds) = sha (waf_cache_input dir' (rules_dir_fingerprint files') ds')"
    "coraza dir' (rules_dir_fingerprint files') ds' = Some w"
    using assms(1,5) unfolding coherent_def by blast
  then have "waf_cache_input dir (rules_dir_fingerprint files) ds = waf_cache_input dir' (rules_dir_fingerprint files') ds'"
    using assms(2) by (simp add: inj_eq)
  then have "dir = dir' \<and> files = files' \<and> ds = ds'" using waf_cache_input_inject assms(3,4) d(1,2) by blast
  then show ?thesis using d(4) by simp
qed

lemma coherent_put:
  assumes "coherent coraza sha cache" "CHR 0x00 \<notin> set dir" "list_all file_ok files"
    "coraza dir (rules_dir_fingerprint files) ds = Some w"
  shows "coherent coraza sha (assoc_put (sha (waf_cache_input dir (rules_dir_fingerprint files) ds)) w cache)"
  using assms unfolding coherent_def by (auto simp del: split_paired_Ex)

text \<open>The engine that a tenant has to get.\<close>

definition fresh_waf :: "reload_env \<Rightarrow> app_config \<Rightarrow> string \<Rightarrow> tenant \<Rightarrow> coraza_waf option" where
  "fresh_waf env cfg fingerprint tenant =
     (if opt_true (sp_waf_enabled (tn_security tenant))
      then re_coraza env (gl_rules_dir (cf_global cfg)) fingerprint (tenant_directives cfg tenant) else None)"

lemma tenant_waf_fresh:
  assumes "coherent (re_coraza env) (re_sha256 env) old" "coherent (re_coraza env) (re_sha256 env) cache" "inj (re_sha256 env)"
    "CHR 0x00 \<notin> set (gl_rules_dir (cf_global cfg))" "list_all file_ok files"
    "tenant_waf env cfg (rules_dir_fingerprint files) old cache fqdn tenant = Inr (waf, cache')"
  shows "waf = fresh_waf env cfg (rules_dir_fingerprint files) tenant \<and> coherent (re_coraza env) (re_sha256 env) cache' \<and>
    (waf \<noteq> None \<longleftrightarrow> opt_true (sp_waf_enabled (tn_security tenant)))"
proof (cases "opt_true (sp_waf_enabled (tn_security tenant))")
  case False
  then show ?thesis using assms by (auto simp: tenant_waf_def fresh_waf_def)
next
  case True
  let ?k = "re_sha256 env (waf_cache_input (gl_rules_dir (cf_global cfg)) (rules_dir_fingerprint files) (tenant_directives cfg tenant))"
  obtain w where w: "(case map_of cache ?k of Some w \<Rightarrow> Some w
      | None \<Rightarrow> (case map_of old ?k of Some w \<Rightarrow> Some w
      | None \<Rightarrow> re_coraza env (gl_rules_dir (cf_global cfg)) (rules_dir_fingerprint files) (tenant_directives cfg tenant))) = Some w"
    "waf = Some w" "cache' = assoc_put ?k w cache"
    using assms(6) True by (auto simp: tenant_waf_def Let_def split: option.splits)
  have "re_coraza env (gl_rules_dir (cf_global cfg)) (rules_dir_fingerprint files) (tenant_directives cfg tenant) = Some w"
    using w(1) coherent_hit [OF assms(1,3,4,5)] coherent_hit [OF assms(2,3,4,5)] by (auto split: option.splits)
  then show ?thesis using True w coherent_put [OF assms(2,4,5)] by (simp add: fresh_waf_def)
qed

subsection \<open>What building the tenants establishes\<close>

definition entry_fresh :: "reload_env \<Rightarrow> app_config \<Rightarrow> string \<Rightarrow> entry \<Rightarrow> bool" where
  "entry_fresh env cfg fingerprint e \<longleftrightarrow> en_waf e = fresh_waf env cfg fingerprint (en_tenant e) \<and>
     (en_waf e \<noteq> None \<longleftrightarrow> opt_true (sp_waf_enabled (tn_security (en_tenant e))))"

definition build_ok :: "reload_env \<Rightarrow> app_config \<Rightarrow> string \<Rightarrow> build_state \<Rightarrow> bool" where
  "build_ok env cfg fingerprint bt \<longleftrightarrow>
     wf_assoc (bt_mapping bt) \<and> fst ` set (bt_states bt) = fst ` set (bt_mapping bt) \<and>
     (\<forall>p \<in> set (bt_mapping bt). entry_fresh env cfg fingerprint (snd p)) \<and>
     (\<forall>p \<in> set (bt_states bt). ts_upstreams (snd p) \<noteq> []) \<and> coherent (re_coraza env) (re_sha256 env) (bt_waf_cache bt)"

lemma empty_build_ok: "build_ok env cfg fingerprint empty_build"
  by (simp add: build_ok_def empty_build_def coherent_def)

lemma build_tenant_state_upstreams: "build_tenant_state compile parse pool fqdn t = Inr (t', st) \<Longrightarrow> ts_upstreams st \<noteq> []"
  by (auto simp: build_tenant_state_def Let_def split: option.splits sum.splits list.splits)

text \<open>The assumptions on the environment of a reload.\<close>

definition env_ok ::
  "(string \<Rightarrow> string \<Rightarrow> string \<Rightarrow> coraza_waf option) \<Rightarrow> (string \<Rightarrow> string) \<Rightarrow> reload_env \<Rightarrow> app_config \<Rightarrow> bool" where
  "env_ok coraza sha env cfg \<longleftrightarrow> re_coraza env = coraza \<and> re_sha256 env = sha \<and> inj sha \<and>
     CHR 0x00 \<notin> set (gl_rules_dir (cf_global cfg)) \<and> list_all file_ok (re_walk env (gl_rules_dir (cf_global cfg)))"

abbreviation current_fingerprint :: "reload_env \<Rightarrow> app_config \<Rightarrow> string" where
  "current_fingerprint env cfg \<equiv> rules_dir_fingerprint (re_walk env (gl_rules_dir (cf_global cfg)))"

lemma build_tenant_cases:
  assumes "build_tenant env cfg fingerprint pool old fqdn t bt = Inr bt'"
  obtains waf cache page state where
    "tenant_waf env cfg fingerprint old (bt_waf_cache bt) fqdn t = Inr (waf, cache)" "ts_upstreams state \<noteq> []"
    "bt_mapping bt' = assoc_put (normalize_host fqdn) \<lparr>en_waf = waf, en_tenant = t, en_block_page = page\<rparr> (bt_mapping bt)"
    "bt_states bt' = assoc_put (normalize_host fqdn) state (bt_states bt)" "bt_waf_cache bt' = cache"
proof -
  obtain waf cache where w: "tenant_waf env cfg fingerprint old (bt_waf_cache bt) fqdn t = Inr (waf, cache)"
    using assms by (auto simp: build_tenant_def split: sum.splits)
  obtain page where page: "tenant_block_page (re_os env) fqdn t = Inr page"
    using assms w by (auto simp: build_tenant_def split: sum.splits)
  obtain compiled state where s: "build_tenant_state (cv_regexp (re_os env))
      (\<lambda>raw. map_option url.truncate (cv_url_parse (re_os env) raw)) (Some pool) (normalize_host fqdn) t = Inr (compiled, state)"
    using assms w page by (auto simp: build_tenant_def Let_def split: sum.splits)
  show thesis
    by (rule that [OF w build_tenant_state_upstreams [OF s], of page]) (use assms w page s in \<open>auto simp: build_tenant_def Let_def\<close>)
qed

lemma build_tenant_ok:
  assumes "env_ok coraza sha env cfg" "coherent coraza sha old" "build_ok env cfg (current_fingerprint env cfg) bt"
    "build_tenant env cfg (current_fingerprint env cfg) pool old fqdn t bt = Inr bt'"
  shows "build_ok env cfg (current_fingerprint env cfg) bt' \<and>
    (\<exists>e. en_tenant e = t \<and> map_of (bt_mapping bt') = (map_of (bt_mapping bt))(normalize_host fqdn \<mapsto> e))"
proof -
  have env: "re_coraza env = coraza" "re_sha256 env = sha" "inj (re_sha256 env)"
    "CHR 0x00 \<notin> set (gl_rules_dir (cf_global cfg))" "list_all file_ok (re_walk env (gl_rules_dir (cf_global cfg)))"
    using assms(1) by (auto simp: env_ok_def)
  obtain waf cache page state where b:
    "tenant_waf env cfg (current_fingerprint env cfg) old (bt_waf_cache bt) fqdn t = Inr (waf, cache)" "ts_upstreams state \<noteq> []"
    "bt_mapping bt' = assoc_put (normalize_host fqdn) \<lparr>en_waf = waf, en_tenant = t, en_block_page = page\<rparr> (bt_mapping bt)"
    "bt_states bt' = assoc_put (normalize_host fqdn) state (bt_states bt)" "bt_waf_cache bt' = cache"
    using assms(4) by (rule build_tenant_cases)
  have "coherent (re_coraza env) (re_sha256 env) old" using assms(2) env by simp
  from tenant_waf_fresh [OF this _ env(3,4,5) b(1)] assms(3)
  have w: "waf = fresh_waf env cfg (current_fingerprint env cfg) t" "coherent (re_coraza env) (re_sha256 env) cache"
    "waf \<noteq> None \<longleftrightarrow> opt_true (sp_waf_enabled (tn_security t))" by (auto simp: build_ok_def)
  let ?e = "\<lparr>en_waf = waf, en_tenant = t, en_block_page = page\<rparr>"
  have f: "entry_fresh env cfg (current_fingerprint env cfg) ?e" using w by (simp add: entry_fresh_def)
  have "\<forall>p \<in> set (bt_mapping bt'). entry_fresh env cfg (current_fingerprint env cfg) (snd p)"
    using set_assoc_put_subset [of "normalize_host fqdn" ?e "bt_mapping bt"] f assms(3) unfolding b(3) build_ok_def by force
  moreover have "\<forall>p \<in> set (bt_states bt'). ts_upstreams (snd p) \<noteq> []"
    using set_assoc_put_subset [of "normalize_host fqdn" state "bt_states bt"] b(2) assms(3) unfolding b(4) build_ok_def by force
  moreover have "wf_assoc (bt_mapping bt')" "fst ` set (bt_states bt') = fst ` set (bt_mapping bt')"
    using assms(3) unfolding build_ok_def b(3,4) by simp_all
  ultimately have "build_ok env cfg (current_fingerprint env cfg) bt'" using w(2) unfolding build_ok_def b(5) by blast
  moreover have "en_tenant ?e = t" "map_of (bt_mapping bt') = (map_of (bt_mapping bt))(normalize_host fqdn \<mapsto> ?e)"
    unfolding b(3) by simp_all
  ultimately show ?thesis by blast
qed

lemma build_tenants_ok:
  assumes "env_ok coraza sha env cfg" "coherent coraza sha old"
    "build_tenants env cfg (current_fingerprint env cfg) pool old ts bt = Inr bt'"
    "build_ok env cfg (current_fingerprint env cfg) bt" "distinct (map (normalize_host \<circ> fst) ts)"
  shows "build_ok env cfg (current_fingerprint env cfg) bt' \<and>
    (\<forall>d. d \<notin> (normalize_host \<circ> fst) ` set ts \<longrightarrow> map_of (bt_mapping bt') d = map_of (bt_mapping bt) d) \<and>
    (\<forall>(fqdn, t) \<in> set ts. \<exists>e. en_tenant e = t \<and> map_of (bt_mapping bt') (normalize_host fqdn) = Some e)"
  using assms(3-)
proof (induction ts arbitrary: bt)
  case Nil
  then show ?case by simp
next
  case (Cons p ts)
  obtain f t where p: "p = (f, t)" by fastforce
  obtain bt1 where b: "build_tenant env cfg (current_fingerprint env cfg) pool old f t bt = Inr bt1"
    "build_tenants env cfg (current_fingerprint env cfg) pool old ts bt1 = Inr bt'"
    using Cons.prems(1) by (auto simp: p split: sum.splits)
  from build_tenant_ok [OF assms(1,2) Cons.prems(2) b(1)] obtain e where e: "build_ok env cfg (current_fingerprint env cfg) bt1"
    "en_tenant e = t" "map_of (bt_mapping bt1) = (map_of (bt_mapping bt))(normalize_host f \<mapsto> e)" by blast
  have d: "distinct (map (normalize_host \<circ> fst) ts)" "normalize_host f \<notin> (normalize_host \<circ> fst) ` set ts"
    using Cons.prems(3) unfolding p list.map distinct.simps comp_apply set_map by simp_all
  note i = Cons.IH [OF b(2) e(1) d(1)]
  have "map_of (bt_mapping bt') (normalize_host f) = Some e" using i d(2) e(3) by simp
  then show ?case using i e by (auto simp: p)
qed

subsection \<open>Reloads and requests in any order\<close>

definition states_ok :: "string set \<Rightarrow> (string \<times> tenant_state) list \<Rightarrow> bool" where
  "states_ok hosts states \<longleftrightarrow> fst ` set states = hosts \<and> (\<forall>p \<in> set states. ts_upstreams (snd p) \<noteq> [])"

definition runtime_ok ::
  "(string \<Rightarrow> string \<Rightarrow> string \<Rightarrow> coraza_waf option) \<Rightarrow> (string \<Rightarrow> string) \<Rightarrow> runtime \<Rightarrow> bool" where
  "runtime_ok coraza sha rt \<longleftrightarrow>
     (let h = rn_handler rt; r = ph_registry h in
      index_ok r \<and> states_ok (fst ` set (rg_mapping r)) (ph_tenant_states h) \<and>
      (\<forall>p \<in> set (rg_mapping r). en_waf (snd p) \<noteq> None \<longleftrightarrow> opt_true (sp_waf_enabled (tn_security (en_tenant (snd p))))) \<and>
      coherent coraza sha (rg_waf_cache r))"

definition initial_runtime :: "runtime \<Rightarrow> bool" where
  "initial_runtime rt \<longleftrightarrow>
     (\<exists>r key jwks m. (r = new_waf_registry \<or> r = set_domain_manager new_waf_registry) \<and>
        rn_handler rt = new_proxy_handler r key jwks m)"

inductive proxy_step ::
  "(string \<Rightarrow> string \<Rightarrow> string \<Rightarrow> coraza_waf option) \<Rightarrow> (string \<Rightarrow> string) \<Rightarrow> runtime \<Rightarrow> runtime \<Rightarrow> bool" for coraza sha where
  step_reload: "\<lbrakk> \<forall>cfg. load_config (re_os env) path = Some (Inr cfg) \<longrightarrow> env_ok coraza sha env cfg;
     reload env path rt = Some (err, rt') \<rbrakk> \<Longrightarrow> proxy_step coraza sha rt rt'"
| step_serve: "serve_http env w r (rn_handler rt) = Some (w', r', h') \<Longrightarrow> proxy_step coraza sha rt (rt\<lparr>rn_handler := h'\<rparr>)"

lemma select_loop_length: "length (ts_upstreams (snd (select_loop k now ts))) = length (ts_upstreams ts)"
  by (induction k now ts rule: select_loop.induct) (auto simp: Let_def split: if_splits)

lemma select_upstream_length: "select_upstream now ts = (c, ts') \<Longrightarrow> length (ts_upstreams ts') = length (ts_upstreams ts)"
  using select_loop_length [of "length (ts_upstreams ts)" "time_unix now" ts] by (auto simp: select_upstream_def split: if_splits)

lemma states_ok_put:
  "\<lbrakk> states_ok hosts states; d \<in> hosts; ts_upstreams ts \<noteq> [] \<rbrakk> \<Longrightarrow> states_ok hosts (assoc_put d ts states)"
  using set_assoc_put_subset [of d ts states] by (force simp: states_ok_def insert_absorb)

lemma states_ok_lookup: "\<lbrakk> states_ok hosts states; map_of states d = Some ts \<rbrakk> \<Longrightarrow> d \<in> hosts \<and> ts_upstreams ts \<noteq> []"
  by (force simp: states_ok_def dest: map_of_SomeD)

lemma proxy_upstream_states:
  assumes "proxy_upstream env d t i ts (w, r, h) = (p, w', r', h')" "states_ok hosts (ph_tenant_states h)" "d \<in> hosts"
    "ts_upstreams ts \<noteq> []"
  shows "ph_registry h' = ph_registry h \<and> states_ok hosts (ph_tenant_states h')"
proof -
  have "ts_upstreams (update_upstream i f ts) \<noteq> []" for f using assms(4) by (simp add: update_upstream_def)
  then have "states_ok hosts (assoc_put d (update_upstream i f ts) (ph_tenant_states h))" for f
    using states_ok_put assms(2,3) by blast
  then show ?thesis using assms(1,2)
    by (auto simp: proxy_upstream_def Let_def split: round_trip.splits prod.splits sum.splits)
qed

lemma serve_upstream_states:
  assumes "serve_upstream env d (w, r, h) = (p, w', r', h')" "states_ok hosts (ph_tenant_states h)"
  shows "ph_registry h' = ph_registry h \<and> states_ok hosts (ph_tenant_states h')"
proof (cases "map_of (ph_tenant_states h) d")
  case None
  then show ?thesis using assms by (auto simp: serve_upstream_def)
next
  case (Some ts)
  obtain choice ts' where s: "select_upstream (sv_now env) ts = (choice, ts')" by fastforce
  let ?h = "h\<lparr>ph_tenant_states := assoc_put d ts' (ph_tenant_states h)\<rparr>"
  have n: "d \<in> hosts" "ts_upstreams ts' \<noteq> []"
    using states_ok_lookup [OF assms(2) Some] select_upstream_length [OF s] by auto
  then have h: "states_ok hosts (ph_tenant_states ?h)" using states_ok_put assms(2) by simp
  show ?thesis
  proof (cases choice)
    case None
    then show ?thesis using assms(1) Some s h by (auto simp: serve_upstream_def)
  next
    case (Some i)
    then have "proxy_upstream env d (ph_proxy_tenants h d) i ts' (w, r, ?h) = (p, w', r', h')"
      using assms(1) \<open>map_of (ph_tenant_states h) d = Some ts\<close> s by (simp add: serve_upstream_def)
    from proxy_upstream_states [OF this h n] show ?thesis by simp
  qed
qed

lemma serve_finish_states:
  "serve_finish ip m (p, w, r, h) = (w', r', h') \<Longrightarrow> ph_registry h' = ph_registry h \<and> ph_tenant_states h' = ph_tenant_states h"
  by (auto simp: serve_finish_def Let_def split: if_splits)

lemma serve_http_states:
  assumes "serve_http env w r h = Some (w', r', h')" "states_ok hosts (ph_tenant_states h)"
  shows "ph_registry h' = ph_registry h \<and> states_ok hosts (ph_tenant_states h')"
proof -
  obtain info where info: "rq_info (resolve_request h r) = Some info" using resolve_request_info [of h r] by blast
  have keep: "ph_registry h1 = ph_registry h \<and> ph_tenant_states h1 = ph_tenant_states h"
    if "run_stages (serve_stages env h info) (new_log_writer w, resolve_request h r, h) = Some (a, w1, r1, h1)" for a w1 r1 h1
    using serve_stages_keeps [OF that] same_handler_fields by (simp add: keeps_def)
  show ?thesis
    using assms(1) info refl
  proof (cases rule: serve_http_cases)
    case (answered c)
    obtain w1 r1 h1 where c: "c = (w1, r1, h1)" by (rule prod_cases3)
    show ?thesis using keep [OF answered(1) [unfolded c]] serve_finish_states [OF answered(2) [unfolded c]] assms(2) by simp
  next
    case (passed c)
    obtain w1 r1 h1 where c: "c = (w1, r1, h1)" by (rule prod_cases3)
    obtain p w2 r2 h2 where u: "serve_upstream env (ri_tenant info) c = (p, w2, r2, h2)" by (rule prod_cases4)
    show ?thesis
      using keep [OF passed(1) [unfolded c]] serve_finish_states [OF passed(2) [unfolded u]]
        serve_upstream_states [OF u [unfolded c]] assms(2) by simp
  qed
qed

subsection \<open>What a reload does\<close>

lemma probe_upstreams_length: "length (fst (probe_upstreams dial get us m)) = length us"
  by (induction us arbitrary: m) (auto simp: Let_def split: prod.splits, metis fst_conv)

lemma probe_tenant_states_ok: "states_ok hosts states \<Longrightarrow> states_ok hosts (fst (probe_tenant_states dial get states m))"
proof (induction states arbitrary: m hosts)
  case Nil
  then show ?case by simp
next
  case (Cons p states)
  obtain f ts where p: "p = (f, ts)" by fastforce
  obtain us m1 where u: "probe_upstreams dial get (ts_upstreams ts) m = (us, m1)" by fastforce
  obtain st m2 where s: "probe_tenant_states dial get states m1 = (st, m2)" by fastforce
  have "us \<noteq> []" using Cons.prems probe_upstreams_length [of dial get "ts_upstreams ts" m] by (auto simp: states_ok_def p u)
  moreover have "states_ok (fst ` set states) st"
    using Cons.IH [of "fst ` set states" m1] Cons.prems s by (simp add: states_ok_def)
  ultimately show ?case using Cons.prems by (auto simp: p u s states_ok_def)
qed

lemma publish_handler_fields:
  "ph_registry (publish_handler env cfg nx h) = publish_registry cfg (nx_build nx) (ph_registry h)"
  "ph_tenant_states (publish_handler env cfg nx h) =
     fst (probe_tenant_states (re_tcp_dial env) (re_http_get env) (bt_states (nx_build nx)) (ph_upstream_metrics h))"
  by (simp_all add: publish_handler_def set_dependency_fail_mode_def replace_tenant_states_def Let_def split: prod.splits)

lemma prepare_reload_build:
  "prepare_reload env cfg pool h = Inr nx \<Longrightarrow>
   build_tenants env cfg (current_fingerprint env cfg) pool (rg_waf_cache (ph_registry h)) (cf_tenants cfg) empty_build = Inr (nx_build nx)"
  by (auto simp: prepare_reload_def Let_def split: sum.splits prod.splits)

lemma load_config_cases:
  obtains (failed) e where "load_config os path = Some (Inl e)"
    | (loaded) cfg where "load_config os path = Some (Inr cfg)" "config_wf os cfg"
proof (cases "load_config os path")
  case None
  then show ?thesis using load_config_wf [of os path] by simp
next
  case (Some res)
  then show ?thesis using load_config_wf [of os path] that by (cases res) auto
qed

lemma reload_cases:
  obtains (failed) e rt' where "reload env path rt = Some (Some e, rt')" "rn_handler rt' = rn_handler rt"
      "rn_health_checked rt' = rn_health_checked rt" "rn_crowdsec_check rt' = rn_crowdsec_check rt"
      "rn_managed_domains rt' = rn_managed_domains rt" "rn_reload_total rt' = counter_inc ''failure'' (rn_reload_total rt)"
    | (published) cfg added nx pool where "load_config (re_os env) path = Some (Inr cfg)" "config_wf (re_os env) cfg"
      "prepare_reload env cfg pool (rn_handler rt) = Inr nx"
      "reload env path rt = Some (None, count_reload ''success'' (publish env cfg added nx (rt\<lparr>rn_upstream_pool := Some pool\<rparr>)))"
proof (cases rule: load_config_cases [of "re_os env" path])
  case (failed e)
  then show ?thesis using that(1) [of e "count_reload ''failure'' rt"] by (simp add: reload_def count_reload_def)
next
  case (loaded cfg)
  note l = loaded
  show ?thesis
  proof (cases "check_acme (ph_registry (rn_handler rt)) cfg")
    case (Inl e)
    then show ?thesis using l that(1) [of e "count_reload ''failure'' rt"] by (simp add: reload_def count_reload_def)
  next
    case (Inr added)
    note a = Inr
    let ?rt = "rt\<lparr>rn_upstream_pool := Some (reload_pool cfg)\<rparr>"
    show ?thesis
    proof (cases "prepare_reload env cfg (reload_pool cfg) (rn_handler rt)")
      case (Inl e)
      then show ?thesis using l a that(1) [of e "count_reload ''failure'' ?rt"] by (simp add: reload_def count_reload_def Let_def)
    next
      case (Inr nx)
      show ?thesis by (rule that(2) [OF l Inr, of added]) (use l a Inr in \<open>simp add: reload_def Let_def\<close>)
    qed
  qed
qed

lemma runtime_ok_cong:
  "rn_handler rt' = rn_handler rt \<Longrightarrow> runtime_ok coraza sha rt' = runtime_ok coraza sha rt"
  by (simp add: runtime_ok_def)

lemma published_mapping:
  assumes "env_ok coraza sha env cfg" "runtime_ok coraza sha rt" "config_wf (re_os env) cfg"
    "prepare_reload env cfg pool (rn_handler rt) = Inr nx"
  shows "build_ok env cfg (current_fingerprint env cfg) (nx_build nx)"
    "(fqdn, t) \<in> set (cf_tenants cfg) \<Longrightarrow> \<exists>e. en_tenant e = t \<and> map_of (bt_mapping (nx_build nx)) (normalize_host fqdn) = Some e"
proof -
  have c: "coherent coraza sha (rg_waf_cache (ph_registry (rn_handler rt)))" using assms(2) by (simp add: runtime_ok_def Let_def)
  have d: "distinct (map (normalize_host \<circ> fst) (cf_tenants cfg))" using assms(3) unfolding config_wf_def Let_def by blast
  note b = build_tenants_ok [OF assms(1) c prepare_reload_build [OF assms(4)] empty_build_ok d]
  show "build_ok env cfg (current_fingerprint env cfg) (nx_build nx)" using b by (rule conjunct1)
  show "\<exists>e. en_tenant e = t \<and> map_of (bt_mapping (nx_build nx)) (normalize_host fqdn) = Some e"
    if "(fqdn, t) \<in> set (cf_tenants cfg)"
    using bspec [OF conjunct2 [OF conjunct2 [OF b]] that] by simp
qed

lemma reload_runtime_ok:
  assumes "\<forall>cfg. load_config (re_os env) path = Some (Inr cfg) \<longrightarrow> env_ok coraza sha env cfg"
    "reload env path rt = Some (err, rt')" "runtime_ok coraza sha rt"
  shows "runtime_ok coraza sha rt'"
proof (cases rule: reload_cases [of env path rt])
  case (failed e rt1)
  then have "rt1 = rt'" using assms(2) by simp
  then show ?thesis using runtime_ok_cong [OF failed(2)] assms(3) by blast
next
  case (published cfg added nx pool)
  have env: "env_ok coraza sha env cfg" using assms(1) published(1) by blast
  let ?bt = "nx_build nx"
  have b: "build_ok env cfg (current_fingerprint env cfg) ?bt"
    by (rule published_mapping(1) [OF env assms(3) published(2,3)])
  then have "states_ok (fst ` set (bt_mapping ?bt)) (bt_states ?bt)" by (auto simp: build_ok_def states_ok_def)
  from probe_tenant_states_ok [OF this]
  have s: "states_ok (fst ` set (bt_mapping ?bt)) (ph_tenant_states (publish_handler env cfg nx (rn_handler rt)))"
    by (simp add: publish_handler_fields)
  have "rt' = count_reload ''success'' (publish env cfg added nx (rt\<lparr>rn_upstream_pool := Some pool\<rparr>))"
    using published(4) assms(2) by (simp only: option.inject prod.inject)
  then have h: "rn_handler rt' = publish_handler env cfg nx (rn_handler rt)" by (simp add: count_reload_def publish_def Let_def)
  let ?r = "publish_registry cfg ?bt (ph_registry (rn_handler rt))"
  have r: "rg_mapping ?r = bt_mapping ?bt" "rg_waf_cache ?r = bt_waf_cache ?bt" by (simp_all add: publish_registry_def)
  have "coherent coraza sha (bt_waf_cache ?bt)" using b env by (simp add: build_ok_def env_ok_def)
  moreover have "index_ok ?r" using b by (simp add: build_ok_def publish_registry_def index_ok_def)
  moreover have "en_waf (snd p) \<noteq> None \<longleftrightarrow> opt_true (sp_waf_enabled (tn_security (en_tenant (snd p))))"
    if "p \<in> set (bt_mapping ?bt)" for p
  proof -
    have "entry_fresh env cfg (current_fingerprint env cfg) (snd p)" using b that unfolding build_ok_def by blast
    then show ?thesis unfolding entry_fresh_def by (rule conjunct2)
  qed
  ultimately show ?thesis using s unfolding runtime_ok_def Let_def h publish_handler_fields(1) r by (intro conjI ballI)
qed

lemma serve_runtime_ok:
  assumes "serve_http env w r (rn_handler rt) = Some (w', r', h')" "runtime_ok coraza sha rt"
  shows "runtime_ok coraza sha (rt\<lparr>rn_handler := h'\<rparr>)"
proof -
  have "states_ok (fst ` set (rg_mapping (ph_registry (rn_handler rt)))) (ph_tenant_states (rn_handler rt))"
    using assms(2) unfolding runtime_ok_def Let_def by blast
  from serve_http_states [OF assms(1) this] show ?thesis using assms(2) by (simp add: runtime_ok_def Let_def)
qed

interpretation proxy: transition_system initial_runtime "proxy_step coraza sha" "runtime_ok coraza sha" for coraza sha
proof
  fix rt assume "initial_runtime rt"
  then obtain r key jwks m where "r = new_waf_registry \<or> r = set_domain_manager new_waf_registry"
    "rn_handler rt = new_proxy_handler r key jwks m" unfolding initial_runtime_def by blast
  then show "runtime_ok coraza sha rt"
    by (auto simp: runtime_ok_def new_proxy_handler_def new_waf_registry_def set_domain_manager_def index_ok_def states_ok_def
        coherent_def)
next
  fix rt rt' assume "runtime_ok coraza sha rt" "proxy_step coraza sha rt rt'"
  then show "runtime_ok coraza sha rt'"
    by (elim proxy_step.cases) (auto intro: reload_runtime_ok serve_runtime_ok)
qed

subsection \<open>Properties\<close>

text \<open>A file system with one tenant behind Coraza, and the first state of a process.\<close>

definition sample_waf_tenant :: tenant where
  "sample_waf_tenant = tn_security_update (\<lambda>sp. sp\<lparr>sp_waf_enabled := Some True, sp_paranoia_level := 1\<rparr>) sample_tenant"

definition sample_reload_env :: reload_env where
  "sample_reload_env =
     \<lparr>re_os = sample_load_os\<lparr>cv_yaml_config := (\<lambda>data. (Some (zero_config\<lparr>cf_tenants := [(''WWW.example.com.'', sample_waf_tenant)]\<rparr>), YamlEnd))\<rparr>,
      re_walk = (\<lambda>dir. [(''/etc/waf/rules/a.conf'', 10, 5)]), re_sha256 = (\<lambda>s. s),
      re_coraza = (\<lambda>dir fp ds. Some \<lparr>waf_interrupted = (\<lambda>ev. False), waf_matched = (\<lambda>ev. []), waf_interruption = (\<lambda>ev. None),
        waf_write_error = (\<lambda>ev. False), waf_body_error = (\<lambda>ev. False)\<rparr>),
      re_bouncer_init = (\<lambda>u k. False), re_crowdsec_probe = False, re_open_db = (\<lambda>p. None),
      re_tls = \<lparr>te_read = (\<lambda>p. None), te_key_pair = (\<lambda>c k. False), te_ca_pool = (\<lambda>p. False), te_sha256 = (\<lambda>s. s)\<rparr>,
      re_listen = (\<lambda>a. False), re_tcp_dial = (\<lambda>a d. True), re_http_get = (\<lambda>u p d. None)\<rparr>"

definition sample_runtime :: runtime where
  "sample_runtime = \<lparr>rn_handler = new_proxy_handler new_waf_registry ''key'' empty_jwks \<lparr>um_healthy = [], um_requests = []\<rparr>,
     rn_upstream_pool = None, rn_reload_total = [], rn_health_checked = [], rn_crowdsec_check = False, rn_managed_domains = []\<rparr>"

lemma sample_runtime_initial: "initial_runtime sample_runtime"
  unfolding initial_runtime_def sample_runtime_def by auto

lemma sample_reload:
  "case reload sample_reload_env ''/etc/waf/config.yml'' sample_runtime of
     Some (None, rt) \<Rightarrow> map_option snd (registry_get (ph_registry (rn_handler rt)) ''www.example.com:443'') = Some ''www.example.com''
   | _ \<Rightarrow> False"
  by code_simp

lemma sample_reload_config:
  "case load_config (re_os sample_reload_env) ''/etc/waf/config.yml'' of
     Some (Inr cfg) \<Rightarrow> gl_rules_dir (cf_global cfg) = ''/etc/waf/rules'' \<and> map fst (cf_tenants cfg) = [''WWW.example.com.'']
   | _ \<Rightarrow> False"
  by code_simp

lemma sample_reload_result:
  obtains rt where "reload sample_reload_env ''/etc/waf/config.yml'' sample_runtime = Some (None, rt)"
    "map_option snd (registry_get (ph_registry (rn_handler rt)) ''www.example.com:443'') = Some ''www.example.com''"
  using sample_reload that by (auto split: option.splits prod.splits)

lemma sample_loaded:
  obtains cfg t where "load_config (re_os sample_reload_env) ''/etc/waf/config.yml'' = Some (Inr cfg)"
    "gl_rules_dir (cf_global cfg) = ''/etc/waf/rules''" "(''WWW.example.com.'', t) \<in> set (cf_tenants cfg)"
  using sample_reload_config that by (auto split: option.splits sum.splits)

lemma sample_env_ok:
  assumes "load_config (re_os sample_reload_env) ''/etc/waf/config.yml'' = Some (Inr cfg)"
  shows "env_ok (re_coraza sample_reload_env) (re_sha256 sample_reload_env) sample_reload_env cfg"
proof -
  have "gl_rules_dir (cf_global cfg) = ''/etc/waf/rules''" using assms sample_reload_config by simp
  then show ?thesis by (simp add: env_ok_def sample_reload_env_def file_ok_def inj_on_def)
qed

lemma sample_reload_reachable:
  assumes "reload sample_reload_env ''/etc/waf/config.yml'' sample_runtime = Some (None, rt)"
  shows "reachable initial_runtime (proxy_step (re_coraza sample_reload_env) (re_sha256 sample_reload_env)) rt"
proof (rule reachable_step)
  show "reachable initial_runtime (proxy_step (re_coraza sample_reload_env) (re_sha256 sample_reload_env)) sample_runtime"
    by (rule reachable_init) (rule sample_runtime_initial)
  show "proxy_step (re_coraza sample_reload_env) (re_sha256 sample_reload_env) sample_runtime rt"
    by (rule step_reload [OF _ assms]) (blast intro: sample_env_ok)
qed

text \<open>C34: a reload never panics, and one that fails leaves the handler as it was: the tenants, engines, limits, lists, services
  and caches that serve traffic, the running health checks and the managed domains are those of the last configuration that was
  accepted.  The failure is counted.\<close>

theorem reload_failure_keeps_serving:
  "\<exists>err rt'. reload env path rt = Some (err, rt') \<and>
     (err \<noteq> None \<longrightarrow> rn_handler rt' = rn_handler rt \<and> rn_health_checked rt' = rn_health_checked rt \<and>
        rn_crowdsec_check rt' = rn_crowdsec_check rt \<and> rn_managed_domains rt' = rn_managed_domains rt \<and>
        rn_reload_total rt' = counter_inc ''failure'' (rn_reload_total rt))"
proof (cases rule: reload_cases [of env path rt])
  case (failed e rt')
  then show ?thesis by blast
next
  case (published cfg added nx pool)
  then show ?thesis by blast
qed

theorem reload_failure_keeps_serving_witness:
  "\<exists>e rt'. reload sample_reload_env ''/missing'' sample_runtime = Some (Some e, rt') \<and>
     rn_handler rt' = rn_handler sample_runtime \<and> rn_reload_total rt' = [(''failure'', 1)]"
proof -
  have f: "case reload sample_reload_env ''/missing'' sample_runtime of Some (Some e, rt) \<Rightarrow> True | _ \<Rightarrow> False" by code_simp
  obtain err rt' where r: "reload sample_reload_env ''/missing'' sample_runtime = Some (err, rt')"
    "err \<noteq> None \<longrightarrow> rn_handler rt' = rn_handler sample_runtime \<and>
       rn_reload_total rt' = counter_inc ''failure'' (rn_reload_total sample_runtime)"
    using reload_failure_keeps_serving [of sample_reload_env "''/missing''" sample_runtime] by blast
  have "err \<noteq> None" using f r(1) by (cases err) simp_all
  moreover have "counter_inc ''failure'' (rn_reload_total sample_runtime) = [(''failure'', 1)]" by code_simp
  ultimately show ?thesis using r by auto
qed





text \<open>
  Two limits of a failed reload.  An upstream address with blanks around it is accepted, since validation trims it, but is refused
  when the tenant is built from the untrimmed text; and the pool settings of the refused configuration stay behind.
\<close>

definition sample_blank_env :: reload_env where
  "sample_blank_env = re_os_update (\<lambda>os. os\<lparr>cv_yaml_config := (\<lambda>data. (Some (in_global (\<lambda>g. g\<lparr>gl_max_idle_conns_per_host := 7\<rparr>)
     (zero_config\<lparr>cf_tenants := [(''www.example.com'',
        sample_tenant\<lparr>tn_upstreams := [\<lparr>uc_url = '' http://10.0.0.1:80'', uc_response_header_timeout = 0\<rparr>]\<rparr>)]\<rparr>)), YamlEnd))\<rparr>)
     sample_reload_env"

lemma failed_reload_leaves_pool:
  "case (load_config (re_os sample_blank_env) ''/etc/waf/config.yml'', reload sample_blank_env ''/etc/waf/config.yml'' sample_runtime) of
     (Some (Inr cfg), Some (Some e, rt)) \<Rightarrow>
       e = Errorf ''tenant %s has invalid upstream URL %q: %w'' [''www.example.com'', '' http://10.0.0.1:80''] None \<and>
       rn_upstream_pool sample_runtime = None \<and> map_option ps_max_idle_conns_per_host (rn_upstream_pool rt) = Some 7
   | _ \<Rightarrow> False"
  by code_simp

end
