(* ===== verification/Logging.thy ===== *)
theory Logging
  imports Load Contracts
begin

text \<open>
  Logging of the proxy, \<open>internal/waf/logging.go\<close>: log files whose path follows the
  time, the forwarder that sends events in batches to the log receiver, the access log
  and \<open>SetupLogging\<close>.

  The layouts of \<open>time.Format\<close> are a parameter, since they depend on the time zone of the
  process; so are the JSON encoder and the formatters of the logging libraries.  A file
  system is the map from paths to contents that the log files append to.  The workers of
  the forwarder run concurrently: their steps interleave in an inductive relation.
\<close>

subsection \<open>Paths that follow the time\<close>

text \<open>
  \<open>strings.NewReplacer\<close>: at every position the first pair whose old string is a prefix is
  applied, and the search goes on behind it.
\<close>

fun first_pair :: "(string \<times> string) list \<Rightarrow> string \<Rightarrow> (string \<times> string) option" where
  "first_pair [] s = None"
| "first_pair (p # ps) s = (if has_prefix s (fst p) then Some p else first_pair ps s)"

function replacer :: "(string \<times> string) list \<Rightarrow> string \<Rightarrow> string" where
  "replacer ps [] = []"
| "replacer ps (c # s) =
     (case first_pair ps (c # s) of
        Some (old, new) \<Rightarrow> new @ replacer ps (drop (length old - 1) s)
      | None \<Rightarrow> c # replacer ps s)"
  by pat_completeness auto
termination
  by (relation "measure (\<lambda>(ps, s). length s)") auto

(* src: internal/waf/logging.go:559-576 resolvePathPattern *)
definition resolve_path_pattern :: "(string \<Rightarrow> time \<Rightarrow> string) \<Rightarrow> string \<Rightarrow> time \<Rightarrow> string" where
  "resolve_path_pattern fmt path now =
     (if \<not> str_contains path ''%'' then path
      else replacer [(''%yyyy'', fmt ''2006'' now), (''%yy'', fmt ''06'' now), (''%MM'', fmt ''01'' now), (''%M'', fmt ''Jan'' now),
        (''%dd'', fmt ''02'' now), (''%d'', fmt ''2'' now), (''%HH'', fmt ''15'' now), (''%hh'', fmt ''03'' now),
        (''%mm'', fmt ''04'' now), (''%ss'', fmt ''05'' now)] path)"

subsection \<open>Rotating files\<close>

text \<open>An open file is its path; \<open>fs\<close> maps the paths to what was written.\<close>

type_synonym log_fs = "(string \<times> string) list"

(* src: internal/waf/logging.go:29-36 rotatingFile *)
record rotating_file =
  rf_pattern :: string
  rf_path :: string
  rf_file :: "string option"
  rf_next_check :: time

record log_env =
  le_format :: "string \<Rightarrow> time \<Rightarrow> string"
  le_can_open :: "string \<Rightarrow> bool"

definition truncate_second :: "time \<Rightarrow> time" where
  "truncate_second t = t - t mod second"

(* src: internal/waf/logging.go:46-62 rotatingFile.rotateLocked *)
definition rotate_locked :: "log_env \<Rightarrow> time \<Rightarrow> rotating_file \<Rightarrow> go_error option \<times> rotating_file" where
  "rotate_locked env now rf =
     (let rf = rf\<lparr>rf_next_check := truncate_second now + second\<rparr>;
          path = resolve_path_pattern (le_format env) (rf_pattern rf) now
      in if rf_file rf \<noteq> None \<and> path = rf_path rf then (None, rf)
         else if \<not> le_can_open env path then (Some (Errorf ''failed to open log file %s: %w'' [path] None), rf)
         else (None, rf\<lparr>rf_file := Some path, rf_path := path\<rparr>))"

(* src: internal/waf/logging.go:38-44 openRotatingFile *)
definition open_rotating_file :: "log_env \<Rightarrow> time \<Rightarrow> string \<Rightarrow> go_error + rotating_file" where
  "open_rotating_file env now pattern =
     (case rotate_locked env now \<lparr>rf_pattern = pattern, rf_path = [], rf_file = None, rf_next_check = 0\<rparr> of
        (Some e, rf) \<Rightarrow> Inl e
      | (None, rf) \<Rightarrow> Inr rf)"

text \<open>The result tells whether the write reached a file; appending to it succeeds.\<close>

(* src: internal/waf/logging.go:64-77 rotatingFile.Write *)
definition rf_write :: "log_env \<Rightarrow> time \<Rightarrow> string \<Rightarrow> rotating_file \<Rightarrow> log_fs \<Rightarrow> bool \<times> rotating_file \<times> log_fs" where
  "rf_write env now p rf fs =
     (if rf_file rf = None then (False, rf, fs)
      else
        let rf = (if str_contains (rf_pattern rf) ''%'' \<and> rf_next_check rf \<le> now then snd (rotate_locked env now rf) else rf)
        in case rf_file rf of
             None \<Rightarrow> (False, rf, fs)
           | Some path \<Rightarrow> (True, rf, assoc_put path ((case map_of fs path of None \<Rightarrow> [] | Some old \<Rightarrow> old) @ p) fs))"

(* src: internal/waf/logging.go:79-88 rotatingFile.Close *)
definition rf_close :: "rotating_file \<Rightarrow> rotating_file" where
  "rf_close rf = rf\<lparr>rf_file := None\<rparr>"

subsection \<open>The forwarder: one worker\<close>

(* src: internal/waf/logging.go:174 maxForwardedLogPayloadBytes *)
definition max_forwarded_log_payload_bytes :: nat where
  "max_forwarded_log_payload_bytes = 16384"

(* src: internal/waf/logging.go:175 maxForwardedBatchEntries *)
definition max_forwarded_batch_entries :: nat where
  "max_forwarded_batch_entries = 100"

(* src: internal/waf/logging.go:176 maxForwardedBatchBytes *)
definition max_forwarded_batch_bytes :: nat where
  "max_forwarded_batch_bytes = 524288"

text \<open>\<open>wk_events\<close> is a ghost: the events that make up the buffer.\<close>

(* src: internal/waf/logging.go:212-224 webhookLogHook.runWorker (state) *)
record worker =
  wk_batch :: string
  wk_entries :: nat
  wk_timer_active :: bool
  wk_exited :: bool
  wk_events :: "string list"

definition new_worker :: worker where
  "new_worker = \<lparr>wk_batch = [], wk_entries = 0, wk_timer_active = False, wk_exited = False, wk_events = []\<rparr>"

(* src: internal/waf/logging.go:159-171 webhookLogHook *)
record webhook =
  wh_url :: string
  wh_token :: string
  wh_queue :: "string list"
  wh_queue_size :: nat
  wh_workers :: "worker list"
  wh_closed :: bool
  wh_dropped :: nat
  wh_cancelled :: bool

(* src: internal/waf/logging.go:181-206 newWebhookLogHook *)
definition new_webhook :: "string \<Rightarrow> string \<Rightarrow> int \<Rightarrow> int \<Rightarrow> webhook" where
  "new_webhook url token queue_size worker_count =
     (let queue_size = (if queue_size \<le> 0 then 1024 else queue_size);
          worker_count = (if worker_count \<le> 0 then 2 else worker_count)
      in \<lparr>wh_url = url, wh_token = token, wh_queue = [], wh_queue_size = nat queue_size,
          wh_workers = replicate (nat worker_count) new_worker, wh_closed = False, wh_dropped = 0, wh_cancelled = False\<rparr>)"

(* src: internal/waf/logging.go:288-297 webhookLogHook.recordDrops, webhookLogHook.recordDrop *)
definition record_drops :: "nat \<Rightarrow> webhook \<Rightarrow> webhook" where
  "record_drops n h = h\<lparr>wh_dropped := wh_dropped h + n\<rparr>"

(* src: internal/waf/logging.go:316-332 webhookLogHook.enqueue *)
definition enqueue :: "string \<Rightarrow> webhook \<Rightarrow> webhook" where
  "enqueue payload h =
     (if max_forwarded_log_payload_bytes < length payload then record_drops 1 h
      else if wh_closed h then h
      else if length (wh_queue h) < wh_queue_size h then h\<lparr>wh_queue := wh_queue h @ [payload]\<rparr>
      else record_drops 1 h)"

text \<open>What the worker posts; \<open>answer\<close> is the status of the response, if there is one.\<close>

record forward_request =
  fr_url :: string
  fr_content_type :: string
  fr_authorization :: string
  fr_body :: string

(* src: internal/waf/logging.go:262-286 webhookLogHook.send *)
definition send :: "int option \<Rightarrow> string \<Rightarrow> nat \<Rightarrow> webhook \<Rightarrow> forward_request option \<times> webhook" where
  "send answer body entries h =
     (if wh_cancelled h then (None, record_drops entries h)
      else
        let req = \<lparr>fr_url = wh_url h, fr_content_type = ''application/x-ndjson'',
                   fr_authorization = (if wh_token h \<noteq> [] then ''Bearer '' @ wh_token h else []), fr_body = body\<rparr>
        in case answer of
             None \<Rightarrow> (Some req, record_drops entries h)
           | Some status \<Rightarrow> (Some req, if status < 200 \<or> 300 \<le> status then record_drops entries h else h))"

(* src: internal/waf/logging.go:214-221 webhookLogHook.runWorker (flush) *)
definition flush :: "int option \<Rightarrow> worker \<Rightarrow> webhook \<Rightarrow> forward_request option \<times> worker \<times> webhook" where
  "flush answer w h =
     (if wk_entries w = 0 then (None, w, h)
      else let (req, h) = send answer (wk_batch w) (wk_entries w) h
           in (req, w\<lparr>wk_batch := [], wk_entries := 0, wk_events := []\<rparr>, h))"

(* src: internal/waf/logging.go:237-241 webhookLogHook.runWorker (append) *)
definition append_event :: "string \<Rightarrow> worker \<Rightarrow> worker" where
  "append_event payload w =
     w\<lparr>wk_batch := wk_batch w @ (if wk_entries w > 0 then nl else []) @ payload, wk_entries := wk_entries w + 1,
       wk_events := wk_events w @ [payload]\<rparr>"

definition batch_full :: "worker \<Rightarrow> bool" where
  "batch_full w \<longleftrightarrow> max_forwarded_batch_entries \<le> wk_entries w \<or> max_forwarded_batch_bytes \<le> length (wk_batch w)"

(* src: internal/waf/logging.go:237-254 webhookLogHook.runWorker (event) *)
definition receive_event :: "int option \<Rightarrow> string \<Rightarrow> worker \<Rightarrow> webhook \<Rightarrow> forward_request option \<times> worker \<times> webhook" where
  "receive_event answer payload w h =
     (let w = append_event payload w in
      if batch_full w
      then let (req, w, h) = flush answer w h in (req, w\<lparr>wk_timer_active := False\<rparr>, h)
      else (None, w\<lparr>wk_timer_active := True\<rparr>, h))"

(* src: internal/waf/logging.go:255-257 webhookLogHook.runWorker (timer) *)
definition timer_fires :: "int option \<Rightarrow> worker \<Rightarrow> webhook \<Rightarrow> forward_request option \<times> worker \<times> webhook" where
  "timer_fires answer w h = flush answer (w\<lparr>wk_timer_active := False\<rparr>) h"

(* src: internal/waf/logging.go:233-236 webhookLogHook.runWorker (queue closed) *)
definition queue_drained :: "int option \<Rightarrow> worker \<Rightarrow> webhook \<Rightarrow> forward_request option \<times> worker \<times> webhook" where
  "queue_drained answer w h = (let (req, w, h) = flush answer w h in (req, w\<lparr>wk_exited := True\<rparr>, h))"

(* src: internal/waf/logging.go:338-344 webhookLogHook.Close (queue) *)
definition close_queue :: "webhook \<Rightarrow> webhook" where
  "close_queue h = h\<lparr>wh_closed := True\<rparr>"

(* src: internal/waf/logging.go:345-360 webhookLogHook.Close (cancel) *)
definition cancel_hook :: "webhook \<Rightarrow> webhook" where
  "cancel_hook h = h\<lparr>wh_cancelled := True\<rparr>"

subsection \<open>The forwarder: all workers\<close>

text \<open>
  The ghost fields: what was queued, what a receiver accepted, what was counted as dropped after it was queued, how many events
  were refused, and the requests with the events in them.
\<close>

record forwarder =
  fd_hook :: webhook
  fd_accepted :: "string multiset"
  fd_delivered :: "string multiset"
  fd_lost :: "string multiset"
  fd_refused :: nat
  fd_requests :: "(forward_request \<times> string list) list"

definition initial_forwarder :: "forwarder \<Rightarrow> bool" where
  "initial_forwarder s \<longleftrightarrow> (\<exists>url token queue_size workers.
     s = \<lparr>fd_hook = new_webhook url token queue_size workers, fd_accepted = {#}, fd_delivered = {#}, fd_lost = {#}, fd_refused = 0,
          fd_requests = []\<rparr>)"

definition received :: "int option \<Rightarrow> webhook \<Rightarrow> bool" where
  "received answer h \<longleftrightarrow> \<not> wh_cancelled h \<and> (\<exists>status. answer = Some status \<and> 200 \<le> status \<and> status < 300)"

text \<open>The ghosts after a worker with the events \<open>es\<close> in its buffer has flushed or not.\<close>

definition account :: "int option \<Rightarrow> webhook \<Rightarrow> string list \<Rightarrow> bool \<Rightarrow> forward_request option \<Rightarrow> forwarder \<Rightarrow> forwarder" where
  "account answer h es flushed req s =
     (if \<not> flushed then s
      else s\<lparr>fd_delivered := fd_delivered s + (if received answer h then mset es else {#}),
             fd_lost := fd_lost s + (if received answer h then {#} else mset es),
             fd_requests := fd_requests s @ (case req of None \<Rightarrow> [] | Some r \<Rightarrow> [(r, es)])\<rparr>)"

definition put_worker :: "nat \<Rightarrow> worker \<Rightarrow> webhook \<Rightarrow> webhook" where
  "put_worker i w h = h\<lparr>wh_workers := (wh_workers h)[i := w]\<rparr>"

inductive forward_step :: "forwarder \<Rightarrow> forwarder \<Rightarrow> bool" where
  fwd_enqueue: "h = fd_hook s \<Longrightarrow> h' = enqueue payload h \<Longrightarrow>
     forward_step s (s\<lparr>fd_hook := h',
       fd_accepted := fd_accepted s + (if wh_queue h' = wh_queue h then {#} else {#payload#}),
       fd_refused := fd_refused s + (wh_dropped h' - wh_dropped h)\<rparr>)"
| fwd_receive: "\<lbrakk> h = fd_hook s; wh_queue h = payload # queue; i < length (wh_workers h); w = wh_workers h ! i; \<not> wk_exited w;
     receive_event answer payload w (h\<lparr>wh_queue := queue\<rparr>) = (req, w', h') \<rbrakk> \<Longrightarrow>
     forward_step s (account answer h (wk_events w @ [payload]) (batch_full (append_event payload w)) req
       (s\<lparr>fd_hook := put_worker i w' h'\<rparr>))"
| fwd_timer: "\<lbrakk> h = fd_hook s; i < length (wh_workers h); w = wh_workers h ! i; \<not> wk_exited w; wk_timer_active w;
     timer_fires answer w h = (req, w', h') \<rbrakk> \<Longrightarrow>
     forward_step s (account answer h (wk_events w) True req (s\<lparr>fd_hook := put_worker i w' h'\<rparr>))"
| fwd_drained: "\<lbrakk> h = fd_hook s; wh_closed h; wh_queue h = []; i < length (wh_workers h); w = wh_workers h ! i; \<not> wk_exited w;
     queue_drained answer w h = (req, w', h') \<rbrakk> \<Longrightarrow>
     forward_step s (account answer h (wk_events w) True req (s\<lparr>fd_hook := put_worker i w' h'\<rparr>))"
| fwd_close: "forward_step s (s\<lparr>fd_hook := close_queue (fd_hook s)\<rparr>)"
| fwd_cancel: "wh_closed (fd_hook s) \<Longrightarrow> forward_step s (s\<lparr>fd_hook := cancel_hook (fd_hook s)\<rparr>)"

subsection \<open>What the forwarder promises\<close>

text \<open>
  The specification: a bag of events.  An event enters the bag or is refused; a batch leaves the bag delivered or lost.  Refused
  and lost events are counted.
\<close>

record event_bag =
  bag_pending :: "string multiset"
  bag_accepted :: "string multiset"
  bag_delivered :: "string multiset"
  bag_lost :: "string multiset"
  bag_refused :: nat
  bag_counter :: nat

definition empty_bag :: "event_bag \<Rightarrow> bool" where
  "empty_bag b \<longleftrightarrow> b = \<lparr>bag_pending = {#}, bag_accepted = {#}, bag_delivered = {#}, bag_lost = {#}, bag_refused = 0, bag_counter = 0\<rparr>"

inductive bag_step :: "event_bag \<Rightarrow> event_bag \<Rightarrow> bool" where
  bag_accept: "bag_step b (b\<lparr>bag_pending := add_mset e (bag_pending b), bag_accepted := add_mset e (bag_accepted b)\<rparr>)"
| bag_refuse: "bag_step b (b\<lparr>bag_refused := bag_refused b + 1, bag_counter := bag_counter b + 1\<rparr>)"
| bag_deliver: "M \<subseteq># bag_pending b \<Longrightarrow>
     bag_step b (b\<lparr>bag_pending := bag_pending b - M, bag_delivered := bag_delivered b + M\<rparr>)"
| bag_lose: "M \<subseteq># bag_pending b \<Longrightarrow>
     bag_step b (b\<lparr>bag_pending := bag_pending b - M, bag_lost := bag_lost b + M, bag_counter := bag_counter b + size M\<rparr>)"

definition bag_balanced :: "event_bag \<Rightarrow> bool" where
  "bag_balanced b \<longleftrightarrow> bag_accepted b = bag_pending b + bag_delivered b + bag_lost b \<and>
     bag_counter b = bag_refused b + size (bag_lost b)"

interpretation bag: transition_system empty_bag bag_step bag_balanced
proof
  show "bag_balanced b" if "empty_bag b" for b using that by (simp add: empty_bag_def bag_balanced_def)
  show "bag_balanced b'" if "bag_balanced b" "bag_step b b'" for b b'
    using that(2,1) by cases (auto simp: bag_balanced_def subset_mset.le_iff_add ac_simps)
qed

text \<open>The bag that a state of the forwarder stands for.\<close>

definition batched :: "worker list \<Rightarrow> string multiset" where
  "batched ws = sum_list (map (mset \<circ> wk_events) ws)"

definition bag_of :: "forwarder \<Rightarrow> event_bag" where
  "bag_of s = \<lparr>bag_pending = mset (wh_queue (fd_hook s)) + batched (wh_workers (fd_hook s)), bag_accepted = fd_accepted s,
     bag_delivered = fd_delivered s, bag_lost = fd_lost s, bag_refused = fd_refused s, bag_counter = wh_dropped (fd_hook s)\<rparr>"

subsection \<open>The forwarder keeps its promise\<close>

definition worker_ok :: "worker \<Rightarrow> bool" where
  "worker_ok w \<longleftrightarrow> wk_batch w = str_join (wk_events w) nl \<and> wk_entries w = length (wk_events w) \<and> \<not> batch_full w"

text \<open>A request carries between one and a hundred events, joined by line feeds, in a body of limited size.\<close>

definition request_ok :: "webhook \<Rightarrow> forward_request \<times> string list \<Rightarrow> bool" where
  "request_ok h = (\<lambda>(req, es). es \<noteq> [] \<and> length es \<le> max_forwarded_batch_entries \<and> fr_body req = str_join es nl \<and>
     length (fr_body req) \<le> max_forwarded_batch_bytes + max_forwarded_log_payload_bytes \<and> fr_url req = wh_url h \<and>
     fr_content_type req = ''application/x-ndjson'' \<and> (wh_token h \<noteq> [] \<longrightarrow> fr_authorization req = ''Bearer '' @ wh_token h))"

definition forwarder_ok :: "forwarder \<Rightarrow> bool" where
  "forwarder_ok s \<longleftrightarrow> (let h = fd_hook s in
     list_all worker_ok (wh_workers h) \<and> length (wh_queue h) \<le> wh_queue_size h \<and>
     list_all (\<lambda>e. length e \<le> max_forwarded_log_payload_bytes) (wh_queue h) \<and> list_all (request_ok h) (fd_requests s))"

lemma str_join_snoc: "str_join (ws @ [w]) sep = (if ws = [] then w else str_join ws sep @ sep @ w)"
  by (induction ws sep rule: str_join.induct) auto

lemma batched_update:
  "i < length ws \<Longrightarrow> batched (ws[i := w]) + mset (wk_events (ws ! i)) = batched ws + mset (wk_events w)"
  by (induction ws arbitrary: i) (auto simp: batched_def ac_simps split: nat.splits)

lemma append_event_ok:
  assumes "worker_ok w"
  shows "wk_batch (append_event p w) = str_join (wk_events w @ [p]) nl" "wk_events (append_event p w) = wk_events w @ [p]"
    "wk_entries (append_event p w) = length (wk_events w @ [p])"
  using assms by (auto simp: worker_ok_def append_event_def str_join_snoc)

lemma send_effect:
  "send answer body n h = (req, h') \<Longrightarrow> h' = (if received answer h then h else record_drops n h)"
  by (auto simp: send_def received_def Let_def split: if_splits option.splits)

lemma send_request:
  "send answer body n h = (Some req, h') \<Longrightarrow>
   fr_body req = body \<and> fr_url req = wh_url h \<and> fr_content_type req = ''application/x-ndjson'' \<and>
   (wh_token h \<noteq> [] \<longrightarrow> fr_authorization req = ''Bearer '' @ wh_token h)"
  by (auto simp: send_def Let_def split: if_splits option.splits)

lemma record_drops_0 [simp]: "record_drops 0 h = h"
  by (simp add: record_drops_def)

lemma flush_effect:
  assumes "flush answer w h = (req, w', h')" "wk_entries w = length (wk_events w)"
  shows "h' = (if received answer h then h else record_drops (length (wk_events w)) h)" "wk_events w' = []"
  using assms by (auto simp: flush_def dest: send_effect split: if_splits prod.splits)

lemma flush_worker_ok:
  assumes "flush answer w h = (req, w', h')" "wk_batch w = str_join (wk_events w) nl" "wk_entries w = length (wk_events w)"
  shows "worker_ok w'"
  using assms
  by (auto simp: flush_def worker_ok_def batch_full_def max_forwarded_batch_entries_def max_forwarded_batch_bytes_def
      split: if_splits prod.splits)

lemma flush_request:
  assumes "flush answer w h = (Some req, w', h')" "wk_batch w = str_join (wk_events w) nl" "wk_entries w = length (wk_events w)"
    "wk_entries w \<le> max_forwarded_batch_entries" "length (wk_batch w) \<le> max_forwarded_batch_bytes + max_forwarded_log_payload_bytes"
  shows "request_ok h (req, wk_events w)"
  using assms by (auto simp: flush_def request_ok_def dest!: send_request split: if_splits prod.splits)

lemma request_ok_cong: "wh_url h' = wh_url h \<Longrightarrow> wh_token h' = wh_token h \<Longrightarrow> request_ok h' = request_ok h"
  by (simp add: request_ok_def)

text \<open>The common part of the three steps of a worker: its buffer changes, and what leaves the buffer is accounted for.\<close>

lemma worker_step_ok:
  assumes "forwarder_ok s" "i < length (wh_workers (fd_hook s))" "worker_ok w'"
    and "list_all (\<lambda>e. length e \<le> max_forwarded_log_payload_bytes) queue" "length queue \<le> wh_queue_size (fd_hook s)"
    and h': "h' = (if P then (fd_hook s)\<lparr>wh_queue := queue\<rparr> else record_drops n ((fd_hook s)\<lparr>wh_queue := queue\<rparr>))"
    and req: "\<And>r. flushed \<Longrightarrow> req = Some r \<Longrightarrow> request_ok (fd_hook s) (r, es)"
  shows "forwarder_ok (account answer h es flushed req (s\<lparr>fd_hook := put_worker i w' h'\<rparr>))"
proof -
  have "list_all worker_ok ((wh_workers (fd_hook s))[i := w'])"
    using assms(1-3) by (auto simp: forwarder_ok_def Let_def list_all_iff dest!: set_update_subset_insert [THEN subsetD])
  moreover have "request_ok (put_worker i w' h') = request_ok (fd_hook s)"
    by (rule request_ok_cong) (auto simp: h' put_worker_def record_drops_def)
  ultimately show ?thesis using assms(1,4,5) req
    by (auto simp: forwarder_ok_def Let_def account_def h' put_worker_def record_drops_def split: option.splits)
qed

lemma worker_step_bag:
  assumes "i < length (wh_workers (fd_hook s))" "w = wh_workers (fd_hook s) ! i"
    and q: "mset (wh_queue (fd_hook s)) = mset queue + M"
    and h': "h' = (if received answer (fd_hook s) then (fd_hook s)\<lparr>wh_queue := queue\<rparr>
               else record_drops (length es) ((fd_hook s)\<lparr>wh_queue := queue\<rparr>))"
    and es: "mset es = mset (wk_events w) + M" "wk_events w' = []"
  shows "bag_of (account answer (fd_hook s) es True req (s\<lparr>fd_hook := put_worker i w' h'\<rparr>)) = bag_of s \<or>
    bag_step (bag_of s) (bag_of (account answer (fd_hook s) es True req (s\<lparr>fd_hook := put_worker i w' h'\<rparr>)))"
proof -
  let ?b = "bag_of s" and ?t = "account answer (fd_hook s) es True req (s\<lparr>fd_hook := put_worker i w' h'\<rparr>)"
  have b: "batched ((wh_workers (fd_hook s))[i := w']) + mset (wk_events w) = batched (wh_workers (fd_hook s))"
    using batched_update [OF assms(1), of w'] assms(2) es(2) by simp
  have p: "bag_pending ?b = (mset queue + batched ((wh_workers (fd_hook s))[i := w'])) + mset es"
    using q es(1) by (simp add: bag_of_def ac_simps flip: b)
  show ?thesis
  proof (cases "received answer (fd_hook s)")
    case True
    then have "bag_of ?t = ?b\<lparr>bag_pending := bag_pending ?b - mset es, bag_delivered := bag_delivered ?b + mset es\<rparr>"
      unfolding p by (simp add: bag_of_def account_def h' put_worker_def)
    moreover have "mset es \<subseteq># bag_pending ?b" unfolding p by simp
    ultimately show ?thesis using bag_deliver by metis
  next
    case False
    then have "bag_of ?t = ?b\<lparr>bag_pending := bag_pending ?b - mset es, bag_lost := bag_lost ?b + mset es,
        bag_counter := bag_counter ?b + size (mset es)\<rparr>"
      unfolding p by (simp add: bag_of_def account_def h' put_worker_def record_drops_def)
    moreover have "mset es \<subseteq># bag_pending ?b" unfolding p by simp
    ultimately show ?thesis using bag_lose by metis
  qed
qed

text \<open>What a worker does with an event.\<close>

lemma receive_event_cases:
  assumes "receive_event answer p w h = (req, w', h')" "worker_ok w" "length p \<le> max_forwarded_log_payload_bytes"
  obtains (kept) "\<not> batch_full (append_event p w)" "worker_ok w'" "h' = h" "wk_events w' = wk_events w @ [p]"
    | (flushed) "batch_full (append_event p w)" "worker_ok w'" "wk_events w' = []"
      "h' = (if received answer h then h else record_drops (length (wk_events w @ [p])) h)"
      "\<And>r. req = Some r \<Longrightarrow> request_ok h (r, wk_events w @ [p])"
proof (cases "batch_full (append_event p w)")
  case False
  then have "w' = (append_event p w)\<lparr>wk_timer_active := True\<rparr>" "h' = h"
    using assms(1) by (auto simp: receive_event_def Let_def)
  then show ?thesis using kept [OF False] append_event_ok [OF assms(2), of p] False
    by (simp add: worker_ok_def batch_full_def)
next
  case True
  let ?a = "append_event p w"
  obtain w1 where f: "flush answer ?a h = (req, w1, h')" "w' = w1\<lparr>wk_timer_active := False\<rparr>"
    using assms(1) True by (auto simp: receive_event_def Let_def split: prod.splits)
  note a = append_event_ok [OF assms(2), of p]
  have "length (wk_batch ?a) \<le> max_forwarded_batch_bytes + max_forwarded_log_payload_bytes" "wk_entries ?a \<le> max_forwarded_batch_entries"
    using assms(2,3) by (auto simp: append_event_def worker_ok_def batch_full_def)
  then have "request_ok h (r, wk_events w @ [p])" if "req = Some r" for r
    using flush_request [of answer ?a h r w1 h'] f(1) that a by simp
  moreover have "worker_ok w1" using flush_worker_ok [OF f(1)] a by simp
  ultimately show ?thesis
    using flushed [OF True] flush_effect [OF f(1)] a f(2) by (simp add: worker_ok_def batch_full_def)
qed

lemma worker_ok_nth: "forwarder_ok s \<Longrightarrow> i < length (wh_workers (fd_hook s)) \<Longrightarrow> worker_ok (wh_workers (fd_hook s) ! i)"
  by (auto simp: forwarder_ok_def Let_def list_all_iff)

text \<open>A flush without a new event, by the timer or at the end of the queue.\<close>

lemma plain_flush:
  assumes "forwarder_ok s" "i < length (wh_workers (fd_hook s))" "w = wh_workers (fd_hook s) ! i"
    and f: "flush answer v (fd_hook s) = (req, v', h')" "wk_batch v = wk_batch w" "wk_entries v = wk_entries w" "wk_events v = wk_events w"
    and w': "wk_events w' = wk_events v'" "worker_ok v' \<Longrightarrow> worker_ok w'"
  defines "t \<equiv> account answer (fd_hook s) (wk_events w) True req (s\<lparr>fd_hook := put_worker i w' h'\<rparr>)"
  shows "forwarder_ok t" "bag_of t = bag_of s \<or> bag_step (bag_of s) (bag_of t)"
proof -
  have w: "wk_batch v = str_join (wk_events v) nl" "wk_entries v = length (wk_events v)"
    "wk_entries v \<le> max_forwarded_batch_entries" "length (wk_batch v) \<le> max_forwarded_batch_bytes + max_forwarded_log_payload_bytes"
    using worker_ok_nth [OF assms(1,2)] assms(3) f(2-4) by (auto simp: worker_ok_def batch_full_def)
  have q: "(fd_hook s)\<lparr>wh_queue := wh_queue (fd_hook s)\<rparr> = fd_hook s" by simp
  have h': "h' = (if received answer (fd_hook s) then (fd_hook s)\<lparr>wh_queue := wh_queue (fd_hook s)\<rparr>
      else record_drops (length (wk_events w)) ((fd_hook s)\<lparr>wh_queue := wh_queue (fd_hook s)\<rparr>))" "wk_events w' = []"
    using flush_effect [OF f(1) w(2)] f(4) w'(1) unfolding q by simp_all
  have "request_ok (fd_hook s) (r, wk_events w)" if "req = Some r" for r
    using flush_request [of answer v "fd_hook s" r v' h'] f(1,4) w that by simp
  moreover have "worker_ok w'" using flush_worker_ok [OF f(1) w(1,2)] w'(2) by blast
  ultimately show "forwarder_ok t" unfolding t_def
    using assms(1,2) by (intro worker_step_ok [OF _ _ _ _ _ h'(1)]) (auto simp: forwarder_ok_def Let_def)
  show "bag_of t = bag_of s \<or> bag_step (bag_of s) (bag_of t)" unfolding t_def
    by (rule worker_step_bag [OF assms(2,3) _ h'(1) _ h'(2), of "{#}"]) simp_all
qed

lemma enqueue_simulated:
  assumes "forwarder_ok s" "h = fd_hook s" "h' = enqueue payload h"
    "t = s\<lparr>fd_hook := h', fd_accepted := fd_accepted s + (if wh_queue h' = wh_queue h then {#} else {#payload#}),
       fd_refused := fd_refused s + (wh_dropped h' - wh_dropped h)\<rparr>"
  shows "forwarder_ok t \<and> (bag_of t = bag_of s \<or> bag_step (bag_of s) (bag_of t))"
proof -
  consider (full) "h' = record_drops 1 h" | (closed) "h' = h"
    | (queued) "h' = h\<lparr>wh_queue := wh_queue h @ [payload]\<rparr>" "length payload \<le> max_forwarded_log_payload_bytes"
        "length (wh_queue h) < wh_queue_size h"
    using assms(3) by (auto simp: enqueue_def split: if_splits)
  then show ?thesis
  proof cases
    case full
    have "bag_of t = (bag_of s)\<lparr>bag_refused := bag_refused (bag_of s) + 1, bag_counter := bag_counter (bag_of s) + 1\<rparr>"
      using full assms(2,4) by (simp add: bag_of_def record_drops_def)
    moreover have "forwarder_ok t" using full assms request_ok_cong [of h' h] by (simp add: forwarder_ok_def Let_def record_drops_def)
    ultimately show ?thesis using bag_refuse by metis
  next
    case closed
    then show ?thesis using assms by simp
  next
    case queued
    have "bag_of t = (bag_of s)\<lparr>bag_pending := add_mset payload (bag_pending (bag_of s)),
        bag_accepted := add_mset payload (bag_accepted (bag_of s))\<rparr>"
      using queued assms(2,4) by (simp add: bag_of_def)
    moreover have "forwarder_ok t" using queued assms request_ok_cong [of h' h] by (simp add: forwarder_ok_def Let_def)
    ultimately show ?thesis using bag_accept by metis
  qed
qed

lemma receive_simulated:
  assumes "forwarder_ok s" "h = fd_hook s" "wh_queue h = payload # queue" "i < length (wh_workers h)" "w = wh_workers h ! i"
    and r: "receive_event answer payload w (h\<lparr>wh_queue := queue\<rparr>) = (req, w', h')"
    and t: "t = account answer h (wk_events w @ [payload]) (batch_full (append_event payload w)) req (s\<lparr>fd_hook := put_worker i w' h'\<rparr>)"
  shows "forwarder_ok t \<and> (bag_of t = bag_of s \<or> bag_step (bag_of s) (bag_of t))"
proof -
  have q: "list_all (\<lambda>e. length e \<le> max_forwarded_log_payload_bytes) queue" "length payload \<le> max_forwarded_log_payload_bytes"
    "length queue \<le> wh_queue_size (fd_hook s)" using assms(1-3) by (auto simp: forwarder_ok_def Let_def)
  have w: "worker_ok w" using worker_ok_nth [OF assms(1)] assms(2,4,5) by simp
  have i: "i < length (wh_workers (fd_hook s))" "w = wh_workers (fd_hook s) ! i" using assms(2,4,5) by simp_all
  have c: "request_ok (h\<lparr>wh_queue := queue\<rparr>) = request_ok h" by (rule request_ok_cong) simp_all
  from r w q(2) show ?thesis
  proof (cases rule: receive_event_cases)
    case kept
    have "forwarder_ok t" unfolding t using kept assms(2)
      by (intro worker_step_ok [OF assms(1) i(1) kept(2) q(1,3), of _ True]) simp_all
    moreover have "bag_of t = bag_of s"
      using kept(1,3,4) batched_update [OF i(1), of w'] assms(2,3) i(2) unfolding t
      by (simp add: bag_of_def account_def put_worker_def)
    ultimately show ?thesis by blast
  next
    case flushed
    have rc: "received answer (h\<lparr>wh_queue := queue\<rparr>) = received answer h" by (simp add: received_def)
    have h': "h' = (if received answer (fd_hook s) then (fd_hook s)\<lparr>wh_queue := queue\<rparr>
        else record_drops (length (wk_events w @ [payload])) ((fd_hook s)\<lparr>wh_queue := queue\<rparr>))"
      using flushed(4) unfolding rc unfolding assms(2) .
    have "forwarder_ok t" unfolding t using flushed(5) c assms(2)
      by (intro worker_step_ok [OF assms(1) i(1) flushed(2) q(1,3) h']) simp_all
    moreover have "bag_of t = bag_of s \<or> bag_step (bag_of s) (bag_of t)"
      using worker_step_bag [OF i _ h' _ flushed(3), of "{#payload#}" req] flushed(1) assms(2,3) by (simp add: t)
    ultimately show ?thesis by blast
  qed
qed

lemma forward_simulated:
  assumes "forwarder_ok s" "forward_step s t"
  shows "forwarder_ok t \<and> (bag_of t = bag_of s \<or> bag_step (bag_of s) (bag_of t))"
  using assms(2)
proof cases
  case (fwd_enqueue h h' payload)
  then show ?thesis using enqueue_simulated [OF assms(1)] by blast
next
  case (fwd_receive h payload queue i w answer req w' h')
  then show ?thesis using receive_simulated [OF assms(1)] by blast
next
  case (fwd_timer h i w answer req w' h')
  then show ?thesis
    using plain_flush [OF assms(1), of i w answer "w\<lparr>wk_timer_active := False\<rparr>" req w' h' w'] by (simp add: timer_fires_def)
next
  case (fwd_drained h i w answer req w' h')
  then obtain v' where v: "flush answer w (fd_hook s) = (req, v', h')" "w' = v'\<lparr>wk_exited := True\<rparr>"
    by (auto simp: queue_drained_def Let_def split: prod.splits)
  have "wk_events w' = wk_events v'" "worker_ok v' \<Longrightarrow> worker_ok w'"
    unfolding v(2) by (simp, auto simp: worker_ok_def batch_full_def)
  note p = plain_flush [OF assms(1) fwd_drained(5,6) [unfolded fwd_drained(2)] v(1) refl refl refl this]
  show ?thesis using p unfolding fwd_drained(1,2) by blast
next
  case fwd_close
  have "request_ok (close_queue (fd_hook s)) = request_ok (fd_hook s)" by (rule request_ok_cong) (simp_all add: close_queue_def)
  then show ?thesis using assms(1) fwd_close by (simp add: forwarder_ok_def Let_def bag_of_def close_queue_def)
next
  case fwd_cancel
  have "request_ok (cancel_hook (fd_hook s)) = request_ok (fd_hook s)" by (rule request_ok_cong) (simp_all add: cancel_hook_def)
  then show ?thesis using assms(1) fwd_cancel by (simp add: forwarder_ok_def Let_def bag_of_def cancel_hook_def)
qed

interpretation forwarding: simulation initial_forwarder forward_step forwarder_ok empty_bag bag_step bag_of
proof
  have new: "worker_ok new_worker"
    by (simp add: worker_ok_def new_worker_def batch_full_def max_forwarded_batch_entries_def max_forwarded_batch_bytes_def)
  show "forwarder_ok s" if "initial_forwarder s" for s
    using that new by (auto simp: initial_forwarder_def forwarder_ok_def new_webhook_def Let_def list_all_iff)
  show "empty_bag (bag_of s)" if "initial_forwarder s" for s
  proof -
    have "batched (replicate n new_worker) = {#}" for n by (induction n) (simp_all add: batched_def new_worker_def)
    then show ?thesis using that by (auto simp: initial_forwarder_def empty_bag_def bag_of_def new_webhook_def Let_def)
  qed
qed (use forward_simulated in blast)+

subsection \<open>Properties of the forwarder\<close>

text \<open>One event goes through a forwarder with one worker: it is queued, taken, and sent when the timer fires.\<close>

definition sample_worker :: worker where
  "sample_worker = \<lparr>wk_batch = ''{}'', wk_entries = 1, wk_timer_active = True, wk_exited = False, wk_events = [''{}'']\<rparr>"

definition sample_forward_request :: forward_request where
  "sample_forward_request = \<lparr>fr_url = ''https://logs.example.com/logs'', fr_content_type = ''application/x-ndjson'',
     fr_authorization = ''Bearer t'', fr_body = ''{}''\<rparr>"

lemma sample_forwarded:
  obtains s where "reachable initial_forwarder forward_step s" "fd_requests s = [(sample_forward_request, [''{}''])]"
    "fd_accepted s = {#''{}''#}" "fd_delivered s = {#''{}''#}" "wh_dropped (fd_hook s) = 0"
proof -
  let ?h = "new_webhook ''https://logs.example.com/logs'' ''t'' 8 1"
  let ?s0 = "\<lparr>fd_hook = ?h, fd_accepted = {#}, fd_delivered = {#}, fd_lost = {#}, fd_refused = 0, fd_requests = []\<rparr>"
  let ?h1 = "?h\<lparr>wh_queue := [''{}'']\<rparr>"
  let ?s1 = "?s0\<lparr>fd_hook := ?h1, fd_accepted := {#''{}''#}\<rparr>"
  let ?h2 = "?h\<lparr>wh_workers := [sample_worker]\<rparr>"
  let ?s2 = "?s1\<lparr>fd_hook := ?h2\<rparr>"
  let ?w3 = "sample_worker\<lparr>wk_batch := [], wk_entries := 0, wk_timer_active := False, wk_events := []\<rparr>"
  let ?s3 = "?s2\<lparr>fd_hook := ?h\<lparr>wh_workers := [?w3]\<rparr>, fd_delivered := {#''{}''#},
    fd_requests := [(sample_forward_request, [''{}''])]\<rparr>"
  have full: "\<not> batch_full (append_event ''{}'' new_worker)"
    by (simp add: batch_full_def append_event_def new_worker_def max_forwarded_batch_entries_def max_forwarded_batch_bytes_def)
  have a: "append_event ''{}'' new_worker = sample_worker\<lparr>wk_timer_active := False\<rparr>"
    by (simp add: append_event_def new_worker_def sample_worker_def)
  have 0: "reachable initial_forwarder forward_step ?s0"
    by (rule reachable_init) (unfold initial_forwarder_def, blast)
  have "enqueue ''{}'' ?h = ?h1"
    by (simp add: enqueue_def new_webhook_def max_forwarded_log_payload_bytes_def)
  then have "forward_step ?s0 ?s1" using fwd_enqueue [of ?h ?s0 ?h1 "''{}''"] by (simp add: new_webhook_def)
  with 0 have 1: "reachable initial_forwarder forward_step ?s1" by (rule reachable_step)
  have "receive_event None ''{}'' new_worker (?h1\<lparr>wh_queue := []\<rparr>) = (None, sample_worker, ?h)"
    using full by (simp add: receive_event_def a Let_def new_webhook_def sample_worker_def)
  then have "forward_step ?s1 ?s2"
    using fwd_receive [of ?h1 ?s1 "''{}''" "[]" 0 new_worker None None sample_worker ?h] full
    by (simp add: account_def put_worker_def new_webhook_def new_worker_def)
  with 1 have 2: "reachable initial_forwarder forward_step ?s2" by (rule reachable_step)
  have "timer_fires (Some 200) sample_worker ?h2 = (Some sample_forward_request, ?w3, ?h2)"
    by (simp add: timer_fires_def flush_def sample_worker_def send_def new_webhook_def sample_forward_request_def)
  then have "forward_step ?s2 ?s3"
    using fwd_timer [of ?h2 ?s2 0 sample_worker "Some 200" "Some sample_forward_request" ?w3 ?h2]
    by (simp add: account_def put_worker_def received_def new_webhook_def sample_worker_def)
  with 2 have "reachable initial_forwarder forward_step ?s3" by (rule reachable_step)
  then show thesis by (rule that) (simp_all add: new_webhook_def)
qed



text \<open>C39: the forwarder never holds more events than its queue has room for and never sends more than the protocol allows: every
  request has between one and a hundred events, one per line in the order they were queued, in at most 528 KiB, with the content
  type of a batch and the token of the forwarder.\<close>

theorem forwarder_requests_bounded:
  assumes "reachable initial_forwarder forward_step s"
  shows "length (wh_queue (fd_hook s)) \<le> wh_queue_size (fd_hook s) \<and>
    (\<forall>(req, es) \<in> set (fd_requests s). es \<noteq> [] \<and> length es \<le> 100 \<and> fr_body req = str_join es nl \<and> length (fr_body req) \<le> 540672 \<and>
       fr_content_type req = ''application/x-ndjson'' \<and>
       (wh_token (fd_hook s) \<noteq> [] \<longrightarrow> fr_authorization req = ''Bearer '' @ wh_token (fd_hook s)))"
proof -
  have "forwarder_ok s" using assms by (rule forwarding.reachable_inv)
  then show ?thesis
    by (auto simp: forwarder_ok_def Let_def list_all_iff request_ok_def max_forwarded_batch_entries_def max_forwarded_batch_bytes_def
        max_forwarded_log_payload_bytes_def)
qed

theorem forwarder_requests_bounded_witness:
  "\<exists>s :: forwarder. fd_requests s = [(sample_forward_request, [''{}''])] \<and> length (fr_body sample_forward_request) \<le> 540672 \<and>
     fr_body sample_forward_request = str_join [''{}''] nl"
proof (rule sample_forwarded)
  fix s assume r: "reachable initial_forwarder forward_step s" and q: "fd_requests s = [(sample_forward_request, [''{}''])]"
  have "length (fr_body sample_forward_request) \<le> 540672 \<and> fr_body sample_forward_request = str_join [''{}''] nl"
    using forwarder_requests_bounded [OF r] q by simp
  with q show ?thesis by blast
qed

subsection \<open>Properties of rotating files\<close>

text \<open>Writes at given times, in order; the result lists the paths that they went to.\<close>

fun rf_writes :: "log_env \<Rightarrow> (time \<times> string) list \<Rightarrow> rotating_file \<Rightarrow> log_fs \<Rightarrow> (string option \<times> time) list \<times> rotating_file \<times> log_fs" where
  "rf_writes env [] rf fs = ([], rf, fs)"
| "rf_writes env ((now, p) # ws) rf fs =
     (let (ok, rf, fs) = rf_write env now p rf fs; (ps, rf', fs') = rf_writes env ws rf fs
      in ((if ok then rf_file rf else None, now) # ps, rf', fs'))"

lemma truncate_second_eq:
  assumes "truncate_second t \<le> now" "now < truncate_second t + second"
  shows "truncate_second now = truncate_second t"
proof -
  have "t - t mod second = second * (t div second)" by (simp add: minus_mod_eq_mult_div)
  then have "now div second = t div second" using assms unfolding truncate_second_def by (intro int_div_pos_eq [of _ _ _ "now - second * (t div second)"]) auto
  then show ?thesis unfolding truncate_second_def by (simp add: minus_mod_eq_mult_div)
qed

definition file_content :: "log_fs \<Rightarrow> string \<Rightarrow> string" where
  "file_content fs path = (case map_of fs path of None \<Rightarrow> [] | Some s \<Rightarrow> s)"

text \<open>The layouts have a resolution of one second, and every file can be opened.\<close>

definition seconds_only :: "log_env \<Rightarrow> bool" where
  "seconds_only env \<longleftrightarrow> (\<forall>layout t. le_format env layout t = le_format env layout (truncate_second t)) \<and> (\<forall>path. le_can_open env path)"

definition rf_at :: "log_env \<Rightarrow> string \<Rightarrow> time \<Rightarrow> rotating_file \<Rightarrow> bool" where
  "rf_at env pattern t rf \<longleftrightarrow> rf_pattern rf = pattern \<and> rf_path rf = resolve_path_pattern (le_format env) pattern t \<and>
     rf_file rf = Some (rf_path rf) \<and> rf_next_check rf = truncate_second t + second"

lemma resolve_same_second:
  assumes "seconds_only env" "truncate_second t = truncate_second u"
  shows "resolve_path_pattern (le_format env) pattern t = resolve_path_pattern (le_format env) pattern u"
proof -
  have "le_format env layout t = le_format env layout u" for layout
    using assms unfolding seconds_only_def by metis
  then show ?thesis by (simp add: resolve_path_pattern_def)
qed

lemma rotate_at:
  assumes "seconds_only env" "rf_at env pattern t rf"
  shows "rf_at env pattern now (snd (rotate_locked env now rf))"
  using assms by (auto simp: rotate_locked_def rf_at_def seconds_only_def Let_def)

lemma rf_write_at:
  assumes "seconds_only env" "rf_at env pattern t rf" "t \<le> now" "rf_write env now p rf fs = (ok, rf', fs')"
  shows "ok \<and> rf_file rf' = Some (resolve_path_pattern (le_format env) pattern now) \<and> (\<exists>u \<le> now. rf_at env pattern u rf') \<and>
    file_content fs' = (file_content fs)(resolve_path_pattern (le_format env) pattern now :=
       file_content fs (resolve_path_pattern (le_format env) pattern now) @ p)"
proof -
  let ?rf = "if str_contains (rf_pattern rf) ''%'' \<and> rf_next_check rf \<le> now then snd (rotate_locked env now rf) else rf"
  have "\<exists>u \<le> now. rf_at env pattern u ?rf \<and> rf_file ?rf = Some (resolve_path_pattern (le_format env) pattern now)"
  proof (cases "str_contains (rf_pattern rf) ''%'' \<and> rf_next_check rf \<le> now")
    case True
    then show ?thesis using rotate_at [OF assms(1,2), of now] by (auto simp: rf_at_def)
  next
    case False
    have "resolve_path_pattern (le_format env) pattern t = resolve_path_pattern (le_format env) pattern now"
    proof (cases "str_contains pattern ''%''")
      case True
      then have "now < truncate_second t + second" using False assms(2) by (auto simp: rf_at_def)
      moreover have "truncate_second t \<le> now" using assms(3) by (simp add: truncate_second_def)
      ultimately show ?thesis using resolve_same_second [OF assms(1)] truncate_second_eq by metis
    next
      case False
      then show ?thesis by (simp add: resolve_path_pattern_def)
    qed
    then show ?thesis using False assms(2,3) by (auto simp: rf_at_def)
  qed
  then obtain u where u: "u \<le> now" "rf_at env pattern u ?rf" "rf_file ?rf = Some (resolve_path_pattern (le_format env) pattern now)" by blast
  have "rf_file rf \<noteq> None" using assms(2) by (simp add: rf_at_def)
  then have "ok" "rf' = ?rf" "fs' = assoc_put (resolve_path_pattern (le_format env) pattern now)
      (file_content fs (resolve_path_pattern (le_format env) pattern now) @ p) fs"
    using assms(4) u(3) by (auto simp: rf_write_def Let_def file_content_def split: if_splits)
  then show ?thesis using u by (auto simp: file_content_def fun_eq_iff)
qed

lemma rf_writes_at:
  assumes "seconds_only env"
  shows "\<lbrakk> rf_at env pattern t rf; sorted (t # map fst ws); rf_writes env ws rf fs = (paths, rf', fs') \<rbrakk> \<Longrightarrow>
    paths = map (\<lambda>(now, p). (Some (resolve_path_pattern (le_format env) pattern now), now)) ws \<and>
    file_content fs' path = file_content fs path @
      concat (map snd (filter (\<lambda>(now, p). resolve_path_pattern (le_format env) pattern now = path) ws))"
proof (induction ws arbitrary: t rf fs paths rf' fs')
  case Nil
  then show ?case by simp
next
  case (Cons w ws)
  obtain now p where w: "w = (now, p)" by fastforce
  obtain ok rf1 fs1 where f: "rf_write env now p rf fs = (ok, rf1, fs1)" by (rule prod_cases3)
  obtain ps rf2 fs2 where g: "rf_writes env ws rf1 fs1 = (ps, rf2, fs2)" by (rule prod_cases3)
  have "t \<le> now" using Cons.prems(2) by (simp add: w)
  from rf_write_at [OF assms Cons.prems(1) this f] obtain u where u: "ok" "u \<le> now" "rf_at env pattern u rf1"
    "rf_file rf1 = Some (resolve_path_pattern (le_format env) pattern now)"
    "file_content fs1 = (file_content fs)(resolve_path_pattern (le_format env) pattern now :=
       file_content fs (resolve_path_pattern (le_format env) pattern now) @ p)" by blast
  have "sorted (u # map fst ws)" using Cons.prems(2) u(2) by (auto simp: w)
  note i = Cons.IH [OF u(3) this g]
  show ?case using i u(1,4,5) Cons.prems(3) f g by (auto simp: w)
qed

text \<open>C40: a log file follows the time.  When the files can be opened and the clock does not go back, every line is written to the
  file of the very second it is written in, although the path is resolved at most once per second; no line is lost, and the lines
  of a file are in the order they were written.\<close>

theorem rotating_file_follows_time:
  assumes "open_rotating_file env t0 pattern = Inr rf" "seconds_only env" "sorted (t0 # map fst ws)"
    and "rf_writes env ws rf fs = (paths, rf', fs')"
  shows "paths = map (\<lambda>(now, p). (Some (resolve_path_pattern (le_format env) pattern now), now)) ws \<and>
    file_content fs' path = file_content fs path @
      concat (map snd (filter (\<lambda>(now, p). resolve_path_pattern (le_format env) pattern now = path) ws))"
proof -
  have "rf_at env pattern t0 rf"
    using assms(1,2) by (auto simp: open_rotating_file_def rotate_locked_def rf_at_def Let_def split: if_splits prod.splits option.splits)
  then show ?thesis using rf_writes_at [OF assms(2)] assms(3,4) by blast
qed

definition sample_log_env :: log_env where
  "sample_log_env = \<lparr>le_format = (\<lambda>layout t. if layout = ''05'' then itoa (t div second mod 60) else []), le_can_open = (\<lambda>path. True)\<rparr>"

theorem rotating_file_follows_time_witness:
  "case open_rotating_file sample_log_env (5 * second) ''w%ss.log'' of
     Inl e \<Rightarrow> False
   | Inr rf \<Rightarrow> (case rf_writes sample_log_env [(5 * second + 7, ''a''), (6 * second, ''b''), (6 * second + 1, ''c'')] rf [] of
       (paths, rf', fs) \<Rightarrow> map fst paths = [Some ''w5.log'', Some ''w6.log'', Some ''w6.log''] \<and> file_content fs ''w6.log'' = ''bc'')"
proof -
  let ?ws = "[(5 * second + 7, ''a''), (6 * second, ''b''), (6 * second + 1, ''c'')]"
  have s: "seconds_only sample_log_env"
    by (auto simp: seconds_only_def sample_log_env_def truncate_second_def minus_mod_eq_mult_div)
  have o: "sorted (5 * second # map fst ?ws)" by simp
  have r: "resolve_path_pattern (le_format sample_log_env) ''w%ss.log'' (5 * second + 7) = ''w5.log''"
    "resolve_path_pattern (le_format sample_log_env) ''w%ss.log'' (6 * second) = ''w6.log''"
    "resolve_path_pattern (le_format sample_log_env) ''w%ss.log'' (6 * second + 1) = ''w6.log''" by code_simp+
  have c: "\<not> (case open_rotating_file sample_log_env (5 * second) ''w%ss.log'' of Inl e \<Rightarrow> True | Inr rf \<Rightarrow> False)" by code_simp
  show ?thesis
  proof (cases "open_rotating_file sample_log_env (5 * second) ''w%ss.log''")
    case (Inl e)
    then show ?thesis using c by simp
  next
    case (Inr rf)
    obtain paths rf' fs where w: "rf_writes sample_log_env ?ws rf [] = (paths, rf', fs)" by (rule prod_cases3)
    from rotating_file_follows_time [OF Inr s o w, of "''w6.log''"] show ?thesis
      using Inr w r by (simp add: file_content_def)
  qed
qed

end
