(* ===== verification/Receiver.thy ===== *)
theory Receiver
  imports Logging RequestInfo
begin

text \<open>
  The log receiver, \<open>services/ai-logs-receiver/main.go\<close>: it takes the batches of the
  forwarder, authenticates the tenant by its token, checks every line and appends the lines
  to a file per tenant and day; a quota limits the bytes of a tenant, a sweep removes old
  files, and addresses that keep failing authentication are throttled.

  The file system is a map from directories to their entries, in the order in which
  \<open>os.ReadDir\<close> lists them; what fails in it, the layout of a date and the environment
  variable \<open>LOGS_DIR\<close> are parameters of every call.  The state of a tenant and the table of
  failures are only used under their locks, so a request is one step; the clock of the
  process also dates the files.  A Go map is an association list whose order is the order of
  the iteration.
\<close>

subsection \<open>Tenants and tokens\<close>

(* src: services/ai-logs-receiver/main.go:33 minTokenLength *)
definition min_token_length :: nat where
  "min_token_length = 32"

(* src: services/ai-logs-receiver/main.go:40 tenantIDPattern *)
definition tenant_id_ok :: "string \<Rightarrow> bool" where
  "tenant_id_ok s \<longleftrightarrow> 1 \<le> length s \<and> length s \<le> 128 \<and>
     list_all (\<lambda>c. is_upper_byte c \<or> is_lower_byte c \<or> is_digit_byte c \<or> c = CHR ''_'' \<or> c = CHR ''-'') s"

(* src: services/ai-logs-receiver/main.go:54-66 loadTenantTokens (checks) *)
fun check_tokens :: "(string \<times> string) list \<Rightarrow> (string \<times> string) list \<Rightarrow> go_error option" where
  "check_tokens seen [] = None"
| "check_tokens seen ((tenant, token) # rest) =
     (if \<not> tenant_id_ok tenant \<or> filepath_base tenant \<noteq> tenant
      then Some (Errorf ''AI_LOG_TOKENS contains invalid tenant ID %q'' [tenant] None)
      else if length (trim_space token) < min_token_length
      then Some (Errorf ''AI_LOG_TOKENS token for tenant %q must be at least %d characters'' [tenant, itoa (int min_token_length)] None)
      else case map_of seen token of
             Some other \<Rightarrow> Some (Errorf ''AI_LOG_TOKENS reuses one token for tenants %q and %q'' [other, tenant] None)
           | None \<Rightarrow> check_tokens (assoc_put token tenant seen) rest)"

text \<open>\<open>unmarshal\<close> decodes a JSON object of strings.\<close>

(* src: services/ai-logs-receiver/main.go:42-68 loadTenantTokens *)
definition load_tenant_tokens :: "(string \<Rightarrow> (string \<times> string) list option) \<Rightarrow> string \<Rightarrow> go_error + (string \<times> string) list" where
  "load_tenant_tokens unmarshal raw =
     (if blank raw then Inl (Errorf ''AI_LOG_TOKENS is required'' [] None)
      else case unmarshal raw of
             None \<Rightarrow> Inl (Errorf ''parse AI_LOG_TOKENS: %w'' [] None)
           | Some tokens \<Rightarrow>
               if tokens = [] then Inl (Errorf ''AI_LOG_TOKENS must contain at least one tenant token'' [] None)
               else case check_tokens [] tokens of
                      Some e \<Rightarrow> Inl e
                    | None \<Rightarrow> Inr tokens)"

(* src: services/ai-logs-receiver/main.go:78-85 tenantIDForToken *)
fun tenant_id_for_token :: "(string \<times> string) list \<Rightarrow> string \<Rightarrow> string" where
  "tenant_id_for_token [] candidate = []"
| "tenant_id_for_token ((tenant, token) # rest) candidate =
     (if token = candidate then tenant else tenant_id_for_token rest candidate)"

subsection \<open>Files and their failures\<close>

record dir_entry =
  de_is_dir :: bool
  de_regular :: bool
  de_mod_time :: time
  de_data :: string

type_synonym listing = "(string \<times> dir_entry) list"
type_synonym logs_fs = "(string \<times> listing) list"

text \<open>
  \<open>ro_write\<close> is \<open>None\<close> when a write takes all bytes, and the number of bytes written before it
  failed otherwise.  \<open>ro_temp\<close> is the name of a temporary file, when one can be created, and
  \<open>ro_error_text\<close> formats an error.
\<close>

record receiver_os =
  ro_logs_dir :: string
  ro_date :: "time \<Rightarrow> string"
  ro_mkdir_ok :: "string \<Rightarrow> bool"
  ro_read_dir_ok :: "string \<Rightarrow> bool"
  ro_info_ok :: "string \<Rightarrow> string \<Rightarrow> bool"
  ro_open_ok :: "string \<Rightarrow> string \<Rightarrow> bool"
  ro_write :: "string \<Rightarrow> nat option"
  ro_sync_ok :: bool
  ro_remove_ok :: "string \<Rightarrow> string \<Rightarrow> bool"
  ro_temp :: "string option"
  ro_close_ok :: bool
  ro_error_text :: "go_error \<Rightarrow> string"

definition os_error :: "string \<Rightarrow> string \<Rightarrow> go_error" where
  "os_error op path = Errorf (op @ '' %s'') [path] None"

definition make_base :: "string \<Rightarrow> logs_fs \<Rightarrow> logs_fs" where
  "make_base base fs = (if map_of fs base = None then assoc_put base [] fs else fs)"

text \<open>\<open>os.MkdirAll\<close> of the directory \<open>name\<close> in \<open>base\<close>; \<open>dir\<close> is its path.\<close>

definition make_dir :: "receiver_os \<Rightarrow> time \<Rightarrow> string \<Rightarrow> string \<Rightarrow> string \<Rightarrow> logs_fs \<Rightarrow> logs_fs option" where
  "make_dir os now base name dir fs =
     (if \<not> ro_mkdir_ok os dir then None
      else
        let fs = make_base base fs; entries = the (map_of fs base) in
        case map_of entries name of
          Some e \<Rightarrow> if de_is_dir e then Some (make_base dir fs) else None
        | None \<Rightarrow>
            Some (make_base dir (assoc_put base
              (assoc_put name \<lparr>de_is_dir = True, de_regular = False, de_mod_time = now, de_data = []\<rparr> entries) fs)))"

text \<open>\<open>os.OpenFile\<close> for appending and one write of \<open>data\<close>.\<close>

definition append_file :: "time \<Rightarrow> string \<Rightarrow> string \<Rightarrow> listing \<Rightarrow> listing" where
  "append_file now name data entries =
     (case map_of entries name of
        None \<Rightarrow> assoc_put name \<lparr>de_is_dir = False, de_regular = True, de_mod_time = now, de_data = data\<rparr> entries
      | Some e \<Rightarrow> assoc_put name (e\<lparr>de_mod_time := now, de_data := de_data e @ data\<rparr>) entries)"

(* src: services/ai-logs-receiver/main.go:479-491 directoryBytes (entries) *)
fun sum_sizes :: "receiver_os \<Rightarrow> string \<Rightarrow> int \<Rightarrow> listing \<Rightarrow> go_error + int" where
  "sum_sizes os dir used [] = Inr used"
| "sum_sizes os dir used ((name, e) # rest) =
     (if de_is_dir e then sum_sizes os dir used rest
      else if \<not> ro_info_ok os dir name then Inl (os_error ''lstat'' name)
      else sum_sizes os dir (if de_regular e then wrap64 (used + int (length (de_data e))) else used) rest)"

(* src: services/ai-logs-receiver/main.go:474-493 directoryBytes *)
definition directory_bytes :: "receiver_os \<Rightarrow> string \<Rightarrow> logs_fs \<Rightarrow> go_error + int" where
  "directory_bytes os dir fs =
     (case map_of fs dir of
        None \<Rightarrow> Inl (os_error ''open'' dir)
      | Some entries \<Rightarrow> if \<not> ro_read_dir_ok os dir then Inl (os_error ''open'' dir) else sum_sizes os dir 0 entries)"

text \<open>\<open>filepath.Ext\<close> of a plain name.\<close>

definition filepath_ext :: "string \<Rightarrow> string" where
  "filepath_ext name = (case last_index_byte name (CHR ''.'') of None \<Rightarrow> [] | Some i \<Rightarrow> drop i name)"

(* src: services/ai-logs-receiver/main.go:409-422 removeExpiredLogs (entries) *)
fun remove_expired_entries :: "receiver_os \<Rightarrow> string \<Rightarrow> time \<Rightarrow> listing \<Rightarrow> go_error option \<times> listing" where
  "remove_expired_entries os dir cutoff [] = (None, [])"
| "remove_expired_entries os dir cutoff ((name, e) # rest) =
     (if de_is_dir e \<or> filepath_ext name \<noteq> ''.log''
      then (let (err, kept) = remove_expired_entries os dir cutoff rest in (err, (name, e) # kept))
      else if \<not> ro_info_ok os dir name then (Some (os_error ''lstat'' name), (name, e) # rest)
      else if de_regular e \<and> de_mod_time e < cutoff
      then (if ro_remove_ok os dir name then remove_expired_entries os dir cutoff rest
            else (Some (os_error ''remove'' name), (name, e) # rest))
      else (let (err, kept) = remove_expired_entries os dir cutoff rest in (err, (name, e) # kept)))"

(* src: services/ai-logs-receiver/main.go:404-424 removeExpiredLogs *)
definition remove_expired_logs :: "receiver_os \<Rightarrow> string \<Rightarrow> time \<Rightarrow> logs_fs \<Rightarrow> go_error option \<times> logs_fs" where
  "remove_expired_logs os dir cutoff fs =
     (case map_of fs dir of
        None \<Rightarrow> (Some (os_error ''open'' dir), fs)
      | Some entries \<Rightarrow>
          if \<not> ro_read_dir_ok os dir then (Some (os_error ''open'' dir), fs)
          else (let (err, kept) = remove_expired_entries os dir cutoff entries in (err, assoc_put dir kept fs)))"

subsection \<open>The state of the receiver\<close>

(* src: services/ai-logs-receiver/main.go:103-109 tenantReceiverState *)
record tenant_receiver_state =
  ts_window_start :: time
  ts_requests :: int
  ts_used_bytes :: int
  ts_used_known :: bool

definition fresh_tenant_state :: tenant_receiver_state where
  "fresh_tenant_state = \<lparr>ts_window_start = 0, ts_requests = 0, ts_used_bytes = 0, ts_used_known = False\<rparr>"

(* src: services/ai-logs-receiver/main.go:133-136 authFailures *)
record auth_failures =
  af_window_start :: time
  af_count :: int

(* src: services/ai-logs-receiver/main.go:87-101 LogReceiver *)
record log_receiver =
  lr_tokens :: "(string \<times> string) list"
  lr_logs_dir :: string
  lr_max_request_bytes :: int
  lr_max_tenant_bytes :: int
  lr_requests_per_minute :: int
  lr_retention :: duration
  lr_tenants :: "(string \<times> tenant_receiver_state) list"
  lr_auth_failures :: "(string \<times> auth_failures) list"
  lr_ready_checked :: time
  lr_ready_err :: "go_error option"

(* src: services/ai-logs-receiver/main.go:195-206 newLogReceiver *)
definition new_log_receiver :: "(string \<times> string) list \<Rightarrow> string \<Rightarrow> int \<Rightarrow> int \<Rightarrow> int \<Rightarrow> duration \<Rightarrow> log_receiver" where
  "new_log_receiver tokens logs_dir max_request max_tenant requests retention =
     \<lparr>lr_tokens = tokens, lr_logs_dir = logs_dir, lr_max_request_bytes = max_request, lr_max_tenant_bytes = max_tenant,
      lr_requests_per_minute = requests, lr_retention = retention, lr_tenants = [], lr_auth_failures = [], lr_ready_checked = 0,
      lr_ready_err = None\<rparr>"

(* src: services/ai-logs-receiver/main.go:70-76 getLogsDir *)
definition get_logs_dir :: "receiver_os \<Rightarrow> string" where
  "get_logs_dir os = (if blank (ro_logs_dir os) then ''./logs'' else trim_space (ro_logs_dir os))"

(* src: services/ai-logs-receiver/main.go:223-226 limits (logsDir) *)
definition logs_dir_of :: "receiver_os \<Rightarrow> log_receiver \<Rightarrow> string" where
  "logs_dir_of os lr = (if lr_logs_dir lr = [] then get_logs_dir os else lr_logs_dir lr)"

(* src: services/ai-logs-receiver/main.go:227-230 limits (maxRequestBytes) *)
definition max_request_bytes_of :: "log_receiver \<Rightarrow> int" where
  "max_request_bytes_of lr = (if lr_max_request_bytes lr \<le> 0 then 10485760 else lr_max_request_bytes lr)"

(* src: services/ai-logs-receiver/main.go:231-234 limits (maxTenantBytes) *)
definition max_tenant_bytes_of :: "log_receiver \<Rightarrow> int" where
  "max_tenant_bytes_of lr = (if lr_max_tenant_bytes lr \<le> 0 then 1073741824 else lr_max_tenant_bytes lr)"

(* src: services/ai-logs-receiver/main.go:235-238 limits (requestsPerMinute) *)
definition requests_per_minute_of :: "log_receiver \<Rightarrow> int" where
  "requests_per_minute_of lr = (if lr_requests_per_minute lr \<le> 0 then 600 else lr_requests_per_minute lr)"

(* src: services/ai-logs-receiver/main.go:239-242 limits (retention) *)
definition retention_of :: "log_receiver \<Rightarrow> duration" where
  "retention_of lr = (if lr_retention lr \<le> 0 then 30 * 24 * 60 * minute else lr_retention lr)"

(* src: services/ai-logs-receiver/main.go:208-220 LogReceiver.tenantState *)
definition tenant_entry :: "string \<Rightarrow> log_receiver \<Rightarrow> tenant_receiver_state" where
  "tenant_entry tenant lr = (case map_of (lr_tenants lr) tenant of None \<Rightarrow> fresh_tenant_state | Some s \<Rightarrow> s)"

definition put_tenant_state :: "string \<Rightarrow> tenant_receiver_state \<Rightarrow> log_receiver \<Rightarrow> log_receiver" where
  "put_tenant_state tenant s lr = lr\<lparr>lr_tenants := assoc_put tenant s (lr_tenants lr)\<rparr>"

(* src: services/ai-logs-receiver/main.go:112-124 tenantReceiverState.allowRequest *)
definition allow_request :: "time \<Rightarrow> int \<Rightarrow> tenant_receiver_state \<Rightarrow> bool \<times> tenant_receiver_state" where
  "allow_request now requests_per_minute s =
     (let s = (if ts_window_start s = 0 \<or> time_sub now (ts_window_start s) \<ge> minute
               then s\<lparr>ts_window_start := now, ts_requests := 0\<rparr> else s)
      in if ts_requests s \<ge> requests_per_minute then (False, s) else (True, s\<lparr>ts_requests := ts_requests s + 1\<rparr>))"

subsection \<open>Failed authentication\<close>

type_synonym failure_table = "(string \<times> auth_failures) list"

(* src: services/ai-logs-receiver/main.go:35 maxAuthFailures *)
definition max_auth_failures :: int where
  "max_auth_failures = 10"

(* src: services/ai-logs-receiver/main.go:36 maxAuthFailureClients *)
definition max_auth_failure_clients :: nat where
  "max_auth_failure_clients = 4096"

(* src: services/ai-logs-receiver/main.go:138-150 authFailureLimiter.blocked *)
definition blocked :: "string \<Rightarrow> time \<Rightarrow> failure_table \<Rightarrow> bool \<times> failure_table" where
  "blocked ip now clients =
     (case map_of clients ip of
        None \<Rightarrow> (False, clients)
      | Some entry \<Rightarrow>
          if time_sub now (af_window_start entry) \<ge> minute then (False, assoc_del ip clients)
          else (af_count entry \<ge> max_auth_failures, clients))"

(* src: services/ai-logs-receiver/main.go:172-185 authFailureLimiter.evict *)
definition evict :: "time \<Rightarrow> failure_table \<Rightarrow> failure_table" where
  "evict now clients =
     (let live = filter (\<lambda>(ip, entry). \<not> time_sub now (af_window_start entry) \<ge> minute) clients
      in if length live < max_auth_failure_clients then live else tl live)"

(* src: services/ai-logs-receiver/main.go:152-168 authFailureLimiter.recordFailure *)
definition record_failure :: "string \<Rightarrow> time \<Rightarrow> failure_table \<Rightarrow> failure_table" where
  "record_failure ip now clients =
     (case map_of clients ip of
        Some entry \<Rightarrow>
          if time_sub now (af_window_start entry) < minute
          then assoc_put ip (entry\<lparr>af_count := af_count entry + 1\<rparr>) clients
          else assoc_put ip \<lparr>af_window_start = now, af_count = 1\<rparr> clients
      | None \<Rightarrow>
          assoc_put ip \<lparr>af_window_start = now, af_count = 1\<rparr>
            (if length clients \<ge> max_auth_failure_clients then evict now clients else clients))"

(* src: services/ai-logs-receiver/main.go:187-193 remoteIP *)
definition remote_ip :: "request \<Rightarrow> string" where
  "remote_ip r = (case split_host_port (rq_remote_addr r) of None \<Rightarrow> rq_remote_addr r | Some (host, port) \<Rightarrow> host)"

subsection \<open>Lines\<close>

(* src: services/ai-logs-receiver/main.go:381-394 logLines (loop) *)
fun collect_lines :: "string list \<Rightarrow> int \<Rightarrow> string \<Rightarrow> go_error + int \<times> string" where
  "collect_lines [] lines payload = Inr (lines, payload)"
| "collect_lines (line # rest) lines payload =
     (if line = [] then collect_lines rest lines payload
      else if list_ex (\<lambda>r. r < 32) (runes line) then Inl (Errorf ''line %d contains a raw control character'' [itoa (lines + 1)] None)
      else if \<not> json_valid line then Inl (Errorf ''line %d is not valid JSON'' [itoa (lines + 1)] None)
      else collect_lines rest (lines + 1) (payload @ line @ nl))"

(* src: services/ai-logs-receiver/main.go:378-402 logLines *)
definition log_lines :: "string \<Rightarrow> bool \<Rightarrow> go_error + string" where
  "log_lines body single =
     (case collect_lines (str_split (CHR 0x0A) body) 0 [] of
        Inl e \<Rightarrow> Inl e
      | Inr (lines, payload) \<Rightarrow>
          if lines = 0 then Inl (Errorf ''body contains no JSON'' [] None)
          else if single \<and> lines \<noteq> 1
          then Inl (Errorf ''application/json body must be a single line; use application/x-ndjson for batches'' [] None)
          else Inr payload)"

subsection \<open>Handlers\<close>

(* src: services/ai-logs-receiver/main.go:250-259 requireMethod *)
definition require_method :: "string list \<Rightarrow> request \<Rightarrow> log_writer \<Rightarrow> log_writer option" where
  "require_method allowed r w =
     (if rq_method r \<in> set allowed then None
      else Some (http_error ''Method not allowed'' 405 (lw_set_header ''Allow'' (str_join allowed '', '') w)))"

datatype body_read = BodyRead string | BodyTooLarge | BodyFailed

text \<open>\<open>io.ReadAll\<close> of a \<open>http.MaxBytesReader\<close>.\<close>

fun read_max_bytes :: "body \<Rightarrow> int \<Rightarrow> body_read" where
  "read_max_bytes (Stream sent fails) n =
     (if int (length sent) > n then BodyTooLarge else if fails then BodyFailed else BodyRead sent)"
| "read_max_bytes _ n = BodyRead []"

text \<open>The part of \<open>handleLogs\<close> under the lock of the tenant.\<close>

(* src: services/ai-logs-receiver/main.go:347-372 LogReceiver.handleLogs (write) *)
definition write_logs ::
  "receiver_os \<Rightarrow> time \<Rightarrow> string \<Rightarrow> string \<Rightarrow> tenant_receiver_state \<Rightarrow> logs_fs \<Rightarrow> log_writer \<Rightarrow>
   log_writer \<times> tenant_receiver_state \<times> logs_fs" where
  "write_logs os now dir payload state fs w =
     (let name = ro_date os now @ ''.log''; entries = the (map_of fs dir) in
      if \<not> ro_open_ok os dir name \<or> (case map_of entries name of None \<Rightarrow> False | Some e \<Rightarrow> de_is_dir e)
      then (http_error ''Internal Server Error'' 500 w, state, fs)
      else
        let written = (case ro_write os payload of None \<Rightarrow> length payload | Some n \<Rightarrow> min n (length payload));
            fs = assoc_put dir (append_file now name (take written payload) entries) fs;
            state = state\<lparr>ts_used_bytes := wrap64 (ts_used_bytes state + int written)\<rparr>
        in if ro_write os payload \<noteq> None then (http_error ''Internal Server Error'' 500 w, state, fs)
           else if \<not> ro_sync_ok os then (http_error ''Internal Server Error'' 500 w, state, fs)
           else (lw_write ''OK'' (lw_write_header 200 w), state, fs))"

(* src: services/ai-logs-receiver/main.go:327-372 LogReceiver.handleLogs (store) *)
definition store_logs ::
  "receiver_os \<Rightarrow> time \<Rightarrow> string \<Rightarrow> string \<Rightarrow> int \<Rightarrow> string \<Rightarrow> tenant_receiver_state \<Rightarrow> logs_fs \<Rightarrow> log_writer \<Rightarrow>
   log_writer \<times> tenant_receiver_state \<times> logs_fs" where
  "store_logs os now logs_dir tenant max_tenant_bytes payload state fs w =
     (let dir = filepath_join logs_dir tenant in
      case make_dir os now (filepath_clean logs_dir) tenant dir fs of
        None \<Rightarrow> (http_error ''Internal Server Error'' 500 w, state, fs)
      | Some fs \<Rightarrow>
          (case (if ts_used_known state then Inr state
                 else case directory_bytes os dir fs of
                        Inl e \<Rightarrow> Inl e
                      | Inr used \<Rightarrow> Inr (state\<lparr>ts_used_bytes := used, ts_used_known := True\<rparr>)) of
             Inl e \<Rightarrow> (http_error ''Internal Server Error'' 500 w, state, fs)
           | Inr state \<Rightarrow>
               if wrap64 (ts_used_bytes state + int (length payload)) > max_tenant_bytes
               then (http_error ''Tenant log storage quota exceeded'' 507 w, state, fs)
               else write_logs os now dir payload state fs w))"

(* src: services/ai-logs-receiver/main.go:299-373 LogReceiver.handleLogs (tenant) *)
definition receive_logs ::
  "receiver_os \<Rightarrow> time \<Rightarrow> string \<Rightarrow> string \<Rightarrow> request \<Rightarrow> log_receiver \<Rightarrow> logs_fs \<Rightarrow> log_writer \<Rightarrow>
   log_writer \<times> log_receiver \<times> logs_fs" where
  "receive_logs os now tenant media_type r lr fs w =
     (let (allowed, state) = allow_request now (requests_per_minute_of lr) (tenant_entry tenant lr);
          lr = put_tenant_state tenant state lr
      in if \<not> allowed then (http_error ''Too Many Requests'' 429 w, lr, fs)
         else case read_max_bytes (rq_body r) (max_request_bytes_of lr) of
                BodyTooLarge \<Rightarrow> (http_error ''Request body too large'' 413 (lw_set_header ''Connection'' ''close'' w), lr, fs)
              | BodyFailed \<Rightarrow> (http_error ''Bad Request'' 400 w, lr, fs)
              | BodyRead sent \<Rightarrow>
                  (case log_lines sent (media_type = ''application/json'') of
                     Inl e \<Rightarrow> (http_error (''Bad Request: '' @ ro_error_text os e) 400 w, lr, fs)
                   | Inr payload \<Rightarrow>
                       (case store_logs os now (logs_dir_of os lr) tenant (max_tenant_bytes_of lr) payload state fs w of
                          (w, state, fs) \<Rightarrow> (w, put_tenant_state tenant state lr, fs))))"

(* src: services/ai-logs-receiver/main.go:261-373 LogReceiver.handleLogs *)
definition handle_logs ::
  "receiver_os \<Rightarrow> time \<Rightarrow> request \<Rightarrow> log_receiver \<Rightarrow> logs_fs \<Rightarrow> log_writer \<Rightarrow> log_writer \<times> log_receiver \<times> logs_fs" where
  "handle_logs os now r lr fs w =
     (case require_method [''POST''] r w of
        Some w \<Rightarrow> (w, lr, fs)
      | None \<Rightarrow>
          let (is_blocked, clients) = blocked (remote_ip r) now (lr_auth_failures lr);
              lr = lr\<lparr>lr_auth_failures := clients\<rparr>;
              failed = lr\<lparr>lr_auth_failures := record_failure (remote_ip r) now clients\<rparr>
          in if is_blocked then (http_error ''Too Many Requests'' 429 w, lr, fs)
             else case cut_prefix (header_get (rq_header r) ''Authorization'') ''Bearer '' of
                    None \<Rightarrow> (http_error ''Unauthorized'' 401 w, failed, fs)
                  | Some token \<Rightarrow>
                      let tenant = tenant_id_for_token (lr_tokens lr) token in
                      if tenant = [] then (http_error ''Forbidden'' 403 w, failed, fs)
                      else case parse_media_type (header_get (rq_header r) ''Content-Type'') of
                             None \<Rightarrow> (http_error ''Unsupported Media Type'' 415 w, lr, fs)
                           | Some media_type \<Rightarrow>
                               if media_type \<noteq> ''application/json'' \<and> media_type \<noteq> ''application/x-ndjson''
                               then (http_error ''Unsupported Media Type'' 415 w, lr, fs)
                               else if rq_content_length r > max_request_bytes_of lr
                               then (http_error ''Request body too large'' 413 w, lr, fs)
                               else receive_logs os now tenant media_type r lr fs w)"

(* src: services/ai-logs-receiver/main.go:495-501 LogReceiver.handleHealthz *)
definition receiver_healthz :: "request \<Rightarrow> log_writer \<Rightarrow> log_writer" where
  "receiver_healthz r w =
     (case require_method [''GET'', ''HEAD''] r w of Some w \<Rightarrow> w | None \<Rightarrow> lw_write ''ok'' (lw_write_header 200 w))"

(* src: services/ai-logs-receiver/main.go:531-540 checkDirWritable *)
definition check_dir_writable :: "receiver_os \<Rightarrow> time \<Rightarrow> string \<Rightarrow> logs_fs \<Rightarrow> go_error option \<times> logs_fs" where
  "check_dir_writable os now dir fs =
     (if \<not> ro_mkdir_ok os dir then (Some (os_error ''mkdir'' dir), fs)
      else
        let base = filepath_clean dir; fs = make_base base fs in
        case ro_temp os of
          None \<Rightarrow> (Some (os_error ''open'' dir), fs)
        | Some name \<Rightarrow>
            if ro_remove_ok os base name then (if ro_close_ok os then None else Some (os_error ''close'' name), fs)
            else (Some (os_error ''remove'' name),
                  assoc_put base (append_file now name [] (the (map_of fs base))) fs))"

(* src: services/ai-logs-receiver/main.go:518-529 LogReceiver.logsDirWritable *)
definition logs_dir_writable :: "receiver_os \<Rightarrow> time \<Rightarrow> log_receiver \<Rightarrow> logs_fs \<Rightarrow> go_error option \<times> log_receiver \<times> logs_fs" where
  "logs_dir_writable os now lr fs =
     (if lr_ready_checked lr \<noteq> 0 \<and> time_sub now (lr_ready_checked lr) < 5 * second then (lr_ready_err lr, lr, fs)
      else let (err, fs) = check_dir_writable os now (logs_dir_of os lr) fs
           in (err, lr\<lparr>lr_ready_checked := now, lr_ready_err := err\<rparr>, fs))"

(* src: services/ai-logs-receiver/main.go:503-514 LogReceiver.handleReadyz *)
definition receiver_readyz ::
  "receiver_os \<Rightarrow> time \<Rightarrow> request \<Rightarrow> log_receiver \<Rightarrow> logs_fs \<Rightarrow> log_writer \<Rightarrow> log_writer \<times> log_receiver \<times> logs_fs" where
  "receiver_readyz os now r lr fs w =
     (case require_method [''GET'', ''HEAD''] r w of
        Some w \<Rightarrow> (w, lr, fs)
      | None \<Rightarrow>
          (case logs_dir_writable os now lr fs of
             (Some e, lr, fs) \<Rightarrow> (http_error ''logs directory is not writable'' 503 w, lr, fs)
           | (None, lr, fs) \<Rightarrow> (lw_write ''ok'' (lw_write_header 200 w), lr, fs)))"

subsection \<open>Retention\<close>

text \<open>\<open>clock name\<close> is the time at which the sweep reaches a directory; a list of errors is their \<open>errors.Join\<close>.\<close>

(* src: services/ai-logs-receiver/main.go:440-448 LogReceiver.cleanupExpiredLogs (tenant) *)
definition cleanup_tenant ::
  "receiver_os \<Rightarrow> (string \<Rightarrow> time) \<Rightarrow> string \<Rightarrow> log_receiver \<Rightarrow> logs_fs \<Rightarrow> go_error list \<times> log_receiver \<times> logs_fs" where
  "cleanup_tenant os clock name lr fs =
     (let dir = filepath_join (logs_dir_of os lr) name;
          (err, fs) = remove_expired_logs os dir (clock name - retention_of lr) fs;
          used = directory_bytes os dir fs;
          state = (tenant_entry name lr)\<lparr>ts_used_bytes := (case used of Inl e \<Rightarrow> 0 | Inr n \<Rightarrow> n),
                                         ts_used_known := (case used of Inl e \<Rightarrow> False | Inr n \<Rightarrow> True)\<rparr>
      in ((case err of None \<Rightarrow> [] | Some e \<Rightarrow> [e]) @ (case used of Inl e \<Rightarrow> [e] | Inr n \<Rightarrow> []),
          put_tenant_state name state lr, fs))"

(* src: services/ai-logs-receiver/main.go:435-453 LogReceiver.cleanupExpiredLogs (entries) *)
fun cleanup_entries ::
  "receiver_os \<Rightarrow> (string \<Rightarrow> time) \<Rightarrow> listing \<Rightarrow> log_receiver \<Rightarrow> logs_fs \<Rightarrow> go_error list \<times> log_receiver \<times> logs_fs" where
  "cleanup_entries os clock [] lr fs = ([], lr, fs)"
| "cleanup_entries os clock ((name, e) # rest) lr fs =
     (if \<not> de_is_dir e then cleanup_entries os clock rest lr fs
      else let (errs, lr, fs) = cleanup_tenant os clock name lr fs;
               (more, lr, fs) = cleanup_entries os clock rest lr fs
           in (map (\<lambda>err. Errorf ''tenant %s: %w'' [name] (Some err)) errs @ more, lr, fs))"

(* src: services/ai-logs-receiver/main.go:426-454 LogReceiver.cleanupExpiredLogs *)
definition cleanup_expired_logs ::
  "receiver_os \<Rightarrow> (string \<Rightarrow> time) \<Rightarrow> log_receiver \<Rightarrow> logs_fs \<Rightarrow> go_error list \<times> log_receiver \<times> logs_fs" where
  "cleanup_expired_logs os clock lr fs =
     (let base = filepath_clean (logs_dir_of os lr) in
      case map_of fs base of
        None \<Rightarrow> ([], lr, fs)
      | Some entries \<Rightarrow>
          if \<not> ro_read_dir_ok os base then ([os_error ''open'' base], lr, fs)
          else cleanup_entries os clock entries lr fs)"

subsection \<open>Isolation of tenants\<close>

lemma tenant_id_plain: "tenant_id_ok t \<Longrightarrow> plain_name t"
proof -
  assume t: "tenant_id_ok t"
  have "c \<noteq> CHR ''/'' \<and> c \<noteq> CHR ''.''" if "c \<in> set t" for c
    using t that by (auto simp: tenant_id_ok_def list_all_iff is_upper_byte_def is_lower_byte_def is_digit_byte_def byte_val_def)
  then show ?thesis using t by (auto simp: plain_name_def tenant_id_ok_def)
qed

lemma check_tokens_sound:
  "\<lbrakk> check_tokens seen tokens = None; (t, token) \<in> set tokens \<rbrakk> \<Longrightarrow> tenant_id_ok t \<and> min_token_length \<le> length (trim_space token)"
  by (induction seen tokens rule: check_tokens.induct) (auto split: if_splits option.splits)

lemma check_tokens_fresh:
  "\<lbrakk> check_tokens seen tokens = None; (t, token) \<in> set tokens \<rbrakk> \<Longrightarrow> map_of seen token = None"
  by (induction seen tokens rule: check_tokens.induct) (auto split: if_splits option.splits)

lemma check_tokens_distinct: "check_tokens seen tokens = None \<Longrightarrow> distinct (map snd tokens)"
proof (induction seen tokens rule: check_tokens.induct)
  case (2 seen t token rest)
  then show ?case using check_tokens_fresh [of "assoc_put token t seen" rest] by (force split: if_splits option.splits)
qed simp

lemma load_tenant_tokens_checked:
  "load_tenant_tokens unmarshal raw = Inr tokens \<Longrightarrow> check_tokens [] tokens = None"
  by (auto simp: load_tenant_tokens_def split: if_splits option.splits)

lemma tenant_id_for_token_in: "tenant_id_for_token tokens c = t \<Longrightarrow> t \<noteq> [] \<Longrightarrow> (t, c) \<in> set tokens"
  by (induction tokens c rule: tenant_id_for_token.induct) (auto split: if_splits)

lemma tenant_id_for_token_of:
  "\<lbrakk> distinct (map snd tokens); (t, c) \<in> set tokens \<rbrakk> \<Longrightarrow> tenant_id_for_token tokens c = t"
  by (induction tokens c rule: tenant_id_for_token.induct) (force split: if_splits)+

lemma logs_dir_nonempty [simp]: "logs_dir_of os lr \<noteq> []"
  by (simp add: logs_dir_of_def get_logs_dir_def)

lemma make_base_frame: "d \<noteq> base \<Longrightarrow> map_of (make_base base fs) d = map_of fs d"
  by (simp add: make_base_def)

lemma make_dir_frame:
  "\<lbrakk> make_dir os now base name dir fs = Some fs'; d \<noteq> base; d \<noteq> dir \<rbrakk> \<Longrightarrow> map_of fs' d = map_of fs d"
  by (auto simp: make_dir_def make_base_frame Let_def split: if_splits option.splits)

lemma write_logs_frame:
  "\<lbrakk> write_logs os now dir payload state fs w = (w', state', fs'); d \<noteq> dir \<rbrakk> \<Longrightarrow> map_of fs' d = map_of fs d"
  by (auto simp: write_logs_def Let_def split: if_splits)

lemma store_logs_frame:
  assumes "store_logs os now logs_dir tenant limit payload state fs w = (w', state', fs')"
    and "d \<noteq> filepath_clean logs_dir" "d \<noteq> filepath_join logs_dir tenant"
  shows "map_of fs' d = map_of fs d"
  using assms(1) make_dir_frame [OF _ assms(2,3), of os now tenant fs] write_logs_frame [OF _ assms(3), of os now payload _ _ w w' state' fs']
  by (auto simp: store_logs_def Let_def split: if_splits option.splits sum.splits)

text \<open>What a request does: nothing for the tenants, or one call of \<open>receive_logs\<close> for the tenant of its token.\<close>

lemma handle_logs_cases:
  assumes "handle_logs os now r lr fs w = (w', lr', fs')"
  shows "(\<exists>clients. lr' = lr\<lparr>lr_auth_failures := clients\<rparr> \<and> fs' = fs) \<or>
    (\<exists>clients token tenant media_type. header_get (rq_header r) ''Authorization'' = ''Bearer '' @ token \<and> (tenant, token) \<in> set (lr_tokens lr) \<and>
       receive_logs os now tenant media_type r (lr\<lparr>lr_auth_failures := clients\<rparr>) fs w = (w', lr', fs'))"
proof (cases "require_method [''POST''] r w")
  case (Some w1)
  then have "lr' = lr\<lparr>lr_auth_failures := lr_auth_failures lr\<rparr> \<and> fs' = fs" using assms by (simp add: handle_logs_def)
  then show ?thesis by blast
next
  case None
  then show ?thesis using assms
    by (auto simp: handle_logs_def Let_def cut_prefix_Some tenant_id_for_token_in split: if_splits option.splits prod.splits)
qed

lemma limits_auth_failures [simp]:
  "logs_dir_of os (lr\<lparr>lr_auth_failures := c\<rparr>) = logs_dir_of os lr" "max_request_bytes_of (lr\<lparr>lr_auth_failures := c\<rparr>) = max_request_bytes_of lr"
  "max_tenant_bytes_of (lr\<lparr>lr_auth_failures := c\<rparr>) = max_tenant_bytes_of lr"
  "requests_per_minute_of (lr\<lparr>lr_auth_failures := c\<rparr>) = requests_per_minute_of lr"
  "tenant_entry t (lr\<lparr>lr_auth_failures := c\<rparr>) = tenant_entry t lr"
  by (simp_all add: logs_dir_of_def max_request_bytes_of_def max_tenant_bytes_of_def requests_per_minute_of_def tenant_entry_def)

lemma assoc_put_twice [simp]: "assoc_put k v (assoc_put k v' m) = assoc_put k v m"
  by (induction k v' m rule: assoc_put.induct) auto

lemma limits_put_tenant_state [simp]:
  "logs_dir_of os (put_tenant_state t s lr) = logs_dir_of os lr" "max_request_bytes_of (put_tenant_state t s lr) = max_request_bytes_of lr"
  "max_tenant_bytes_of (put_tenant_state t s lr) = max_tenant_bytes_of lr" "retention_of (put_tenant_state t s lr) = retention_of lr"
  "lr_tokens (put_tenant_state t s lr) = lr_tokens lr" "lr_logs_dir (put_tenant_state t s lr) = lr_logs_dir lr"
  "lr_auth_failures (put_tenant_state t s lr) = lr_auth_failures lr"
  "put_tenant_state t s (put_tenant_state t s' lr) = put_tenant_state t s lr"
  by (simp_all add: put_tenant_state_def logs_dir_of_def max_request_bytes_of_def max_tenant_bytes_of_def retention_of_def)

lemma receive_logs_cases:
  assumes "receive_logs os now tenant media_type r lr fs w = (w', lr', fs')"
  defines "state \<equiv> snd (allow_request now (requests_per_minute_of lr) (tenant_entry tenant lr))"
  shows "lr' = put_tenant_state tenant state lr \<and> fs' = fs \<or>
    (\<exists>sent payload state'. read_max_bytes (rq_body r) (max_request_bytes_of lr) = BodyRead sent \<and>
       log_lines sent (media_type = ''application/json'') = Inr payload \<and>
       store_logs os now (logs_dir_of os lr) tenant (max_tenant_bytes_of lr) payload state fs w = (w', state', fs') \<and>
       lr' = put_tenant_state tenant state' lr)"
  using assms(1) unfolding receive_logs_def state_def Let_def
  by (auto split: prod.splits if_splits body_read.splits sum.splits)

lemma put_tenant_state_other: "t \<noteq> tenant \<Longrightarrow> map_of (lr_tenants (put_tenant_state tenant s lr)) t = map_of (lr_tenants lr) t"
  by (simp add: put_tenant_state_def)

lemma receive_logs_frame:
  assumes "receive_logs os now tenant media_type r lr fs w = (w', lr', fs')" "tenant_id_ok tenant" "plain_name t" "t \<noteq> tenant"
  shows "map_of fs' (filepath_join (logs_dir_of os lr) t) = map_of fs (filepath_join (logs_dir_of os lr) t)"
    "map_of (lr_tenants lr') t = map_of (lr_tenants lr) t"
proof -
  have d: "filepath_join (logs_dir_of os lr) t \<noteq> filepath_clean (logs_dir_of os lr)"
    "filepath_join (logs_dir_of os lr) t \<noteq> filepath_join (logs_dir_of os lr) tenant"
    using filepath_join_inside [OF logs_dir_nonempty assms(3)] assms(3,4) tenant_id_plain [OF assms(2)]
    by (simp_all add: filepath_join_name)
  show "map_of fs' (filepath_join (logs_dir_of os lr) t) = map_of fs (filepath_join (logs_dir_of os lr) t)"
    using receive_logs_cases [OF assms(1)] store_logs_frame [OF _ d] by blast
  show "map_of (lr_tenants lr') t = map_of (lr_tenants lr) t"
    using receive_logs_cases [OF assms(1)] put_tenant_state_other [OF assms(4)] by metis
qed

text \<open>C37: with the tokens that \<open>loadTenantTokens\<close> accepts, a request changes the log directory, the quota and the rate limit of a tenant
  only when it carries that tenant's token; the directory of another tenant is not reached, whatever the identifiers are.\<close>

theorem receiver_tenant_isolation:
  assumes "load_tenant_tokens unmarshal raw = Inr (lr_tokens lr)"
    and "handle_logs os now r lr fs w = (w', lr', fs')" "plain_name t"
    and "\<forall>token. (t, token) \<in> set (lr_tokens lr) \<longrightarrow> header_get (rq_header r) ''Authorization'' \<noteq> ''Bearer '' @ token"
  shows "map_of fs' (filepath_join (logs_dir_of os lr) t) = map_of fs (filepath_join (logs_dir_of os lr) t) \<and>
    map_of (lr_tenants lr') t = map_of (lr_tenants lr) t"
proof -
  have "check_tokens [] (lr_tokens lr) = None" using load_tenant_tokens_checked [OF assms(1)] .
  note ok = conjunct1 [OF check_tokens_sound [OF this]]
  from handle_logs_cases [OF assms(2)] show ?thesis
  proof (elim disjE exE conjE)
    fix clients
    assume "lr' = lr\<lparr>lr_auth_failures := clients\<rparr>" "fs' = fs"
    then show ?thesis by simp
  next
    fix clients token tenant media_type
    assume a: "header_get (rq_header r) ''Authorization'' = ''Bearer '' @ token" "(tenant, token) \<in> set (lr_tokens lr)"
      "receive_logs os now tenant media_type r (lr\<lparr>lr_auth_failures := clients\<rparr>) fs w = (w', lr', fs')"
    then have "t \<noteq> tenant" using assms(4) by blast
    from receive_logs_frame [OF a(3) ok [OF a(2)] assms(3) this] show ?thesis by simp
  qed
qed

definition sample_token :: string where
  "sample_token = replicate 32 CHR ''a''"

definition sample_receiver_os :: receiver_os where
  "sample_receiver_os = \<lparr>ro_logs_dir = ''/logs'', ro_date = (\<lambda>t. ''2026-01-02''), ro_mkdir_ok = (\<lambda>d. True), ro_read_dir_ok = (\<lambda>d. True),
     ro_info_ok = (\<lambda>d n. True), ro_open_ok = (\<lambda>d n. True), ro_write = (\<lambda>p. None), ro_sync_ok = True, ro_remove_ok = (\<lambda>d n. True),
     ro_temp = Some ''.readyz-1'', ro_close_ok = True, ro_error_text = (\<lambda>e. [])\<rparr>"

definition sample_receiver :: log_receiver where
  "sample_receiver = new_log_receiver [(''shop'', sample_token), (''blog'', replicate 32 CHR ''b'')] ''/logs'' 1000 1000 10 minute"

definition sample_logs_request :: "string \<Rightarrow> request" where
  "sample_logs_request b = \<lparr>rq_method = ''POST'', rq_host = ''receiver'', rq_path = ''/logs'', rq_url = ''/logs'', rq_query = [], rq_proto = ''HTTP/1.1'',
     rq_remote_addr = ''10.0.0.7:4000'', rq_tls = False,
     rq_header = [(''Authorization'', [''Bearer '' @ sample_token]), (''Content-Type'', [''application/x-ndjson''])],
     rq_content_length = int (length b), rq_body = Stream b False, rq_info = None\<rparr>"

lemma sample_handle_logs:
  "case handle_logs sample_receiver_os minute (sample_logs_request ''1'') sample_receiver [] (new_log_writer fresh_writer) of
     (w, lr, fs) \<Rightarrow> lw_status w = 200 \<and> map_of fs ''/logs/shop'' = Some [(''2026-01-02.log'',
        \<lparr>de_is_dir = False, de_regular = True, de_mod_time = minute, de_data = ''1'' @ nl\<rparr>)] \<and> map_of fs ''/logs/blog'' = None"
  by code_simp

theorem receiver_tenant_isolation_witness:
  "case handle_logs sample_receiver_os minute (sample_logs_request ''1'') sample_receiver [] (new_log_writer fresh_writer) of
     (w', lr', fs') \<Rightarrow> map_of fs' (filepath_join ''/logs'' ''blog'') = None \<and> map_of (lr_tenants lr') ''blog'' = None"
proof -
  obtain w' lr' fs' where h:
    "handle_logs sample_receiver_os minute (sample_logs_request ''1'') sample_receiver [] (new_log_writer fresh_writer) = (w', lr', fs')"
    by (rule prod_cases3)
  have t: "lr_tokens sample_receiver = [(''shop'', sample_token), (''blog'', replicate 32 CHR ''b'')]"
    "lr_tenants sample_receiver = []" "logs_dir_of sample_receiver_os sample_receiver = ''/logs''"
    by (simp_all add: sample_receiver_def new_log_receiver_def logs_dir_of_def)
  have l: "load_tenant_tokens (\<lambda>_. Some (lr_tokens sample_receiver)) ''{}'' = Inr (lr_tokens sample_receiver)" by code_simp
  have p: "plain_name ''blog''" by code_simp
  have a: "header_get (rq_header (sample_logs_request ''1'')) ''Authorization'' = ''Bearer '' @ sample_token" by code_simp
  have s: "sample_token \<noteq> replicate 32 CHR ''b''" by (simp add: sample_token_def)
  show ?thesis unfolding h prod.case
    using receiver_tenant_isolation [OF l h p] a s t by simp
qed

subsection \<open>Quota\<close>

definition entry_bytes :: "dir_entry \<Rightarrow> int" where
  "entry_bytes e = (if \<not> de_is_dir e \<and> de_regular e then int (length (de_data e)) else 0)"

definition listing_bytes :: "listing \<Rightarrow> int" where
  "listing_bytes l = sum_list (map (entry_bytes \<circ> snd) l)"

definition stored_bytes :: "logs_fs \<Rightarrow> string \<Rightarrow> int" where
  "stored_bytes fs dir = (case map_of fs dir of None \<Rightarrow> 0 | Some l \<Rightarrow> listing_bytes l)"

lemma listing_bytes_simps [simp]: "listing_bytes [] = 0" "listing_bytes ((n, e) # l) = entry_bytes e + listing_bytes l"
  by (simp_all add: listing_bytes_def)

lemma entry_bytes_nonneg: "0 \<le> entry_bytes e"
  by (simp add: entry_bytes_def)

lemma listing_bytes_nonneg: "0 \<le> listing_bytes l"
  by (induction l) (auto simp: entry_bytes_nonneg)

lemma listing_bytes_put:
  "listing_bytes (assoc_put n e l) = listing_bytes l + entry_bytes e - (case map_of l n of None \<Rightarrow> 0 | Some e \<Rightarrow> entry_bytes e)"
  by (induction n e l rule: assoc_put.induct) auto

lemma listing_bytes_append_file: "listing_bytes (append_file now n data l) \<le> listing_bytes l + int (length data)"
  by (auto simp: append_file_def listing_bytes_put entry_bytes_def split: option.splits)

lemma sum_sizes_exact:
  "\<lbrakk> sum_sizes os dir used l = Inr n; 0 \<le> used; used + listing_bytes l < 2 ^ 63 \<rbrakk> \<Longrightarrow> n = used + listing_bytes l"
proof (induction os dir used l rule: sum_sizes.induct)
  case (2 os dir used name e rest)
  have "wrap64 (used + int (length (de_data e))) = used + int (length (de_data e))" if "\<not> de_is_dir e" "de_regular e"
    using 2(4,5) that listing_bytes_nonneg [of rest] by (intro wrap64_id) (auto simp: entry_bytes_def)
  then show ?case using 2 by (auto simp: entry_bytes_def split: if_splits)
qed simp

lemma directory_bytes_exact:
  assumes "directory_bytes os dir fs = Inr n" "stored_bytes fs dir < 2 ^ 63"
  shows "n = stored_bytes fs dir"
  using assms sum_sizes_exact [of os dir 0 _ n] by (auto simp: directory_bytes_def stored_bytes_def split: option.splits if_splits)

lemma remove_expired_entries_bytes: "listing_bytes (snd (remove_expired_entries os dir cutoff l)) \<le> listing_bytes l"
  by (induction os dir cutoff l rule: remove_expired_entries.induct) (auto split: prod.splits intro: add_increasing entry_bytes_nonneg)

lemma remove_expired_logs_bytes:
  assumes "remove_expired_logs os dir cutoff fs = (err, fs')"
  shows "stored_bytes fs' d \<le> stored_bytes fs d"
  using assms remove_expired_entries_bytes [of os dir cutoff "the (map_of fs dir)"]
  by (auto simp: remove_expired_logs_def stored_bytes_def split: option.splits if_splits prod.splits)

lemma make_base_bytes [simp]: "stored_bytes (make_base base fs) d = stored_bytes fs d"
  by (auto simp: make_base_def stored_bytes_def)

lemma make_dir_bytes:
  assumes "make_dir os now base name dir fs = Some fs'"
  shows "stored_bytes fs' d = stored_bytes fs d"
proof -
  have put: "stored_bytes (assoc_put base (assoc_put name e l) fs1) d = stored_bytes fs1 d"
    if "map_of fs1 base = Some l" "map_of l name = None" "entry_bytes e = 0" for e l fs1
    using that by (auto simp: stored_bytes_def listing_bytes_put)
  obtain l where l: "map_of (make_base base fs) base = Some l" by (cases "map_of fs base") (auto simp: make_base_def)
  then show ?thesis using assms
    by (auto simp: make_dir_def Let_def put [OF l] entry_bytes_def split: if_splits option.splits)
qed

text \<open>The lines that are stored are at most one byte longer than the body they come from.\<close>

lemma collect_lines_length:
  "collect_lines ls n payload = Inr (lines, payload') \<Longrightarrow> length payload' \<le> length payload + sum_list (map (Suc \<circ> length) ls)"
  by (induction ls n payload rule: collect_lines.induct) (auto split: if_splits)

lemma str_split_length: "sum_list (map (Suc \<circ> length) (str_split c s)) = Suc (length s)"
  by (induction c s rule: str_split.induct) (auto split: list.splits)

lemma log_lines_length: "log_lines sent single = Inr payload \<Longrightarrow> length payload \<le> Suc (length sent)"
  using collect_lines_length [of "str_split (CHR 0x0A) sent" 0 "[]"] str_split_length [of "CHR 0x0A" sent]
  by (auto simp: log_lines_def split: sum.splits if_splits)

lemma read_max_bytes_length: "read_max_bytes b n = BodyRead sent \<Longrightarrow> 0 \<le> n \<Longrightarrow> int (length sent) \<le> n"
  by (cases "(b, n)" rule: read_max_bytes.cases) (auto split: if_splits)

text \<open>What is known about the usage of a tenant: never less than what is stored.\<close>

definition usage_ok :: "int \<Rightarrow> int \<Rightarrow> tenant_receiver_state \<Rightarrow> bool" where
  "usage_ok limit stored s \<longleftrightarrow> (ts_used_known s \<longrightarrow> stored \<le> ts_used_bytes s \<and> ts_used_bytes s \<le> limit)"

lemma write_logs_cases:
  assumes "write_logs os now dir payload state fs w = (w', state', fs')"
  shows "state' = state \<and> fs' = fs \<or>
    (\<exists>n \<le> length payload. state' = state\<lparr>ts_used_bytes := wrap64 (ts_used_bytes state + int n)\<rparr> \<and>
       fs' = assoc_put dir (append_file now (ro_date os now @ ''.log'') (take n payload) (the (map_of fs dir))) fs)"
proof -
  define n where "n = (case ro_write os payload of None \<Rightarrow> length payload | Some n \<Rightarrow> min n (length payload))"
  have "n \<le> length payload" by (simp add: n_def split: option.split)
  then show ?thesis using assms unfolding write_logs_def n_def [symmetric] by (auto simp: Let_def split: if_splits)
qed

lemma write_logs_quota:
  assumes "write_logs os now dir payload state fs w = (w', state', fs')"
    and "ts_used_known state" "usage_ok limit (stored_bytes fs dir) state" "map_of fs dir \<noteq> None"
    and "ts_used_bytes state + int (length payload) \<le> limit" "limit < 2 ^ 63"
  shows "usage_ok limit (stored_bytes fs' dir) state' \<and> stored_bytes fs' dir \<le> limit"
proof -
  obtain l where l: "map_of fs dir = Some l" using assms(4) by blast
  have s: "0 \<le> ts_used_bytes state" "listing_bytes l \<le> ts_used_bytes state"
    using assms(2,3) listing_bytes_nonneg [of l] by (auto simp: usage_ok_def stored_bytes_def l)
  have a: "listing_bytes (append_file now name (take n payload) l) \<le> ts_used_bytes state + int n"
    if "n \<le> length payload" for n name
    using listing_bytes_append_file [of now name "take n payload" l] s(2) that by (simp add: min.absorb2)
  have wrap: "wrap64 (ts_used_bytes state + int n) = ts_used_bytes state + int n" if "n \<le> length payload" for n
    using assms(5,6) s(1) that by (intro wrap64_id) auto
  from write_logs_cases [OF assms(1)] show ?thesis
  proof (elim disjE exE conjE)
    assume "state' = state" "fs' = fs"
    then show ?thesis using assms(2,3,5) s by (auto simp: usage_ok_def stored_bytes_def l)
  next
    fix n
    assume n: "n \<le> length payload" "state' = state\<lparr>ts_used_bytes := wrap64 (ts_used_bytes state + int n)\<rparr>"
      "fs' = assoc_put dir (append_file now (ro_date os now @ ''.log'') (take n payload) (the (map_of fs dir))) fs"
    have "stored_bytes fs' dir \<le> ts_used_bytes state + int n" using a [OF n(1)] by (simp add: n(3) l stored_bytes_def)
    then show ?thesis using n(1) assms(5) by (auto simp: n(2) wrap [OF n(1)] usage_ok_def)
  qed
qed

lemma make_dir_exists: "make_dir os now base name dir fs = Some fs' \<Longrightarrow> map_of fs' dir \<noteq> None"
  by (auto simp: make_dir_def make_base_def Let_def split: if_splits option.splits)

lemma store_logs_quota:
  assumes "store_logs os now d tenant limit payload state fs w = (w', state', fs')"
    and "usage_ok limit (stored_bytes fs (filepath_join d tenant)) state" "stored_bytes fs (filepath_join d tenant) \<le> limit"
    and "limit + int (length payload) < 2 ^ 63"
  shows "usage_ok limit (stored_bytes fs' (filepath_join d tenant)) state' \<and> stored_bytes fs' (filepath_join d tenant) \<le> limit"
proof (cases "make_dir os now (filepath_clean d) tenant (filepath_join d tenant) fs")
  case None
  then show ?thesis using assms(1-3) by (simp add: store_logs_def)
next
  case (Some fs1)
  let ?dir = "filepath_join d tenant"
  have s1: "stored_bytes fs1 ?dir = stored_bytes fs ?dir" using make_dir_bytes [OF Some] .
  define r where "r = (if ts_used_known state then Inr state
    else case directory_bytes os ?dir fs1 of Inl e \<Rightarrow> Inl e | Inr used \<Rightarrow> Inr (state\<lparr>ts_used_bytes := used, ts_used_known := True\<rparr>))"
  show ?thesis
  proof (cases r)
    case (Inl e)
    then show ?thesis using assms(1-3) Some s1 by (simp add: store_logs_def Let_def flip: r_def)
  next
    case (Inr state1)
    have "stored_bytes fs1 ?dir < 2 ^ 63" using assms(3,4) s1 by linarith
    then have u: "ts_used_known state1" "usage_ok limit (stored_bytes fs1 ?dir) state1"
      using Inr assms(2,3) s1 directory_bytes_exact [of os ?dir fs1]
      by (auto simp: r_def usage_ok_def split: if_splits sum.splits)
    have n: "0 \<le> stored_bytes fs1 ?dir" by (simp add: stored_bytes_def listing_bytes_nonneg split: option.split)
    have w: "wrap64 (ts_used_bytes state1 + int (length payload)) = ts_used_bytes state1 + int (length payload)"
      using u assms(4) n by (intro wrap64_id) (auto simp: usage_ok_def)
    show ?thesis
    proof (cases "ts_used_bytes state1 + int (length payload) > limit")
      case True
      then show ?thesis using assms(1,3) Some Inr s1 u(2) by (simp add: store_logs_def Let_def w flip: r_def)
    next
      case False
      then have "write_logs os now ?dir payload state1 fs1 w = (w', state', fs')"
        using assms(1) Some Inr by (simp add: store_logs_def Let_def w flip: r_def)
      from write_logs_quota [OF this u make_dir_exists [OF Some]] False assms(4) show ?thesis by simp
    qed
  qed
qed

subsection \<open>All steps of the receiver\<close>

inductive receiver_step :: "log_receiver \<times> logs_fs \<Rightarrow> log_receiver \<times> logs_fs \<Rightarrow> bool" where
  step_logs: "handle_logs os now r lr fs w = (w', lr', fs') \<Longrightarrow> receiver_step (lr, fs) (lr', fs')"
| step_readyz: "receiver_readyz os now r lr fs w = (w', lr', fs') \<Longrightarrow> receiver_step (lr, fs) (lr', fs')"
| step_sweep: "cleanup_expired_logs os clock lr fs = (errs, lr', fs') \<Longrightarrow> receiver_step (lr, fs) (lr', fs')"

text \<open>The entries of the logs directory that are directories have plain names, as every name in a directory has.\<close>

definition base_ok :: "string \<Rightarrow> logs_fs \<Rightarrow> bool" where
  "base_ok base fs \<longleftrightarrow> (\<forall>l n e. map_of fs base = Some l \<longrightarrow> (n, e) \<in> set l \<longrightarrow> de_is_dir e \<longrightarrow> plain_name n)"

definition quota_ok :: "string \<Rightarrow> log_receiver \<times> logs_fs \<Rightarrow> bool" where
  "quota_ok t = (\<lambda>(lr, fs). stored_bytes fs (filepath_join (lr_logs_dir lr) t) \<le> max_tenant_bytes_of lr \<and>
     (\<forall>s. map_of (lr_tenants lr) t = Some s \<longrightarrow>
       usage_ok (max_tenant_bytes_of lr) (stored_bytes fs (filepath_join (lr_logs_dir lr) t)) s))"

definition limits_ok :: "log_receiver \<Rightarrow> bool" where
  "limits_ok lr \<longleftrightarrow> lr_logs_dir lr \<noteq> [] \<and> (\<forall>(t, token) \<in> set (lr_tokens lr). tenant_id_ok t) \<and>
     max_tenant_bytes_of lr + max_request_bytes_of lr + 1 < 2 ^ 63"

definition receiver_ok :: "log_receiver \<times> logs_fs \<Rightarrow> bool" where
  "receiver_ok = (\<lambda>(lr, fs). limits_ok lr \<and> base_ok (filepath_clean (lr_logs_dir lr)) fs \<and>
     length (lr_auth_failures lr) \<le> max_auth_failure_clients \<and> (\<forall>t. plain_name t \<longrightarrow> quota_ok t (lr, fs)))"

text \<open>A receiver as \<open>run\<close> builds it, over logs that are within the quota.\<close>

definition receiver_init :: "log_receiver \<times> logs_fs \<Rightarrow> bool" where
  "receiver_init = (\<lambda>(lr, fs). \<exists>tokens logs_dir max_request max_tenant requests retention.
     lr = new_log_receiver tokens logs_dir max_request max_tenant requests retention \<and> limits_ok lr \<and>
     base_ok (filepath_clean logs_dir) fs \<and>
     (\<forall>t. plain_name t \<longrightarrow> stored_bytes fs (filepath_join logs_dir t) \<le> max_tenant_bytes_of lr))"

lemma record_failure_bounded:
  "length clients \<le> max_auth_failure_clients \<Longrightarrow> length (record_failure ip now clients) \<le> max_auth_failure_clients"
proof -
  assume c: "length clients \<le> max_auth_failure_clients"
  define live where "live = filter (\<lambda>(ip, entry). \<not> time_sub now (af_window_start entry) \<ge> minute) clients"
  have "length live \<le> max_auth_failure_clients" using c length_filter_le le_trans unfolding live_def by blast
  then have "length (evict now clients) < max_auth_failure_clients"
    unfolding evict_def Let_def live_def [symmetric] by (simp add: max_auth_failure_clients_def)
  then have e: "length (assoc_put ip x (evict now clients)) \<le> max_auth_failure_clients" for x by (simp add: length_assoc_put)
  have m: "length (assoc_put ip x clients) \<le> max_auth_failure_clients" if "map_of clients ip = Some y" for x y
    using that c by (auto simp: length_assoc_put dest: map_of_SomeD)
  show ?thesis
    using c e m by (auto simp: record_failure_def length_assoc_put split: option.splits)
qed

lemma blocked_bounded: "length (snd (blocked ip now clients)) \<le> length clients"
  by (auto simp: blocked_def length_assoc_del_le split: option.split)

lemma handle_logs_failures:
  assumes "handle_logs os now r lr fs w = (w', lr', fs')" "length (lr_auth_failures lr) \<le> max_auth_failure_clients"
  shows "length (lr_auth_failures lr') \<le> max_auth_failure_clients"
proof -
  obtain b clients where b: "blocked (remote_ip r) now (lr_auth_failures lr) = (b, clients)" by fastforce
  then have "length clients \<le> max_auth_failure_clients"
    using blocked_bounded [of "remote_ip r" now "lr_auth_failures lr"] assms(2) by simp
  moreover have "lr_auth_failures lr2 = lr_auth_failures lr1" if "receive_logs os now t m r lr1 fs1 w1 = (w2, lr2, fs2)" for t m lr1 fs1 w1 w2 lr2 fs2
    using receive_logs_cases [OF that] by auto
  ultimately show ?thesis using assms record_failure_bounded [of clients]
    by (auto simp: handle_logs_def b Let_def split: option.splits if_splits)
qed

lemma limits_ok_cong:
  "\<lbrakk> lr_logs_dir lr' = lr_logs_dir lr; lr_tokens lr' = lr_tokens lr; max_tenant_bytes_of lr' = max_tenant_bytes_of lr;
     max_request_bytes_of lr' = max_request_bytes_of lr \<rbrakk> \<Longrightarrow> limits_ok lr' = limits_ok lr"
  by (simp add: limits_ok_def)

lemma logs_dir_of_ok: "limits_ok lr \<Longrightarrow> logs_dir_of os lr = lr_logs_dir lr"
  by (simp add: limits_ok_def logs_dir_of_def)

lemma join_neq:
  assumes "limits_ok lr" "plain_name t"
  shows "filepath_join (lr_logs_dir lr) t \<noteq> filepath_clean (lr_logs_dir lr)"
    "plain_name u \<Longrightarrow> filepath_join (lr_logs_dir lr) t = filepath_join (lr_logs_dir lr) u \<longleftrightarrow> t = u"
  using assms filepath_join_inside by (auto simp: limits_ok_def filepath_join_name)

text \<open>A step that changes at most the state and the directory of one tenant, and adds plain names to the logs directory.\<close>

lemma tenant_step_ok:
  assumes "receiver_ok (lr, fs)" "plain_name tenant" "lr' = put_tenant_state tenant state' (lr\<lparr>lr_auth_failures := clients\<rparr>)"
    and "length clients \<le> max_auth_failure_clients"
    and "\<And>d. d \<noteq> filepath_clean (lr_logs_dir lr) \<Longrightarrow> d \<noteq> filepath_join (lr_logs_dir lr) tenant \<Longrightarrow> map_of fs' d = map_of fs d"
    and "base_ok (filepath_clean (lr_logs_dir lr)) fs'"
    and "usage_ok (max_tenant_bytes_of lr) (stored_bytes fs' (filepath_join (lr_logs_dir lr) tenant)) state'"
    and "stored_bytes fs' (filepath_join (lr_logs_dir lr) tenant) \<le> max_tenant_bytes_of lr"
  shows "receiver_ok (lr', fs')"
proof -
  have l: "limits_ok lr" using assms(1) by (simp add: receiver_ok_def)
  have eq: "lr_logs_dir lr' = lr_logs_dir lr" "max_tenant_bytes_of lr' = max_tenant_bytes_of lr" "limits_ok lr'"
    "lr_auth_failures lr' = clients"
    "map_of (lr_tenants lr') = (map_of (lr_tenants lr))(tenant \<mapsto> state')"
    using l by (auto simp: assms(3) put_tenant_state_def limits_ok_def max_tenant_bytes_of_def max_request_bytes_of_def fun_eq_iff)
  have "quota_ok t (lr', fs')" if t: "plain_name t" for t
  proof (cases "t = tenant")
    case True
    then show ?thesis using assms(7,8) by (simp add: quota_ok_def eq)
  next
    case False
    have "map_of fs' (filepath_join (lr_logs_dir lr) t) = map_of fs (filepath_join (lr_logs_dir lr) t)"
      using join_neq [OF l t] assms(2) False by (intro assms(5)) auto
    then have "stored_bytes fs' (filepath_join (lr_logs_dir lr) t) = stored_bytes fs (filepath_join (lr_logs_dir lr) t)"
      by (simp add: stored_bytes_def)
    moreover have "quota_ok t (lr, fs)" using assms(1) t by (simp add: receiver_ok_def)
    ultimately show ?thesis using False by (simp add: quota_ok_def eq)
  qed
  then show ?thesis using assms(4,6) by (simp add: receiver_ok_def eq)
qed

subsection \<open>Control characters\<close>

text \<open>
  Only the bytes below 32 are rejected in a line: the delete character and the C1 control characters, among them
  the control sequence introducer U+009B that starts a terminal escape sequence, are stored.
\<close>

lemma log_lines_keeps_c1_controls:
  "log_lines (dq @ [CHR 0xC2, CHR 0x9B, CHR 0x7F] @ dq) False = Inr (dq @ [CHR 0xC2, CHR 0x9B, CHR 0x7F] @ dq @ nl)"
  "is_control_rune (runes [CHR 0xC2, CHR 0x9B] ! 0)"
  by code_simp+

subsection \<open>Every step keeps the invariant\<close>

lemma in_assoc_put: "x \<in> set (assoc_put k v m) \<Longrightarrow> x = (k, v) \<or> x \<in> set m"
  by (induction k v m rule: assoc_put.induct) (auto split: if_splits)

lemma base_ok_cong: "map_of fs' base = map_of fs base \<Longrightarrow> base_ok base fs' = base_ok base fs"
  by (simp add: base_ok_def)

lemma base_ok_put: "\<lbrakk> \<forall>(n, e) \<in> set l. de_is_dir e \<longrightarrow> plain_name n \<rbrakk> \<Longrightarrow> base_ok base (assoc_put base l fs)"
  by (auto simp: base_ok_def)

lemma make_base_ok: "base_ok base fs \<Longrightarrow> base_ok base (make_base d fs)"
  by (auto simp: base_ok_def make_base_def)

lemma make_dir_base_ok:
  assumes "make_dir os now base name dir fs = Some fs'" "base_ok base fs" "plain_name name" "dir \<noteq> base"
  shows "base_ok base fs'"
proof -
  obtain l where l: "map_of (make_base base fs) base = Some l" by (cases "map_of fs base") (auto simp: make_base_def)
  have "\<forall>(n, e) \<in> set l. de_is_dir e \<longrightarrow> plain_name n" using make_base_ok [OF assms(2), of base] l by (auto simp: base_ok_def)
  then have "base_ok base (assoc_put base (assoc_put name e l) fs1)" for e fs1
    using assms(3) by (intro base_ok_put) (auto dest: in_assoc_put)
  then show ?thesis using assms(1,2)
    by (auto simp: make_dir_def Let_def l intro!: make_base_ok split: if_splits option.splits)
qed

lemma store_logs_base_ok:
  assumes "store_logs os now d tenant limit payload state fs w = (w', state', fs')"
    and "base_ok (filepath_clean d) fs" "plain_name tenant" "filepath_join d tenant \<noteq> filepath_clean d"
  shows "base_ok (filepath_clean d) fs'"
proof (cases "make_dir os now (filepath_clean d) tenant (filepath_join d tenant) fs")
  case None
  then show ?thesis using assms(1,2) by (simp add: store_logs_def)
next
  case (Some fs1)
  have "base_ok (filepath_clean d) fs1" using make_dir_base_ok [OF Some assms(2-4)] .
  moreover have "map_of fs' (filepath_clean d) = map_of fs1 (filepath_clean d)"
    using assms(1,4) Some write_logs_frame [of os now "filepath_join d tenant" payload _ fs1 w w' state' fs' "filepath_clean d"]
    by (auto simp: store_logs_def Let_def split: if_splits sum.splits)
  ultimately show ?thesis using base_ok_cong by blast
qed

lemma allow_request_usage [simp]: "usage_ok limit stored (snd (allow_request now n s)) = usage_ok limit stored s"
  by (simp add: usage_ok_def allow_request_def Let_def)

lemma tenant_entry_usage:
  assumes "receiver_ok (lr, fs)" "plain_name t"
  shows "usage_ok (max_tenant_bytes_of lr) (stored_bytes fs (filepath_join (lr_logs_dir lr) t)) (tenant_entry t lr)"
    "stored_bytes fs (filepath_join (lr_logs_dir lr) t) \<le> max_tenant_bytes_of lr"
  using assms by (auto simp: receiver_ok_def quota_ok_def tenant_entry_def fresh_tenant_state_def usage_ok_def split: option.split)

lemma max_request_bytes_pos: "0 \<le> max_request_bytes_of lr"
  by (simp add: max_request_bytes_of_def)

lemma receive_logs_ok:
  assumes "receiver_ok (lr, fs)" "receive_logs os now tenant media_type r (lr\<lparr>lr_auth_failures := clients\<rparr>) fs w = (w', lr', fs')"
    and "(tenant, token) \<in> set (lr_tokens lr)" "length clients \<le> max_auth_failure_clients"
  shows "receiver_ok (lr', fs')"
proof -
  let ?d = "lr_logs_dir lr" and ?limit = "max_tenant_bytes_of lr"
  have l: "limits_ok lr" and b: "base_ok (filepath_clean ?d) fs" using assms(1) by (auto simp: receiver_ok_def)
  have t: "plain_name tenant" using l assms(3) by (auto simp: limits_ok_def intro: tenant_id_plain)
  note u = tenant_entry_usage [OF assms(1) t]
  from receive_logs_cases [OF assms(2)] show ?thesis
  proof (elim disjE exE conjE)
    assume a: "lr' = put_tenant_state tenant (snd (allow_request now (requests_per_minute_of (lr\<lparr>lr_auth_failures := clients\<rparr>))
        (tenant_entry tenant (lr\<lparr>lr_auth_failures := clients\<rparr>)))) (lr\<lparr>lr_auth_failures := clients\<rparr>)" "fs' = fs"
    show ?thesis using b u a(2) by (intro tenant_step_ok [OF assms(1) t a(1) assms(4)]) auto
  next
    fix sent payload state'
    assume s: "read_max_bytes (rq_body r) (max_request_bytes_of (lr\<lparr>lr_auth_failures := clients\<rparr>)) = BodyRead sent"
      "log_lines sent (media_type = ''application/json'') = Inr payload"
      "store_logs os now (logs_dir_of os (lr\<lparr>lr_auth_failures := clients\<rparr>)) tenant (max_tenant_bytes_of (lr\<lparr>lr_auth_failures := clients\<rparr>)) payload
         (snd (allow_request now (requests_per_minute_of (lr\<lparr>lr_auth_failures := clients\<rparr>)) (tenant_entry tenant (lr\<lparr>lr_auth_failures := clients\<rparr>))))
         fs w = (w', state', fs')"
      "lr' = put_tenant_state tenant state' (lr\<lparr>lr_auth_failures := clients\<rparr>)"
    have "int (length payload) \<le> max_request_bytes_of lr + 1"
      using read_max_bytes_length [OF s(1)] log_lines_length [OF s(2)] max_request_bytes_pos [of lr] by simp
    then have "?limit + int (length payload) < 2 ^ 63" using l by (simp add: limits_ok_def)
    moreover note st = s(3) [simplified, unfolded logs_dir_of_ok [OF l]]
    ultimately have q: "usage_ok ?limit (stored_bytes fs' (filepath_join ?d tenant)) state' \<and> stored_bytes fs' (filepath_join ?d tenant) \<le> ?limit"
      using u by (intro store_logs_quota [OF st]) auto
    show ?thesis
      using q store_logs_base_ok [OF st b t join_neq(1) [OF l t]] store_logs_frame [OF st]
      by (intro tenant_step_ok [OF assms(1) t s(4) assms(4)]) auto
  qed
qed

lemma handle_logs_ok:
  assumes "receiver_ok (lr, fs)" "handle_logs os now r lr fs w = (w', lr', fs')"
  shows "receiver_ok (lr', fs')"
proof -
  have n: "length (lr_auth_failures lr') \<le> max_auth_failure_clients"
    using handle_logs_failures [OF assms(2)] assms(1) by (simp add: receiver_ok_def)
  from handle_logs_cases [OF assms(2)] show ?thesis
  proof (elim disjE exE conjE)
    fix clients
    assume "lr' = lr\<lparr>lr_auth_failures := clients\<rparr>" "fs' = fs"
    then show ?thesis using assms(1) n by (simp add: receiver_ok_def quota_ok_def limits_ok_def)
  next
    fix clients token tenant media_type
    assume r: "(tenant, token) \<in> set (lr_tokens lr)"
      "receive_logs os now tenant media_type r (lr\<lparr>lr_auth_failures := clients\<rparr>) fs w = (w', lr', fs')"
    then have "lr_auth_failures lr' = clients" using receive_logs_cases [OF r(2)] by auto
    then show ?thesis using receive_logs_ok [OF assms(1) r(2,1)] n by simp
  qed
qed

lemma base_step_ok:
  assumes "receiver_ok (lr, fs)" "base_ok (filepath_clean (lr_logs_dir lr)) fs'"
    and "\<And>d. d \<noteq> filepath_clean (lr_logs_dir lr) \<Longrightarrow> map_of fs' d = map_of fs d"
  shows "receiver_ok (lr\<lparr>lr_ready_checked := now, lr_ready_err := err\<rparr>, fs')"
proof -
  have l: "limits_ok lr" using assms(1) by (simp add: receiver_ok_def)
  have "stored_bytes fs' (filepath_join (lr_logs_dir lr) t) = stored_bytes fs (filepath_join (lr_logs_dir lr) t)" if "plain_name t" for t
    using assms(3) [OF join_neq(1) [OF l that]] by (simp add: stored_bytes_def)
  moreover have "max_tenant_bytes_of (lr\<lparr>lr_ready_checked := now, lr_ready_err := err\<rparr>) = max_tenant_bytes_of lr"
    "max_request_bytes_of (lr\<lparr>lr_ready_checked := now, lr_ready_err := err\<rparr>) = max_request_bytes_of lr"
    by (simp_all add: max_tenant_bytes_of_def max_request_bytes_of_def)
  ultimately show ?thesis using assms(1,2) by (simp add: receiver_ok_def quota_ok_def limits_ok_def)
qed

lemma append_file_dirs: "(n, e) \<in> set (append_file now name data l) \<Longrightarrow> de_is_dir e \<Longrightarrow> \<exists>e'. (n, e') \<in> set l \<and> de_is_dir e'"
  by (auto simp: append_file_def split: option.splits dest!: in_assoc_put map_of_SomeD)

lemma check_dir_writable_ok:
  assumes "check_dir_writable os now d fs = (err, fs')" "base_ok (filepath_clean d) fs"
  shows "base_ok (filepath_clean d) fs'" "e \<noteq> filepath_clean d \<Longrightarrow> map_of fs' e = map_of fs e"
proof -
  let ?b = "filepath_clean d"
  obtain l where l: "map_of (make_base ?b fs) ?b = Some l" by (cases "map_of fs ?b") (auto simp: make_base_def)
  have "\<forall>(n, e) \<in> set l. de_is_dir e \<longrightarrow> plain_name n" using make_base_ok [OF assms(2), of ?b] l by (auto simp: base_ok_def)
  then have "base_ok ?b (assoc_put ?b (append_file now name [] l) fs1)" for name fs1
    by (intro base_ok_put) (auto dest!: append_file_dirs)
  then show "base_ok ?b fs'" using assms(1,2) make_base_ok [OF assms(2)]
    by (auto simp: check_dir_writable_def Let_def l split: if_splits option.splits)
  show "map_of fs' e = map_of fs e" if "e \<noteq> ?b"
    using assms(1) that make_base_frame [OF that, of fs] by (auto simp: check_dir_writable_def Let_def split: if_splits option.splits)
qed

lemma logs_dir_writable_ok:
  assumes "receiver_ok (lr, fs)" "logs_dir_writable os now lr fs = (err, lr', fs')"
  shows "receiver_ok (lr', fs')"
proof (cases "lr_ready_checked lr \<noteq> 0 \<and> time_sub now (lr_ready_checked lr) < 5 * second")
  case True
  then show ?thesis using assms by (simp add: logs_dir_writable_def)
next
  case False
  have l: "limits_ok lr" and b: "base_ok (filepath_clean (lr_logs_dir lr)) fs" using assms(1) by (auto simp: receiver_ok_def)
  obtain e fs1 where c: "check_dir_writable os now (lr_logs_dir lr) fs = (e, fs1)" by fastforce
  have "lr' = lr\<lparr>lr_ready_checked := now, lr_ready_err := e\<rparr>" "fs' = fs1"
    using assms(2) False by (auto simp: logs_dir_writable_def logs_dir_of_ok [OF l] c)
  then show ?thesis using base_step_ok [OF assms(1) check_dir_writable_ok [OF c b]] by simp
qed

lemma readyz_ok:
  assumes "receiver_ok (lr, fs)" "receiver_readyz os now r lr fs w = (w', lr', fs')"
  shows "receiver_ok (lr', fs')"
proof -
  obtain e lr1 fs1 where d: "logs_dir_writable os now lr fs = (e, lr1, fs1)" by (rule prod_cases3)
  have "(lr', fs') = (lr, fs) \<or> (lr', fs') = (lr1, fs1)"
    using assms(2) by (auto simp: receiver_readyz_def d split: option.splits)
  then show ?thesis using assms(1) logs_dir_writable_ok [OF assms(1) d] by auto
qed

lemma remove_expired_logs_frame:
  "\<lbrakk> remove_expired_logs os dir cutoff fs = (err, fs'); d \<noteq> dir \<rbrakk> \<Longrightarrow> map_of fs' d = map_of fs d"
  by (auto simp: remove_expired_logs_def split: option.splits if_splits prod.splits)

lemma cleanup_tenant_ok:
  assumes "receiver_ok (lr, fs)" "plain_name name" "cleanup_tenant os clock name lr fs = (errs, lr', fs')"
  shows "receiver_ok (lr', fs')" "lr_logs_dir lr' = lr_logs_dir lr"
proof -
  let ?dir = "filepath_join (lr_logs_dir lr) name"
  have l: "limits_ok lr" and b: "base_ok (filepath_clean (lr_logs_dir lr)) fs"
    and n: "length (lr_auth_failures lr) \<le> max_auth_failure_clients" using assms(1) by (auto simp: receiver_ok_def)
  obtain err fs1 where r: "remove_expired_logs os ?dir (clock name - retention_of lr) fs = (err, fs1)" by fastforce
  define state where "state = (tenant_entry name lr)\<lparr>ts_used_bytes := (case directory_bytes os ?dir fs1 of Inl e \<Rightarrow> 0 | Inr n \<Rightarrow> n),
    ts_used_known := (case directory_bytes os ?dir fs1 of Inl e \<Rightarrow> False | Inr n \<Rightarrow> True)\<rparr>"
  have eq: "fs' = fs1" "lr' = put_tenant_state name state lr"
    using assms(3) by (auto simp: cleanup_tenant_def Let_def logs_dir_of_ok [OF l] r state_def)
  have s: "stored_bytes fs1 ?dir \<le> max_tenant_bytes_of lr"
    using remove_expired_logs_bytes [OF r] tenant_entry_usage(2) [OF assms(1,2)] order_trans by blast
  moreover have "max_tenant_bytes_of lr < 2 ^ 63" using l max_request_bytes_pos [of lr] by (simp add: limits_ok_def)
  ultimately have u: "usage_ok (max_tenant_bytes_of lr) (stored_bytes fs1 ?dir) state"
    using directory_bytes_exact [of os ?dir fs1] by (auto simp: usage_ok_def state_def split: sum.splits)
  have b1: "base_ok (filepath_clean (lr_logs_dir lr)) fs1"
    using b base_ok_cong [OF remove_expired_logs_frame [OF r]] join_neq(1) [OF l assms(2)] by metis
  have "lr' = put_tenant_state name state (lr\<lparr>lr_auth_failures := lr_auth_failures lr\<rparr>)" using eq(2) by simp
  from tenant_step_ok [OF assms(1,2) this n _ b1 u s] remove_expired_logs_frame [OF r] show "receiver_ok (lr', fs')"
    unfolding eq(1) by blast
  show "lr_logs_dir lr' = lr_logs_dir lr" by (simp add: eq(2))
qed

lemma cleanup_entries_ok:
  "\<lbrakk> cleanup_entries os clock l lr fs = (errs, lr', fs'); receiver_ok (lr, fs); \<forall>(n, e) \<in> set l. de_is_dir e \<longrightarrow> plain_name n \<rbrakk>
   \<Longrightarrow> receiver_ok (lr', fs')"
proof (induction os clock l lr fs arbitrary: errs rule: cleanup_entries.induct)
  case (2 os clock name e rest lr fs)
  show ?case
  proof (cases "de_is_dir e")
    case False
    then show ?thesis using 2 by simp
  next
    case True
    obtain errs1 lr1 fs1 where t: "cleanup_tenant os clock name lr fs = (errs1, lr1, fs1)" by (rule prod_cases3)
    obtain errs2 lr2 fs2 where m: "cleanup_entries os clock rest lr1 fs1 = (errs2, lr2, fs2)" by (rule prod_cases3)
    have "(lr', fs') = (lr2, fs2)" using 2(3) True by (simp add: t m)
    moreover have "plain_name name" "\<forall>(n, e) \<in> set rest. de_is_dir e \<longrightarrow> plain_name n" using 2(5) True by auto
    ultimately show ?thesis
      using 2(2) [OF _ t [symmetric] refl refl, of errs2] True m cleanup_tenant_ok(1) [OF 2(4) _ t] by simp
  qed
qed simp

lemma sweep_ok:
  assumes "receiver_ok (lr, fs)" "cleanup_expired_logs os clock lr fs = (errs, lr', fs')"
  shows "receiver_ok (lr', fs')"
proof -
  have l: "limits_ok lr" and b: "base_ok (filepath_clean (lr_logs_dir lr)) fs" using assms(1) by (auto simp: receiver_ok_def)
  then show ?thesis using assms cleanup_entries_ok [of os clock _ lr fs errs lr' fs']
    by (fastforce simp: cleanup_expired_logs_def Let_def logs_dir_of_ok [OF l] base_ok_def split: option.splits if_splits)
qed

interpretation receiving: transition_system receiver_init receiver_step receiver_ok
proof
  fix s
  assume "receiver_init s"
  then obtain tokens d a b c r fs where s: "s = (new_log_receiver tokens d a b c r, fs)" "limits_ok (new_log_receiver tokens d a b c r)"
    "base_ok (filepath_clean d) fs"
    "\<forall>t. plain_name t \<longrightarrow> stored_bytes fs (filepath_join d t) \<le> max_tenant_bytes_of (new_log_receiver tokens d a b c r)"
    by (auto simp: receiver_init_def)
  have "lr_logs_dir (new_log_receiver tokens d a b c r) = d" "lr_tenants (new_log_receiver tokens d a b c r) = []"
    "lr_auth_failures (new_log_receiver tokens d a b c r) = []" by (simp_all add: new_log_receiver_def)
  then show "receiver_ok s" using s by (simp add: receiver_ok_def quota_ok_def)
next
  fix s t
  assume ok: "receiver_ok s" and step: "receiver_step s t"
  from step ok show "receiver_ok t" by cases (auto intro: handle_logs_ok readyz_ok sweep_ok)
qed

subsection \<open>Limits of the receiver\<close>

text \<open>C0: tenants and strangers cannot exhaust the receiver.  After any sequence of log requests, readiness probes and retention sweeps,
  whatever fails in the file system, the log files of a tenant take at most the bytes of its quota, and the table of failed
  authentications has at most 4096 entries.\<close>

theorem receiver_usage_bounded:
  assumes "reachable receiver_init receiver_step (lr, fs)" "plain_name t"
  shows "stored_bytes fs (filepath_join (lr_logs_dir lr) t) \<le> max_tenant_bytes_of lr \<and> length (lr_auth_failures lr) \<le> 4096"
  using receiving.reachable_inv [OF assms(1)] assms(2)
  by (simp add: receiver_ok_def quota_ok_def max_auth_failure_clients_def)

lemma sample_receiver_init: "receiver_init (sample_receiver, [])"
proof -
  have "limits_ok sample_receiver" by code_simp
  then show ?thesis unfolding receiver_init_def prod.case sample_receiver_def
    by (intro exI conjI refl) (auto simp: base_ok_def stored_bytes_def max_tenant_bytes_of_def)
qed

theorem receiver_usage_bounded_witness:
  "\<exists>lr fs. reachable receiver_init receiver_step (lr, fs) \<and> map_of fs ''/logs/shop'' \<noteq> None \<and>
     stored_bytes fs (filepath_join (lr_logs_dir lr) ''shop'') \<le> max_tenant_bytes_of lr"
proof -
  obtain w lr fs where h: "handle_logs sample_receiver_os minute (sample_logs_request ''1'') sample_receiver [] (new_log_writer fresh_writer) = (w, lr, fs)"
    by (rule prod_cases3)
  have r: "reachable receiver_init receiver_step (lr, fs)"
    by (rule reachable_step, rule reachable_init, rule sample_receiver_init, rule step_logs [OF h])
  have p: "plain_name ''shop''" by code_simp
  have "map_of fs ''/logs/shop'' \<noteq> None" using sample_handle_logs unfolding h by simp
  then show ?thesis using r conjunct1 [OF receiver_usage_bounded [OF r p]] by blast
qed

subsection \<open>Lines that are stored\<close>

lemma decode_rune_low: "fst (decode_rune c s) < 128 \<Longrightarrow> fst (decode_rune c s) = byte_val c"
  by (auto simp: decode_rune_def cont_in_def low_bits_def Let_def split: if_splits)

lemma low_rune: "\<lbrakk> r \<in> set (runes p); r < 128 \<rbrakk> \<Longrightarrow> \<exists>c \<in> set p. byte_val c = r"
proof (induction p rule: runes.induct)
  case (2 a s)
  then show ?case using decode_rune_low [of a s] set_drop_subset [of "snd (decode_rune a s)" s] by fastforce
qed simp

text \<open>A line that may be stored.\<close>

definition good_line :: "string \<Rightarrow> bool" where
  "good_line l \<longleftrightarrow> l \<noteq> [] \<and> json_valid l \<and> (\<forall>c \<in> set l. 32 \<le> byte_val c)"

lemma low_rune_iff: "list_ex (\<lambda>r. r < 32) (runes l) \<longleftrightarrow> (\<exists>c \<in> set l. byte_val c < 32)"
  using ascii_rune [of _ l] low_rune [of _ l] by (fastforce simp: list_ex_iff)

lemma collect_lines_exact:
  "collect_lines ls n payload = Inr (lines, payload') \<longleftrightarrow>
   (\<forall>l \<in> set (filter (\<lambda>l. l \<noteq> []) ls). good_line l) \<and> lines = n + int (length (filter (\<lambda>l. l \<noteq> []) ls)) \<and>
   payload' = payload @ concat (map (\<lambda>l. l @ nl) (filter (\<lambda>l. l \<noteq> []) ls))"
proof (induction ls n payload rule: collect_lines.induct)
  case (2 line rest n payload)
  have good: "good_line line \<longleftrightarrow> \<not> list_ex (\<lambda>r. r < 32) (runes line) \<and> json_valid line" if "line \<noteq> []"
    using that by (auto simp: good_line_def low_rune_iff not_less)
  show ?case
  proof (cases "line = []")
    case True
    then show ?thesis using 2(1) by simp
  next
    case False
    then show ?thesis using 2(2) good by (cases "good_line line") auto
  qed
qed auto

text \<open>C0: what the receiver stores of a body are exactly its non-empty lines, each ended by a line feed.  A body is accepted if and
  only if it has at least one of them, and each is one valid JSON value without a byte below 32; a body of type \<open>application/json\<close> has
  exactly one.  So a tenant cannot break a stored line in two or store anything that is not JSON.\<close>

theorem log_lines_exact:
  "log_lines sent single = Inr payload \<longleftrightarrow>
   (\<exists>ls. ls = filter (\<lambda>l. l \<noteq> []) (str_split (CHR 0x0A) sent) \<and> ls \<noteq> [] \<and> (single \<longrightarrow> length ls = 1) \<and>
      (\<forall>l \<in> set ls. json_valid l \<and> (\<forall>c \<in> set l. 32 \<le> byte_val c)) \<and> payload = concat (map (\<lambda>l. l @ nl) ls))"
  (is "_ \<longleftrightarrow> ?rhs")
proof -
  define ls where "ls = filter (\<lambda>l. l \<noteq> []) (str_split (CHR 0x0A) sent)"
  have g: "(\<forall>l \<in> set ls. good_line l) \<longleftrightarrow> (\<forall>l \<in> set ls. json_valid l \<and> (\<forall>c \<in> set l. 32 \<le> byte_val c))"
    unfolding ls_def by (auto simp: good_line_def)
  have "log_lines sent single = Inr payload \<longleftrightarrow>
    (\<exists>lines. collect_lines (str_split (CHR 0x0A) sent) 0 [] = Inr (lines, payload) \<and> lines \<noteq> 0 \<and> (single \<longrightarrow> lines = 1))"
    by (auto simp: log_lines_def split: sum.splits if_splits)
  also have "\<dots> \<longleftrightarrow> ?rhs" unfolding collect_lines_exact ls_def [symmetric] g by auto
  finally show ?thesis .
qed

theorem log_lines_exact_witness:
  "log_lines (''1'' @ nl @ nl @ ''[2]'') False = Inr (''1'' @ nl @ ''[2]'' @ nl)"
proof -
  have "filter (\<lambda>l. l \<noteq> []) (str_split (CHR 0x0A) (''1'' @ nl @ nl @ ''[2]'')) = [''1'', ''[2]'']" by code_simp
  moreover have "json_valid ''1''" "json_valid ''[2]''" by code_simp+
  ultimately show ?thesis
    unfolding log_lines_exact [of "''1'' @ nl @ nl @ ''[2]''" False] by (auto simp: byte_val_def)
qed

subsection \<open>Accepted logs are stored\<close>

definition stored_file :: "logs_fs \<Rightarrow> string \<Rightarrow> string \<Rightarrow> string" where
  "stored_file fs dir name =
     (case map_of fs dir of None \<Rightarrow> [] | Some l \<Rightarrow> (case map_of l name of None \<Rightarrow> [] | Some e \<Rightarrow> de_data e))"

lemma make_base_file [simp]: "stored_file (make_base d fs) dir name = stored_file fs dir name"
  by (auto simp: make_base_def stored_file_def)

lemma make_dir_file:
  "\<lbrakk> make_dir os now base name dir fs = Some fs'; dir \<noteq> base \<rbrakk> \<Longrightarrow> stored_file fs' dir n = stored_file fs dir n"
proof -
  have "stored_file (assoc_put base l fs1) dir n = stored_file fs1 dir n" if "dir \<noteq> base" for l fs1
    using that by (simp add: stored_file_def)
  then show "\<lbrakk> make_dir os now base name dir fs = Some fs'; dir \<noteq> base \<rbrakk> \<Longrightarrow> stored_file fs' dir n = stored_file fs dir n"
    by (auto simp: make_dir_def Let_def split: if_splits option.splits)
qed

lemma write_logs_accepted:
  assumes "write_logs os now dir payload state fs w = (w', state', fs')" "lw_status w' = 200" "map_of fs dir \<noteq> None"
  shows "stored_file fs' dir (ro_date os now @ ''.log'') = stored_file fs dir (ro_date os now @ ''.log'') @ payload"
  using assms by (auto simp: write_logs_def append_file_def stored_file_def Let_def split: if_splits option.splits)

lemma store_logs_accepted:
  assumes "store_logs os now d tenant limit payload state fs w = (w', state', fs')" "lw_status w' = 200"
    and "filepath_join d tenant \<noteq> filepath_clean d"
  shows "stored_file fs' (filepath_join d tenant) (ro_date os now @ ''.log'') =
    stored_file fs (filepath_join d tenant) (ro_date os now @ ''.log'') @ payload"
proof (cases "make_dir os now (filepath_clean d) tenant (filepath_join d tenant) fs")
  case None
  then show ?thesis using assms(1,2) by (auto simp: store_logs_def)
next
  case (Some fs1)
  then obtain state1 where "write_logs os now (filepath_join d tenant) payload state1 fs1 w = (w', state', fs')"
    using assms(1,2) by (auto simp: store_logs_def Let_def split: if_splits sum.splits)
  from write_logs_accepted [OF this assms(2) make_dir_exists [OF Some]] make_dir_file [OF Some assms(3)] show ?thesis by simp
qed

lemma receive_logs_accepted:
  assumes "receive_logs os now tenant media_type r lr fs w = (w', lr', fs')" "lw_status w' = 200" "plain_name tenant"
  shows "\<exists>sent payload. read_max_bytes (rq_body r) (max_request_bytes_of lr) = BodyRead sent \<and>
    log_lines sent (media_type = ''application/json'') = Inr payload \<and>
    stored_file fs' (filepath_join (logs_dir_of os lr) tenant) (ro_date os now @ ''.log'') =
      stored_file fs (filepath_join (logs_dir_of os lr) tenant) (ro_date os now @ ''.log'') @ payload"
proof -
  obtain ok state where a: "allow_request now (requests_per_minute_of lr) (tenant_entry tenant lr) = (ok, state)" by fastforce
  obtain sent payload where s: "read_max_bytes (rq_body r) (max_request_bytes_of lr) = BodyRead sent"
    "log_lines sent (media_type = ''application/json'') = Inr payload"
    using assms(1,2) by (auto simp: receive_logs_def a Let_def split: if_splits body_read.splits sum.splits)
  obtain w1 state1 fs1 where st: "store_logs os now (logs_dir_of os lr) tenant (max_tenant_bytes_of lr) payload state fs w = (w1, state1, fs1)"
    by (rule prod_cases3)
  have "w1 = w'" "fs1 = fs'" using assms(1,2) by (auto simp: receive_logs_def a Let_def s st split: if_splits)
  then show ?thesis
    using s store_logs_accepted [OF st _ filepath_join_inside [OF logs_dir_nonempty assms(3)]] assms(2) by blast
qed

text \<open>An answer of 200 means that the lines of the body were appended to the day's file of the tenant.\<close>

lemma handle_logs_accepted:
  assumes "handle_logs os now r lr fs w = (w', lr', fs')" "lw_status w' = 200"
    and "\<forall>(t, token) \<in> set (lr_tokens lr). tenant_id_ok t"
  shows "\<exists>tenant token media_type sent payload. header_get (rq_header r) ''Authorization'' = ''Bearer '' @ token \<and>
    (tenant, token) \<in> set (lr_tokens lr) \<and> parse_media_type (header_get (rq_header r) ''Content-Type'') = Some media_type \<and>
    read_max_bytes (rq_body r) (max_request_bytes_of lr) = BodyRead sent \<and>
    log_lines sent (media_type = ''application/json'') = Inr payload \<and>
    stored_file fs' (filepath_join (logs_dir_of os lr) tenant) (ro_date os now @ ''.log'') =
      stored_file fs (filepath_join (logs_dir_of os lr) tenant) (ro_date os now @ ''.log'') @ payload"
proof -
  obtain b clients where b: "blocked (remote_ip r) now (lr_auth_failures lr) = (b, clients)" by fastforce
  obtain token media_type where m: "header_get (rq_header r) ''Authorization'' = ''Bearer '' @ token"
    "tenant_id_for_token (lr_tokens lr) token \<noteq> []"
    "parse_media_type (header_get (rq_header r) ''Content-Type'') = Some media_type"
    "receive_logs os now (tenant_id_for_token (lr_tokens lr) token) media_type r (lr\<lparr>lr_auth_failures := clients\<rparr>) fs w = (w', lr', fs')"
    using assms(1,2) by (auto simp: handle_logs_def b require_method_def Let_def cut_prefix_Some split: if_splits option.splits)
  define tenant where "tenant = tenant_id_for_token (lr_tokens lr) token"
  note t = m(1) tenant_id_for_token_in [OF refl m(2), folded tenant_def] m(3) m(4) [folded tenant_def]
  have "plain_name tenant" using t(2) assms(3) by (auto intro: tenant_id_plain)
  from receive_logs_accepted [OF t(4) assms(2) this] t(1-3) show ?thesis by auto
qed

subsection \<open>Retention\<close>

definition expired :: "time \<Rightarrow> string \<times> dir_entry \<Rightarrow> bool" where
  "expired cutoff = (\<lambda>(name, e). \<not> de_is_dir e \<and> filepath_ext name = ''.log'' \<and> de_regular e \<and> de_mod_time e < cutoff)"

text \<open>Nothing fails in the file system.\<close>

definition healthy_os :: "receiver_os \<Rightarrow> bool" where
  "healthy_os os \<longleftrightarrow> (\<forall>d n. ro_read_dir_ok os d \<and> ro_info_ok os d n \<and> ro_remove_ok os d n)"

lemma remove_expired_entries_exact:
  "healthy_os os \<Longrightarrow> remove_expired_entries os dir cutoff l = (None, filter (\<lambda>x. \<not> expired cutoff x) l)"
  by (induction os dir cutoff l rule: remove_expired_entries.induct) (auto simp: healthy_os_def expired_def)

lemma sum_sizes_total: "healthy_os os \<Longrightarrow> \<exists>n. sum_sizes os dir used l = Inr n"
  by (induction os dir used l rule: sum_sizes.induct) (auto simp: healthy_os_def)

lemma cleanup_tenant_exact:
  assumes "healthy_os os" "map_of fs (filepath_join (logs_dir_of os lr) name) = Some l" "listing_bytes l < 2 ^ 63"
    and "cleanup_tenant os clock name lr fs = (errs, lr', fs')"
  defines "kept \<equiv> filter (\<lambda>x. \<not> expired (clock name - retention_of lr) x) l"
  shows "errs = []" "fs' = assoc_put (filepath_join (logs_dir_of os lr) name) kept fs"
    "lr' = put_tenant_state name ((tenant_entry name lr)\<lparr>ts_used_bytes := listing_bytes kept, ts_used_known := True\<rparr>) lr"
proof -
  let ?dir = "filepath_join (logs_dir_of os lr) name"
  have r: "remove_expired_logs os ?dir (clock name - retention_of lr) fs = (None, assoc_put ?dir kept fs)"
    using assms(1,2) remove_expired_entries_exact [OF assms(1)] by (simp add: remove_expired_logs_def healthy_os_def kept_def)
  obtain n where n: "sum_sizes os ?dir 0 kept = Inr n" using sum_sizes_total [OF assms(1)] by blast
  have "listing_bytes kept \<le> listing_bytes l"
    using remove_expired_entries_bytes [of os ?dir "clock name - retention_of lr" l] remove_expired_entries_exact [OF assms(1)]
    by (simp add: kept_def)
  then have "n = listing_bytes kept" using sum_sizes_exact [OF n] assms(3) by simp
  then have "directory_bytes os ?dir (assoc_put ?dir kept fs) = Inr (listing_bytes kept)"
    using assms(1) n by (simp add: directory_bytes_def healthy_os_def)
  then show "errs = []" "fs' = assoc_put ?dir kept fs"
    "lr' = put_tenant_state name ((tenant_entry name lr)\<lparr>ts_used_bytes := listing_bytes kept, ts_used_known := True\<rparr>) lr"
    using assms(4) by (auto simp: cleanup_tenant_def Let_def r)
qed

lemma cleanup_entries_exact:
  assumes "healthy_os os"
  shows "\<lbrakk> cleanup_entries os clock entries lr fs = (errs, lr', fs'); wf_assoc entries;
     \<forall>(n, e) \<in> set entries. de_is_dir e \<longrightarrow> plain_name n \<and> map_of fs (filepath_join (logs_dir_of os lr) n) = Some (ls n) \<and> listing_bytes (ls n) < 2 ^ 63 \<rbrakk> \<Longrightarrow>
   errs = [] \<and>
   (\<forall>(n, e) \<in> set entries. de_is_dir e \<longrightarrow>
      map_of fs' (filepath_join (logs_dir_of os lr) n) = Some (filter (\<lambda>x. \<not> expired (clock n - retention_of lr) x) (ls n)) \<and>
      ts_used_known (tenant_entry n lr') \<and>
      ts_used_bytes (tenant_entry n lr') = listing_bytes (filter (\<lambda>x. \<not> expired (clock n - retention_of lr) x) (ls n))) \<and>
   (\<forall>n. plain_name n \<longrightarrow> n \<notin> fst ` set entries \<longrightarrow>
      map_of fs' (filepath_join (logs_dir_of os lr) n) = map_of fs (filepath_join (logs_dir_of os lr) n) \<and> tenant_entry n lr' = tenant_entry n lr)"
proof (induction entries arbitrary: lr fs errs)
  case Nil
  then show ?case by auto
next
  case (Cons x entries)
  obtain name e where x: "x = (name, e)" by fastforce
  have wf: "wf_assoc entries" "name \<notin> fst ` set entries" using Cons.prems(2) by (auto simp: wf_assoc_def keys_def x)
  show ?case
  proof (cases "de_is_dir e")
    case False
    then show ?thesis using Cons.IH [of lr fs errs] Cons.prems wf by (auto simp: x)
  next
    case True
    let ?j = "filepath_join (logs_dir_of os lr)" and ?keep = "\<lambda>n. filter (\<lambda>x. \<not> expired (clock n - retention_of lr) x) (ls n)"
    obtain errs1 lr1 fs1 where t: "cleanup_tenant os clock name lr fs = (errs1, lr1, fs1)" by (rule prod_cases3)
    obtain errs2 lr2 fs2 where m: "cleanup_entries os clock entries lr1 fs1 = (errs2, lr2, fs2)" by (rule prod_cases3)
    have p: "plain_name name" "map_of fs (?j name) = Some (ls name)" "listing_bytes (ls name) < 2 ^ 63" using Cons.prems(3) True by (auto simp: x)
    note c = cleanup_tenant_exact [OF assms p(2,3) t]
    have eq: "errs = errs2" "lr' = lr2" "fs' = fs2" using Cons.prems(1) True c(1) by (auto simp: x t m)
    have lim: "logs_dir_of os lr1 = logs_dir_of os lr" "retention_of lr1 = retention_of lr" by (simp_all add: c(3))
    have other: "map_of fs1 (?j n) = map_of fs (?j n)" "tenant_entry n lr1 = tenant_entry n lr" if "plain_name n" "n \<noteq> name" for n
      using that p(1) by (auto simp: c(2,3) filepath_join_name put_tenant_state_def tenant_entry_def)
    have mine: "map_of fs1 (?j name) = Some (?keep name)" "ts_used_known (tenant_entry name lr1)" "ts_used_bytes (tenant_entry name lr1) = listing_bytes (?keep name)"
      by (simp_all add: c(2,3) put_tenant_state_def tenant_entry_def)
    have pre: "\<forall>(n, e) \<in> set entries. de_is_dir e \<longrightarrow> plain_name n \<and> map_of fs1 (filepath_join (logs_dir_of os lr1) n) = Some (ls n) \<and> listing_bytes (ls n) < 2 ^ 63"
    proof (intro ballI, clarify)
      fix n e
      assume n: "(n, e) \<in> set entries" "de_is_dir e"
      then have "plain_name n" "map_of fs (?j n) = Some (ls n)" "listing_bytes (ls n) < 2 ^ 63" using Cons.prems(3) by auto
      moreover have "n \<noteq> name" using n(1) wf(2) by force
      ultimately show "plain_name n \<and> map_of fs1 (filepath_join (logs_dir_of os lr1) n) = Some (ls n) \<and> listing_bytes (ls n) < 2 ^ 63"
        using other(1) by (simp add: lim)
    qed
    note IH = Cons.IH [OF m [folded eq] wf(1) pre, unfolded lim]
    have "map_of fs' (?j name) = Some (?keep name)" "tenant_entry name lr' = tenant_entry name lr1" using IH p(1) wf(2) mine(1) by auto
    then show ?thesis using IH mine other by (auto simp: x)
  qed
qed

text \<open>C0: a retention sweep removes exactly the expired logs.  When nothing fails in the file system, every directory of a tenant
  keeps exactly the entries that are not log files older than the retention time, and afterwards the usage that the quota is
  checked against is exactly what is left on disk.\<close>

theorem retention_exact:
  assumes "cleanup_expired_logs os clock lr fs = (errs, lr', fs')" "healthy_os os"
    and "map_of fs (filepath_clean (logs_dir_of os lr)) = Some entries" "wf_assoc entries"
    and "\<forall>(n, e) \<in> set entries. de_is_dir e \<longrightarrow>
      plain_name n \<and> map_of fs (filepath_join (logs_dir_of os lr) n) = Some (ls n) \<and> listing_bytes (ls n) < 2 ^ 63"
    and "(t, e) \<in> set entries" "de_is_dir e"
  shows "errs = [] \<and>
    map_of fs' (filepath_join (logs_dir_of os lr) t) = Some (filter (\<lambda>x. \<not> expired (clock t - retention_of lr) x) (ls t)) \<and>
    ts_used_known (tenant_entry t lr') \<and> ts_used_bytes (tenant_entry t lr') = stored_bytes fs' (filepath_join (logs_dir_of os lr) t)"
proof -
  have "cleanup_entries os clock entries lr fs = (errs, lr', fs')"
    using assms(1-3) by (simp add: cleanup_expired_logs_def healthy_os_def Let_def)
  from cleanup_entries_exact [OF assms(2) this assms(4,5)] assms(6,7) show ?thesis by (auto simp: stored_bytes_def)
qed

definition sample_entry :: "bool \<Rightarrow> time \<Rightarrow> string \<Rightarrow> dir_entry" where
  "sample_entry is_dir t data = \<lparr>de_is_dir = is_dir, de_regular = \<not> is_dir, de_mod_time = t, de_data = data\<rparr>"

definition sample_listing :: listing where
  "sample_listing = [(''old.log'', sample_entry False 5 ''x''), (''notes'', sample_entry False 5 ''y''), (''new.log'', sample_entry False (9 * minute) ''zz'')]"

definition sample_logs_fs :: logs_fs where
  "sample_logs_fs = [(''/logs'', [(''shop'', sample_entry True 0 [])]), (''/logs/shop'', sample_listing)]"

theorem retention_exact_witness:
  "case cleanup_expired_logs sample_receiver_os (\<lambda>n. 10 * minute) sample_receiver sample_logs_fs of
     (errs, lr', fs') \<Rightarrow> errs = [] \<and> map_of fs' ''/logs/shop'' =
        Some [(''notes'', sample_entry False 5 ''y''), (''new.log'', sample_entry False (9 * minute) ''zz'')]"
proof -
  obtain errs lr' fs' where h: "cleanup_expired_logs sample_receiver_os (\<lambda>n. 10 * minute) sample_receiver sample_logs_fs = (errs, lr', fs')"
    by (rule prod_cases3)
  have d: "logs_dir_of sample_receiver_os sample_receiver = ''/logs''" "retention_of sample_receiver = minute"
    by (simp_all add: sample_receiver_def new_log_receiver_def logs_dir_of_def retention_of_def)
  have os: "healthy_os sample_receiver_os" by (simp add: healthy_os_def sample_receiver_os_def)
  have b: "map_of sample_logs_fs (filepath_clean (logs_dir_of sample_receiver_os sample_receiver)) = Some [(''shop'', sample_entry True 0 [])]"
    by code_simp
  have w: "wf_assoc [(''shop'', sample_entry True 0 [])]" by (simp add: wf_assoc_def keys_def)
  have p: "plain_name ''shop''" "filepath_join ''/logs'' ''shop'' = ''/logs/shop''" "map_of sample_logs_fs ''/logs/shop'' = Some sample_listing"
    "listing_bytes sample_listing < 2 ^ 63" by code_simp+
  have k: "filter (\<lambda>x. \<not> expired (10 * minute - minute) x) sample_listing =
    [(''notes'', sample_entry False 5 ''y''), (''new.log'', sample_entry False (9 * minute) ''zz'')]" by code_simp
  have "errs = [] \<and> map_of fs' (filepath_join (logs_dir_of sample_receiver_os sample_receiver) ''shop'') =
    Some (filter (\<lambda>x. \<not> expired (10 * minute - retention_of sample_receiver) x) sample_listing)"
    using retention_exact [OF h os b w, of "\<lambda>n. sample_listing" "''shop''" "sample_entry True 0 []"] p
    by (simp add: d sample_entry_def)
  then show ?thesis unfolding h prod.case by (simp only: d p k)
qed

subsection \<open>Start\<close>

(* src: services/ai-logs-receiver/main.go:629-639 positiveInt64Env *)
definition positive_int64_env :: "(string \<Rightarrow> string) \<Rightarrow> string \<Rightarrow> int \<Rightarrow> go_error + int" where
  "positive_int64_env getenv name fallback =
     (if blank (getenv name) then Inr fallback
      else case parse_int64 (trim_space (getenv name)) of
             None \<Rightarrow> Inl (Errorf ''%s must be a positive integer'' [name] None)
           | Some v \<Rightarrow> if v \<le> 0 then Inl (Errorf ''%s must be a positive integer'' [name] None) else Inr v)"

(* src: services/ai-logs-receiver/main.go:641-651 positiveDurationEnv *)
definition positive_duration_env :: "(string \<Rightarrow> duration option) \<Rightarrow> (string \<Rightarrow> string) \<Rightarrow> string \<Rightarrow> duration \<Rightarrow> go_error + duration" where
  "positive_duration_env parse_duration getenv name fallback =
     (if blank (getenv name) then Inr fallback
      else case parse_duration (trim_space (getenv name)) of
             None \<Rightarrow> Inl (Errorf ''%s must be a positive duration'' [name] None)
           | Some v \<Rightarrow> if v \<le> 0 then Inl (Errorf ''%s must be a positive duration'' [name] None) else Inr v)"

text \<open>The receiver that \<open>run\<close> builds from the environment, and the port it listens on.\<close>

(* src: services/ai-logs-receiver/main.go:549-576 run (configuration) *)
definition receiver_from_env ::
  "(string \<Rightarrow> (string \<times> string) list option) \<Rightarrow> (string \<Rightarrow> duration option) \<Rightarrow> receiver_os \<Rightarrow> (string \<Rightarrow> string) \<Rightarrow>
   go_error + string \<times> log_receiver" where
  "receiver_from_env unmarshal parse_duration os getenv =
     (case load_tenant_tokens unmarshal (getenv ''AI_LOG_TOKENS'') of
        Inl e \<Rightarrow> Inl e
      | Inr tokens \<Rightarrow>
          let port = (if blank (getenv ''PORT'') then ''8082'' else trim_space (getenv ''PORT'')) in
          case positive_int64_env getenv ''MAX_REQUEST_BYTES'' 10485760 of
            Inl e \<Rightarrow> Inl e
          | Inr max_request \<Rightarrow>
              (case positive_int64_env getenv ''MAX_TENANT_BYTES'' 1073741824 of
                 Inl e \<Rightarrow> Inl e
               | Inr max_tenant \<Rightarrow>
                   (case positive_int64_env getenv ''REQUESTS_PER_MINUTE'' 600 of
                      Inl e \<Rightarrow> Inl e
                    | Inr requests \<Rightarrow>
                        (case positive_duration_env parse_duration getenv ''RETENTION'' (30 * 24 * 60 * minute) of
                           Inl e \<Rightarrow> Inl e
                         | Inr retention \<Rightarrow>
                             Inr (port, new_log_receiver tokens (get_logs_dir os) max_request max_tenant requests retention)))))"

text \<open>
  The receiver that \<open>run\<close> builds is one of the initial receivers, over every file system that is within the quota, as long as the
  limits of the operator leave room below the largest 64-bit integer.
\<close>

lemma positive_env_pos:
  "\<lbrakk> positive_int64_env getenv name fallback = Inr v; 0 < fallback \<rbrakk> \<Longrightarrow> 0 < v"
  "\<lbrakk> positive_duration_env parse_duration getenv name fallback = Inr v; 0 < fallback \<rbrakk> \<Longrightarrow> 0 < v"
  by (auto simp: positive_int64_env_def positive_duration_env_def split: option.splits if_splits)

lemma receiver_from_env_init:
  assumes "receiver_from_env unmarshal parse_duration os getenv = Inr (port, lr)"
    and "max_tenant_bytes_of lr + max_request_bytes_of lr + 1 < 2 ^ 63" "base_ok (filepath_clean (lr_logs_dir lr)) fs"
    and "\<forall>t. plain_name t \<longrightarrow> stored_bytes fs (filepath_join (lr_logs_dir lr) t) \<le> max_tenant_bytes_of lr"
  shows "receiver_init (lr, fs)" "0 < lr_requests_per_minute lr" "0 < lr_retention lr"
proof -
  obtain tokens a b c d where lr: "lr = new_log_receiver tokens (get_logs_dir os) a b c d" "0 < c" "0 < d"
    and t: "load_tenant_tokens unmarshal (getenv ''AI_LOG_TOKENS'') = Inr tokens"
    using assms(1) unfolding receiver_from_env_def Let_def
    by (auto split: sum.splits dest!: positive_env_pos)
  have "\<forall>(t, token) \<in> set tokens. tenant_id_ok t"
    using check_tokens_sound [OF load_tenant_tokens_checked [OF t]] by auto
  moreover have f: "lr_tokens lr = tokens" "lr_logs_dir lr = get_logs_dir os" "lr_requests_per_minute lr = c" "lr_retention lr = d"
    by (simp_all add: lr(1) new_log_receiver_def)
  moreover have "get_logs_dir os \<noteq> []" by (simp add: get_logs_dir_def)
  ultimately have l: "limits_ok lr" using assms(2) by (simp add: limits_ok_def)
  show "receiver_init (lr, fs)" unfolding receiver_init_def prod.case
    by (intro exI conjI, rule lr(1)) (use l assms(3,4) f(2) in simp_all)
  show "0 < lr_requests_per_minute lr" "0 < lr_retention lr" using lr(2,3) f by simp_all
qed

end
