(* ===== verification/Spec2Isabelle.thy ===== *)
theory Spec2Isabelle
  imports Registry RequestInfo Upstream Jwks Coordinator RateLimit GraphQL Llm Guard Inspect Serve Handlers Validate Load Reload Logging Receiver
begin

text \<open>
  Verification of synit-waf, a multi-tenant reverse proxy with a web application firewall, and of its two companion services, the
  classification sidecar \<open>synit-llm-guard\<close> and the log receiver \<open>ai-logs-receiver\<close>.  All paths below are paths under \<open>src/\<close>.

  \<^bold>\<open>The program.\<close>  \<open>LoadConfig\<close> reads, completes and validates the configuration; \<open>Reload\<close> builds the Coraza engines, tenant states and
  service clients from it and publishes them in the \<open>ProxyHandler\<close> and in the registry.  \<open>ServeHTTP\<close> determines the client address and
  the tenant of a request, runs the controls of the tenant in a fixed order (block list, country, global limit, known host, rate limit,
  JWT, basic authentication, CrowdSec, Coraza, GraphQL, LLM), chooses an upstream, forwards the request and treats the response.  Rate limits ask a
  cluster-wide coordinator first.  The LLM control asks the sidecar for scores.  Log events go to files and, in batches, to the receiver,
  which stores them per tenant.

  \<^bold>\<open>The model.\<close>  A Go string is a \<^typ>\<open>string\<close> of bytes, a time a number of nanoseconds, a struct a record, a function that returns an
  error a sum, a nil error \<open>None\<close>.  Integers are mathematical where the code cannot overflow and wrapped (\<open>wrap64\<close>, \<open>wrap32\<close>, or a
  machine word for the round-robin counter) where it can.  A Go map is an association list whose order is the order of the
  iteration at hand; theorems that hold for every list hold for every order.  State is passed explicitly; concurrent code is an inductive step
  relation.  Code outside the repository is a parameter, gathered in one record per component (\<open>coraza_waf\<close>, \<open>jwt_lib\<close>, \<open>jwks_env\<close>,
  \<open>rpc_env\<close>, \<open>gq_env\<close>, \<open>llm_env\<close>, \<open>guard_env\<close>, \<open>auth_env\<close>, \<open>serve_env\<close>, \<open>config_os\<close>, \<open>reload_env\<close>, \<open>log_env\<close>, \<open>receiver_os\<close>).

  \<^bold>\<open>The theories.\<close>

  \<^item> \<open>Prelude\<close>, \<open>GoStrings\<close>, \<open>GoNetip\<close>, \<open>GoEncoding\<close>, \<open>Http\<close>: the parts of Go and its library that the program uses (strings, runes, paths,
    media types, addresses and prefixes, Base64, the JSON scanner, headers, bodies, response writers), with the generic lemmas.
  \<^item> \<open>Contracts\<close>: the interfaces.  \<open>transition_system\<close> gives an invariant of all reachable states, \<open>simulation\<close> the refinement of an
    abstract transition system, \<open>bounded_store\<close> a keyed store that never exceeds its capacity, \<open>chunker\<close> a cutting of a text that covers it.
    Each is interpreted on the components that provide it.
  \<^item> \<open>Config\<close>, \<open>Registry\<close> (\<open>internal/waf/config.go\<close>): configuration structures; lookup of a tenant by host.  Lookup returns the most
    specific tenant, and the prepared wildcard index agrees with the scan.
  \<^item> \<open>RequestInfo\<close> (\<open>request_info.go\<close>, \<open>middleware_serve.go\<close>): the client address behind trusted proxies, which an untrusted peer cannot
    influence; the one-time read of a body, which inspection and upstream see alike.
  \<^item> \<open>Upstream\<close> (\<open>middleware.go\<close>): tenant states, round robin (never a dead upstream, even distribution), circuit breaker, forwarding
    headers that a client cannot forge, response masking that nothing bypasses.
  \<^item> \<open>Jwks\<close> (\<open>middleware.go\<close>): JWT validation is sound for the key set of the tenant; the cache of key sets is bounded, and its
    refresh is exclusive in every interleaving.
  \<^item> \<open>Coordinator\<close> (\<open>coordinator.go\<close>), \<open>RateLimit\<close> (\<open>middleware.go\<close>): the bounded table of limiters, the connection slots, the client of a
    follower, and the fallback to the local limiter.
  \<^item> \<open>GraphQL\<close> (\<open>graphql.go\<close>): the computed depth is the longest chain of fields, and every query of a request that passes conforms to the policy.
  \<^item> \<open>Llm\<close> (\<open>llm_protection.go\<close>), \<open>Guard\<close> (\<open>services/synit-llm-guard/main.go\<close>): chunking that covers every phrase, scores that are the
    maximum over the chunks, exclusive inference, and a decision that no chunk bypasses.
  \<^item> \<open>Inspect\<close> (\<open>middleware.go\<close>, \<open>middleware_serve.go\<close>, \<open>geoip.go\<close>): Coraza sees the whole request; basic authentication is sound in spite of its cache.
  \<^item> \<open>Serve\<close>, \<open>Handlers\<close> (\<open>middleware_serve.go\<close>, \<open>http_handler.go\<close>, \<open>readiness.go\<close>): the pipeline.  A request is forwarded only after every control
    of its tenant has cleared it, and it is logged once; readiness is exact.
  \<^item> \<open>Validate\<close>, \<open>Load\<close>, \<open>Reload\<close> (\<open>config_validation.go\<close>, \<open>config.go\<close>, \<open>llm_protection.go\<close>): validation on every branch, loading never panics and
    yields a well-formed configuration, inspection paths cannot inject rules, a failed reload keeps serving, a successful one publishes exactly
    the new configuration, and registry and tenant states always agree.
  \<^item> \<open>Logging\<close> (\<open>logging.go\<close>): log files that follow the time; the forwarder with concurrent workers refines a bag of events.
  \<^item> \<open>Receiver\<close> (\<open>services/ai-logs-receiver/main.go\<close>): a request changes only the directory of the tenant whose token it carries.

  \<^bold>\<open>Bounds and fuel.\<close>  Loops are structural or have a termination proof.  \<open>split_llm_loop\<close> of \<open>Llm\<close> is a partial function into an option, since the
  loop of the source need not end; where it ends, and where it does not, is proved.  The JSON scanner takes twice the length of the
  text as fuel, and \<open>json_valid_fuel\<close> shows that more does not change the answer.  The parameters of the media types have the length of the
  header as fuel, of which every parameter consumes at least one byte.

  \<^bold>\<open>Not modelled.\<close>  Coraza, the JWT library, bcrypt, the GraphQL parser, the YAML and JSON decoders into values, regular expressions,
  \<open>url.Parse\<close>, the formatting of times and the network are parameters.  Case mapping is that of ASCII.  Scores, thresholds and rates are
  real numbers, so NaN and rounding have no counterpart.  The goroutines and tickers that run health checks, the declaration of metrics
  (\<open>metrics.go\<close>), the adapter to the standard logger (\<open>logging_adapter.go\<close>), the wiring of servers, flags and signals in the \<open>main\<close>
  functions, and the build-time tool \<open>tools/thirdparty\<close> are left out: they are scheduling or input and output around the modelled operations.
\<close>

end
